theory Spec2Isabelle
  imports Main "HOL-Library.Sublist"
begin

section \<open>Python values\<close>

text \<open>
  The program is duck-typed: cached payloads, decoded API responses and configuration
  values are Python objects built by the JSON decoder. They are modelled by one
  datatype. A text (\<open>str\<close>) is held as the bytes of its UTF-8 encoding, so every
  text has a value here; what Python does character by character is done on the
  characters of that encoding (see \<open>chars\<close> below). A dictionary is an association
  list read with \<open>map_of\<close>. JSON numbers with a fractional part are outside the
  model.
\<close>

datatype pyval =
    PNone
  | PBool bool
  | PInt int
  | PStr string
  | PList "pyval list"
  | PDict "(string \<times> pyval) list"

text \<open>The truth value Python gives an object in \<open>if x\<close>, \<open>not x\<close>, \<open>x and y\<close>.\<close>

fun truthy :: "pyval \<Rightarrow> bool" where
  "truthy PNone = False"
| "truthy (PBool b) = b"
| "truthy (PInt i) = (i \<noteq> 0)"
| "truthy (PStr s) = (s \<noteq> [])"
| "truthy (PList xs) = (xs \<noteq> [])"
| "truthy (PDict kvs) = (kvs \<noteq> [])"

text \<open>
  The exceptions the program can meet. \<open>SystemExit\<close> is what \<open>exit(n)\<close> raises;
  it is the only one that is not an \<open>Exception\<close>.
\<close>

datatype error =
    SystemExit int
  | AttributeError
  | KeyError
  | TypeError
  | ValueError
  | OverflowError
  | DuplicatedNodeIdError
  | NodeIDAbsentError

text \<open>\<open>d.get(key)\<close>: only a dictionary has the method.\<close>

definition py_get :: "pyval \<Rightarrow> string \<Rightarrow> error + pyval" where
  "py_get d key =
     (case d of
        PDict kvs \<Rightarrow> Inr (case map_of kvs key of None \<Rightarrow> PNone | Some v \<Rightarrow> v)
      | _ \<Rightarrow> Inl AttributeError)"

text \<open>
  \<open>d[key] = v\<close> with a string key: the value of a key the dictionary has is
  replaced where it stands, a new key goes to the end. Every other object raises
  \<open>TypeError\<close> (a list wants an integer index, the rest support no item
  assignment).
\<close>

fun dict_set :: "(string \<times> pyval) list \<Rightarrow> string \<Rightarrow> pyval \<Rightarrow> (string \<times> pyval) list" where
  "dict_set [] key v = [(key, v)]"
| "dict_set (kv # kvs) key v =
     (if fst kv = key then (key, v) # kvs else kv # dict_set kvs key v)"

definition py_setitem :: "pyval \<Rightarrow> string \<Rightarrow> pyval \<Rightarrow> error + pyval" where
  "py_setitem d key v =
     (case d of
        PDict kvs \<Rightarrow> Inr (PDict (dict_set kvs key v))
      | _ \<Rightarrow> Inl TypeError)"

section \<open>CacheTool.py: the Cacher\<close>

subsection \<open>Time, as the datetime library gives it\<close>

text \<open>
  An instant is a number of microseconds since the epoch. A \<open>datetime\<close> either
  carries a UTC offset (\<open>Aware\<close>, normalised to its instant) or none (\<open>Naive\<close>).
  \<open>datetime.now(timezone.utc)\<close> is always aware; subtracting a naive datetime from
  it raises \<open>TypeError\<close>.
\<close>

datatype datetime = Aware int | Naive int

fun datetime_sub :: "int \<Rightarrow> datetime \<Rightarrow> error + int" where
  "datetime_sub now (Aware t) = Inr (now - t)"
| "datetime_sub now (Naive t) = Inl TypeError"

text \<open>
  \<open>timedelta(hours = h)\<close> in microseconds. A timedelta holds between -999999999 days
  and 999999999 days, 23:59:59.999999; outside that range the constructor raises
  \<open>OverflowError\<close>.
\<close>

definition timedelta_hours :: "int \<Rightarrow> error + int" where
  "timedelta_hours h =
     (let us = h * 3600000000
      in if - 86399999913600000000 \<le> us \<and> us \<le> 86399999999999999999
         then Inr us else Inl OverflowError)"

subsection \<open>CacheStats\<close>

record CacheStats =
  num_hits :: int
  num_misses :: int
  num_expired :: int
  num_invalid :: int

definition CacheStats_init :: CacheStats where
  "CacheStats_init = \<lparr>num_hits = 0, num_misses = 0, num_expired = 0, num_invalid = 0\<rparr>"

definition hit :: "CacheStats \<Rightarrow> CacheStats" where
  "hit s = s\<lparr>num_hits := num_hits s + 1\<rparr>"

definition miss :: "CacheStats \<Rightarrow> CacheStats" where
  "miss s = s\<lparr>num_misses := num_misses s + 1\<rparr>"

definition expired :: "CacheStats \<Rightarrow> CacheStats" where
  "expired s = s\<lparr>num_expired := num_expired s + 1\<rparr>"

definition invalid :: "CacheStats \<Rightarrow> CacheStats" where
  "invalid s = s\<lparr>num_invalid := num_invalid s + 1\<rparr>"

subsection \<open>The Cacher and its file\<close>

text \<open>
  The class documents the store as a dictionary from cache keys to entry
  dictionaries, and that is what the Cacher itself builds. But the store is replaced
  by whatever \<open>json.load\<close> decodes from the cache file, so it is any object, and so
  is each of its entries.
\<close>

record Cacher =
  enabled :: bool
  cache_file_name :: string
  cache_expiration_hours :: int
  cache_dict :: pyval
  stats :: CacheStats

text \<open>
  What a file holds for \<open>json.load\<close>: a JSON text, given by the object it decodes
  to, or something the decoder (or \<open>open\<close>) raises on. A file that does not exist
  is absent from the disk.
\<close>

datatype file_content = Json pyval | Unreadable

type_synonym disk = "string \<rightharpoonup> file_content"

definition load_cache_file :: "disk \<Rightarrow> Cacher \<Rightarrow> Cacher" where
  "load_cache_file d c =
     (if \<not> enabled c then c
      else case d (cache_file_name c) of
             None \<Rightarrow> c
           | Some (Json decoded) \<Rightarrow> c\<lparr>cache_dict := decoded\<rparr>
           | Some Unreadable \<Rightarrow> c\<lparr>enabled := False\<rparr>)"

text \<open>
  How the write of \<open>save_cache_file\<close> ends is decided outside the program: \<open>open\<close>
  raises (the file is left as it was), \<open>json.dump\<close> raises after the file was
  truncated, or the whole store is written.
\<close>

datatype write_result = OpenFailed | DumpFailed | Written

definition save_cache_file :: "write_result \<Rightarrow> Cacher \<Rightarrow> disk \<Rightarrow> disk" where
  "save_cache_file wr c d =
     (if \<not> enabled c then d
      else case wr of
             OpenFailed \<Rightarrow> d
           | DumpFailed \<Rightarrow> d(cache_file_name c \<mapsto> Unreadable)
           | Written \<Rightarrow> d(cache_file_name c \<mapsto> Json (cache_dict c)))"

definition Cacher_init :: "bool \<Rightarrow> string \<Rightarrow> int \<Rightarrow> disk \<Rightarrow> Cacher" where
  "Cacher_init en file_name hours d =
     load_cache_file d
       \<lparr>enabled = en, cache_file_name = file_name, cache_expiration_hours = hours,
        cache_dict = PDict [], stats = CacheStats_init\<rparr>"

definition initialize :: "bool \<Rightarrow> string \<Rightarrow> int \<Rightarrow> disk \<Rightarrow> Cacher" where
  "initialize en file_name expire_in_hours d = Cacher_init en file_name expire_in_hours d"

subsection \<open>read_cached_data and write_cached_data\<close>

text \<open>
  The body of the \<open>try\<close> block of \<open>read_cached_data\<close>, up to the comparison:
  \<open>fromisoformat\<close> is the library's parser (\<open>None\<close> where it raises
  \<open>ValueError\<close>; it raises \<open>TypeError\<close> on anything but a string), \<open>now\<close> is
  the clock reading of \<open>datetime.now(timezone.utc)\<close>. The result is whether the
  entry is younger than the expiration time, or the exception raised on the way.
\<close>

definition timestamp_is_fresh ::
  "(string \<Rightarrow> datetime option) \<Rightarrow> int \<Rightarrow> int \<Rightarrow> pyval \<Rightarrow> error + bool" where
  "timestamp_is_fresh fromisoformat now hours timestampStr =
     (case timestampStr of
        PStr s \<Rightarrow>
          (case fromisoformat s of
             None \<Rightarrow> Inl ValueError
           | Some timestampUTC \<Rightarrow>
               (case datetime_sub now timestampUTC of
                  Inl e \<Rightarrow> Inl e
                | Inr age \<Rightarrow>
                    (case timedelta_hours hours of
                       Inl e \<Rightarrow> Inl e
                     | Inr ttl \<Rightarrow> Inr (age < ttl))))
      | _ \<Rightarrow> Inl TypeError)"

text \<open>
  The two \<open>.get\<close> calls on the store and on the entry stand before the \<open>try\<close>
  block: what they raise leaves the function, with no counter touched. Inside the
  block the hit is counted before the data is fetched, so an exception there would
  count the call a second time, as invalid.
\<close>

definition read_cached_data ::
  "(string \<Rightarrow> datetime option) \<Rightarrow> int \<Rightarrow> Cacher \<Rightarrow> string \<Rightarrow> (error + pyval) \<times> Cacher" where
  "read_cached_data fromisoformat now c key =
     (if \<not> enabled c then (Inr PNone, c)
      else case py_get (cache_dict c) key of
             Inl e \<Rightarrow> (Inl e, c)
           | Inr cache_entry \<Rightarrow>
               if cache_entry = PNone then (Inr PNone, c\<lparr>stats := miss (stats c)\<rparr>)
               else (case py_get cache_entry ''timestamp'' of
                       Inl e \<Rightarrow> (Inl e, c)
                     | Inr timestampStr \<Rightarrow>
                         if truthy timestampStr
                         then (case timestamp_is_fresh fromisoformat now
                                       (cache_expiration_hours c) timestampStr of
                                 Inr True \<Rightarrow>
                                   (case py_get cache_entry ''data'' of
                                      Inr data \<Rightarrow> (Inr data, c\<lparr>stats := hit (stats c)\<rparr>)
                                    | Inl e \<Rightarrow>
                                        (Inr PNone, c\<lparr>stats := invalid (hit (stats c))\<rparr>))
                               | Inr False \<Rightarrow> (Inr PNone, c\<lparr>stats := expired (stats c)\<rparr>)
                               | Inl e \<Rightarrow> (Inr PNone, c\<lparr>stats := invalid (stats c)\<rparr>))
                         else (Inr PNone, c\<lparr>stats := invalid (stats c)\<rparr>)))"

text \<open>
  \<open>isoformat\<close> is the library's printer of the aware UTC instant
  \<open>datetime.now(timezone.utc)\<close>.
\<close>

definition new_entry :: "(int \<Rightarrow> string) \<Rightarrow> int \<Rightarrow> pyval \<Rightarrow> pyval" where
  "new_entry isoformat now data =
     PDict [(''timestamp'', PStr (isoformat now)), (''data'', data)]"

definition write_cached_data ::
  "(int \<Rightarrow> string) \<Rightarrow> int \<Rightarrow> Cacher \<Rightarrow> string \<Rightarrow> pyval \<Rightarrow> error + Cacher" where
  "write_cached_data isoformat now c key data =
     (if \<not> enabled c then Inr c
      else case py_setitem (cache_dict c) key (new_entry isoformat now data) of
             Inl e \<Rightarrow> Inl e
           | Inr store \<Rightarrow> Inr (c\<lparr>cache_dict := store\<rparr>))"

subsection \<open>Reading a store\<close>

text \<open>
  The age of an entry at a clock reading, where the code can compute one: the entry
  is a dictionary whose timestamp is a non-empty string that the library parses to an
  aware datetime.
\<close>

definition entry_age :: "(string \<Rightarrow> datetime option) \<Rightarrow> int \<Rightarrow> pyval \<Rightarrow> int option" where
  "entry_age fromisoformat now entry =
     (case py_get entry ''timestamp'' of
        Inr (PStr s) \<Rightarrow>
          (if s = [] then None
           else case fromisoformat s of Some (Aware t) \<Rightarrow> Some (now - t) | _ \<Rightarrow> None)
      | _ \<Rightarrow> None)"

text \<open>
  A store has the documented shape at a key when it is a dictionary and what it holds
  for the key is nothing (no entry, or \<open>null\<close>) or a dictionary.
\<close>

definition shaped_at :: "pyval \<Rightarrow> string \<Rightarrow> bool" where
  "shaped_at store key =
     (case py_get store key of
        Inr PNone \<Rightarrow> True
      | Inr (PDict kvs) \<Rightarrow> True
      | _ \<Rightarrow> False)"

section \<open>Python built-ins used by FRED_API.py\<close>

text \<open>Numbers: a Python \<open>bool\<close> is an \<open>int\<close> (\<open>True\<close> is 1), but prints as a word.\<close>

datatype pynum = NInt int | NBool bool

fun num_val :: "pynum \<Rightarrow> int" where
  "num_val (NInt i) = i"
| "num_val (NBool b) = (if b then 1 else 0)"

fun pyval_of_num :: "pynum \<Rightarrow> pyval" where
  "pyval_of_num (NInt i) = PInt i"
| "pyval_of_num (NBool b) = PBool b"

text \<open>The number an object is in arithmetic; \<open>None\<close> where \<open>int + object\<close> raises \<open>TypeError\<close>.\<close>

fun py_num :: "pyval \<Rightarrow> pynum option" where
  "py_num (PInt i) = Some (NInt i)"
| "py_num (PBool b) = Some (NBool b)"
| "py_num _ = None"

function digits :: "nat \<Rightarrow> string" where
  "digits n =
     (if n < 10 then [''0123456789'' ! n]
      else digits (n div 10) @ [''0123456789'' ! (n mod 10)])"
  by pat_completeness auto
termination
  by (relation "measure id") auto

declare digits.simps [simp del]

definition show_int :: "int \<Rightarrow> string" where
  "show_int i = (if i < 0 then ''-'' @ digits (nat (- i)) else digits (nat i))"

text \<open>
  \<open>str(x)\<close>, which is also what \<open>format\<close> and an f-string put in place of a plain
  field. A list or a dictionary prints by \<open>repr\<close>, which is left to the library.
\<close>

definition py_str :: "(pyval \<Rightarrow> string) \<Rightarrow> pyval \<Rightarrow> string" where
  "py_str repr_of v =
     (case v of
        PNone \<Rightarrow> ''None''
      | PBool b \<Rightarrow> (if b then ''True'' else ''False'')
      | PInt i \<Rightarrow> show_int i
      | PStr s \<Rightarrow> s
      | _ \<Rightarrow> repr_of v)"

text \<open>\<open>d[key]\<close> with a string key.\<close>

definition py_item :: "pyval \<Rightarrow> string \<Rightarrow> error + pyval" where
  "py_item d key =
     (case d of
        PDict kvs \<Rightarrow> (case map_of kvs key of None \<Rightarrow> Inl KeyError | Some v \<Rightarrow> Inr v)
      | _ \<Rightarrow> Inl TypeError)"

text \<open>
  The characters of a text. In UTF-8 a character is one byte that is not a
  continuation byte (the bytes \<open>10xxxxxx\<close>) followed by its continuation bytes; the
  ASCII characters are the bytes below 128, each a character of its own.
\<close>

definition continuation :: "char \<Rightarrow> bool" where
  "continuation c = (digit7 c \<and> \<not> digit6 c)"

fun chars :: "string \<Rightarrow> string list" where
  "chars [] = []"
| "chars (c # cs) =
     (case chars cs of
        [] \<Rightarrow> [[c]]
      | d # ds \<Rightarrow>
          (if (case d of [] \<Rightarrow> False | x # xs \<Rightarrow> continuation x)
           then (c # d) # ds else [c] # d # ds))"

text \<open>\<open>xs[:n]\<close> on a list: a negative \<open>n\<close> counts from the end.\<close>

definition slice_to :: "'a list \<Rightarrow> int \<Rightarrow> 'a list" where
  "slice_to xs n = (if 0 \<le> n then take (nat n) xs else take (nat (int (length xs) + n)) xs)"

text \<open>\<open>len(s)\<close> and \<open>s[:n]\<close> on a text count characters.\<close>

definition str_len :: "string \<Rightarrow> nat" where
  "str_len s = length (chars s)"

definition str_slice_to :: "string \<Rightarrow> int \<Rightarrow> string" where
  "str_slice_to s n = concat (slice_to (chars s) n)"

text \<open>\<open>len(x)\<close>.\<close>

definition py_len :: "pyval \<Rightarrow> error + int" where
  "py_len x =
     (case x of
        PStr s \<Rightarrow> Inr (int (str_len s))
      | PList xs \<Rightarrow> Inr (int (length xs))
      | PDict kvs \<Rightarrow> Inr (int (length kvs))
      | _ \<Rightarrow> Inl TypeError)"

text \<open>
  The objects a \<open>for\<close> loop takes from \<open>x\<close>: the elements of a list, the characters
  of a text, the keys of a dictionary.
\<close>

definition py_iter :: "pyval \<Rightarrow> error + pyval list" where
  "py_iter x =
     (case x of
        PStr s \<Rightarrow> Inr (map PStr (chars s))
      | PList xs \<Rightarrow> Inr xs
      | PDict kvs \<Rightarrow> Inr (map (\<lambda>kv. PStr (fst kv)) kvs)
      | _ \<Rightarrow> Inl TypeError)"

text \<open>The objects a \<open>for\<close> loop takes from \<open>x[:n]\<close>; a dictionary cannot be sliced.\<close>

definition py_iter_slice_to :: "pyval \<Rightarrow> int \<Rightarrow> error + pyval list" where
  "py_iter_slice_to x n =
     (case x of
        PStr s \<Rightarrow> Inr (map PStr (slice_to (chars s) n))
      | PList xs \<Rightarrow> Inr (slice_to xs n)
      | _ \<Rightarrow> Inl TypeError)"

text \<open>
  \<open>s.lower()\<close>. An ASCII character is lowered by the table below, whatever stands
  around it. What the Unicode tables of the library put in place of the other
  characters is a parameter: \<open>unicode_lower before c after\<close> is the text that
  replaces the byte \<open>c\<close> between the bytes \<open>before\<close> and \<open>after\<close> (the lowered
  character at its first byte, nothing at its continuation bytes). It may be ASCII:
  the Kelvin sign U+212A is lowered to the letter k.
\<close>

definition lower_char :: "char \<Rightarrow> char" where
  "lower_char c =
     (case map_of (zip ''ABCDEFGHIJKLMNOPQRSTUVWXYZ'' ''abcdefghijklmnopqrstuvwxyz'') c of
        None \<Rightarrow> c
      | Some l \<Rightarrow> l)"

fun lower_from :: "(string \<Rightarrow> char \<Rightarrow> string \<Rightarrow> string) \<Rightarrow> string \<Rightarrow> string \<Rightarrow> string" where
  "lower_from unicode_lower before [] = []"
| "lower_from unicode_lower before (c # after) =
     (if digit7 c then unicode_lower before c after else [lower_char c])
     @ lower_from unicode_lower (before @ [c]) after"

definition lower :: "(string \<Rightarrow> char \<Rightarrow> string \<Rightarrow> string) \<Rightarrow> string \<Rightarrow> string" where
  "lower unicode_lower s = lower_from unicode_lower [] s"

text \<open>\<open>re.sub("[\r\n]+", " ", s)\<close>: every run of line ends becomes one space.\<close>

fun squeeze_newlines :: "bool \<Rightarrow> string \<Rightarrow> string" where
  "squeeze_newlines in_run [] = []"
| "squeeze_newlines in_run (c # cs) =
     (if c = CHR 0x0D \<or> c = CHR 0x0A
      then (if in_run then squeeze_newlines True cs else CHR '' '' # squeeze_newlines True cs)
      else c # squeeze_newlines False cs)"

text \<open>\<open>"; ".join(xs)\<close>: every element has to be a string.\<close>

fun py_join :: "string \<Rightarrow> pyval list \<Rightarrow> error + string" where
  "py_join sep [] = Inr []"
| "py_join sep [PStr s] = Inr s"
| "py_join sep (PStr s # x # xs) =
     (case py_join sep (x # xs) of Inl e \<Rightarrow> Inl e | Inr r \<Rightarrow> Inr (s @ sep @ r))"
| "py_join sep (_ # xs) = Inl TypeError"

section \<open>FRED_API.py: the Application\<close>

subsection \<open>Configuration, library and the outside world\<close>

text \<open>What one HTTP request ends in.\<close>

datatype http_result =
    Response string
  | UrlopenError
  | BadRequest

text \<open>
  Everything the program is given: the settings of \<open>config.yaml\<close>, the secret of
  \<open>api_key.json\<close>, the library functions that are not modelled (the timestamp
  parser and printer, the JSON decoder, \<open>repr\<close> of a container, the lowering of the
  characters that are not ASCII, and \<open>strptime\<close> followed by \<open>strftime\<close>), and the outside world: the clock and the
  API host. Clock and host are asked with the number of interactions so far, so they
  may answer differently every time. \<open>Response\<close> is a body read and decoded,
  \<open>UrlopenError\<close> any exception inside the \<open>try\<close> block of
  \<open>make_api_request\<close>, \<open>BadRequest\<close> a URL that \<open>urllib.request.Request\<close> refuses
  with \<open>ValueError\<close>.
\<close>

record env =
  BASE_URL :: string
  ROOT_CATEGORY :: pyval
  LIMIT_DEPTH :: int
  LIMIT_SERIES :: int
  THROTTLE :: int
  api_key :: string
  lib_fromisoformat :: "string \<Rightarrow> datetime option"
  lib_isoformat :: "int \<Rightarrow> string"
  json_loads :: "string \<Rightarrow> pyval option"
  lib_repr :: "pyval \<Rightarrow> string"
  lib_lower :: "string \<Rightarrow> char \<Rightarrow> string \<Rightarrow> string"
  strptime_strftime :: "string \<Rightarrow> string \<Rightarrow> string \<Rightarrow> string option"
  utcnow :: "nat \<Rightarrow> int"
  urlopen :: "nat \<Rightarrow> string \<Rightarrow> http_result"

definition API_KEY_PARAM_NAME :: string where
  "API_KEY_PARAM_NAME = ''api_key''"

definition API_KEY_PARAMETER :: "env \<Rightarrow> string" where
  "API_KEY_PARAMETER E = API_KEY_PARAM_NAME @ ''='' @ api_key E"

subsection \<open>The tree (treelib)\<close>

text \<open>
  A node has a tag, a parent and an identifier; \<open>None\<close> stands for the fresh
  identifier the library generates when the caller gives none. The tree is the list
  of its nodes in the order of creation. \<open>create_node\<close> under a parent raises
  \<open>DuplicatedNodeIdError\<close> when the identifier is taken and \<open>NodeIDAbsentError\<close>
  when the parent is not in the tree.
\<close>

record tree_node =
  node_id :: "string option"
  tag :: string
  parent :: "string option"

type_synonym tree = "tree_node list"

definition contains :: "tree \<Rightarrow> string \<Rightarrow> bool" where
  "contains t nid = (Some nid \<in> set (map node_id t))"

definition create_node :: "string \<Rightarrow> string option \<Rightarrow> string \<Rightarrow> tree \<Rightarrow> error + tree" where
  "create_node text ident parent_id t =
     (if (case ident of None \<Rightarrow> False | Some nid \<Rightarrow> contains t nid)
      then Inl DuplicatedNodeIdError
      else if \<not> contains t parent_id then Inl NodeIDAbsentError
      else Inr (t @ [\<lparr>node_id = ident, tag = text, parent = Some parent_id\<rparr>]))"

text \<open>
  \<open>cat_node = tree.get_node(nid)\<close> followed by \<open>cat_node.tag += text\<close>:
  \<open>get_node\<close> returns \<open>None\<close> for an unknown identifier, and the assignment then
  raises \<open>AttributeError\<close>.
\<close>

definition append_tag :: "string \<Rightarrow> string \<Rightarrow> tree \<Rightarrow> error + tree" where
  "append_tag nid text t =
     (if contains t nid
      then Inr (map (\<lambda>n. if node_id n = Some nid then n\<lparr>tag := tag n @ text\<rparr> else n) t)
      else Inl AttributeError)"

subsection \<open>The state of the Application\<close>

record AppStats =
  total_categories :: int
  total_series :: int
  total_server_calls :: int

definition AppStats_init :: AppStats where
  "AppStats_init = \<lparr>total_categories = 0, total_series = 0, total_server_calls = 0\<rparr>"

definition inc_categories :: "int \<Rightarrow> AppStats \<Rightarrow> AppStats" where
  "inc_categories num s = s\<lparr>total_categories := total_categories s + num\<rparr>"

definition inc_series :: "int \<Rightarrow> AppStats \<Rightarrow> AppStats" where
  "inc_series num s = s\<lparr>total_series := total_series s + num\<rparr>"

definition inc_server_calls :: "AppStats \<Rightarrow> AppStats" where
  "inc_server_calls s = s\<lparr>total_server_calls := total_server_calls s + 1\<rparr>"

text \<open>
  The mutable state: the cacher, the counters, the tree, the progress lines written
  with \<open>logging.info\<close> (one per category the traversal enters, kept as depth,
  identifier and name), and the number of interactions with the outside so far.
\<close>

record app =
  APICacher :: Cacher
  app_stats :: AppStats
  fred_data_tree :: tree
  progress :: "(int \<times> pyval \<times> pyval) list"
  interactions :: nat

definition initialize_tree :: "env \<Rightarrow> tree" where
  "initialize_tree E =
     [\<lparr>node_id = Some (py_str (lib_repr E) (ROOT_CATEGORY E)),
       tag = ''FRED'' @ [CHR 0xC2, CHR 0xAE] @ '' Services API at '' @ BASE_URL E,
       parent = None\<rparr>]"

subsection \<open>Requests\<close>

text \<open>
  Every function below takes the state and returns the new state together with its
  value or the exception it raised: a caller that catches the exception goes on in
  the state the callee left.
\<close>

definition make_api_request :: "env \<Rightarrow> string \<Rightarrow> app \<Rightarrow> (error + pyval) \<times> app" where
  "make_api_request E requestURL a =
     (let a1 = a\<lparr>app_stats := inc_server_calls (app_stats a)\<rparr>
      in if THROTTLE E < 0 then (Inl ValueError, a1)
         else
           (let urlWithKey = requestURL @ ''&'' @ API_KEY_PARAMETER E;
                a2 = a1\<lparr>interactions := interactions a1 + 1\<rparr>
            in case urlopen E (interactions a1) urlWithKey of
                 BadRequest \<Rightarrow> (Inl ValueError, a2)
               | UrlopenError \<Rightarrow> (Inr PNone, a2)
               | Response body \<Rightarrow> (Inr (PStr body), a2)))"

definition make_caching_request :: "env \<Rightarrow> string \<Rightarrow> app \<Rightarrow> (error + pyval) \<times> app" where
  "make_caching_request E requestURL a =
     (case read_cached_data (lib_fromisoformat E) (utcnow E (interactions a))
             (APICacher a) requestURL of
        (Inl e, c1) \<Rightarrow> (Inl e, a\<lparr>APICacher := c1, interactions := interactions a + 1\<rparr>)
      | (Inr data, c1) \<Rightarrow>
          (let a1 = a\<lparr>APICacher := c1, interactions := interactions a + 1\<rparr>
           in if \<not> truthy data
              then (case make_api_request E requestURL a1 of
                      (Inl e, a2) \<Rightarrow> (Inl e, a2)
                    | (Inr data', a2) \<Rightarrow>
                        (case write_cached_data (lib_isoformat E) (utcnow E (interactions a2))
                                (APICacher a2) requestURL data' of
                           Inl e \<Rightarrow> (Inl e, a2\<lparr>interactions := interactions a2 + 1\<rparr>)
                         | Inr c2 \<Rightarrow>
                             (Inr data',
                              a2\<lparr>APICacher := c2, interactions := interactions a2 + 1\<rparr>)))
              else (Inr data, a1)))"

text \<open>\<open>json.loads(data)\<close>: \<open>TypeError\<close> unless \<open>data\<close> is a string.\<close>

definition json_loads_py :: "env \<Rightarrow> pyval \<Rightarrow> pyval option" where
  "json_loads_py E data = (case data of PStr s \<Rightarrow> json_loads E s | _ \<Rightarrow> None)"

definition full_url :: "env \<Rightarrow> string \<Rightarrow> string" where
  "full_url E rest_path = BASE_URL E @ ''/'' @ rest_path @ ''&file_type=json''"

definition get_rest_data :: "env \<Rightarrow> string \<Rightarrow> app \<Rightarrow> (error + pyval) \<times> app" where
  "get_rest_data E rest_path a =
     (let fullURL = full_url E rest_path
      in if sublist API_KEY_PARAM_NAME (lower (lib_lower E) rest_path)
         then (Inl (SystemExit (- 999)), a)
         else (case make_caching_request E fullURL a of
                 (Inl e, a1) \<Rightarrow> (Inr (PDict []), a1)
               | (Inr data, a1) \<Rightarrow>
                   (case json_loads_py E data of
                      None \<Rightarrow> (Inr (PDict []), a1)
                    | Some decoded \<Rightarrow> (Inr decoded, a1))))"

text \<open>The local \<open>url\<close> of \<open>get_child_categories\<close> and of \<open>get_children_series\<close>.\<close>

definition children_url :: "env \<Rightarrow> pyval \<Rightarrow> string" where
  "children_url E parentCategoryID =
     ''category/children?category_id='' @ py_str (lib_repr E) parentCategoryID"

definition series_url :: "env \<Rightarrow> pyval \<Rightarrow> string" where
  "series_url E parentCategoryID =
     ''category/series?category_id='' @ py_str (lib_repr E) parentCategoryID
     @ ''&limit='' @ show_int (LIMIT_SERIES E)"

definition get_child_categories :: "env \<Rightarrow> pyval \<Rightarrow> app \<Rightarrow> (error + pyval) \<times> app" where
  "get_child_categories E parentCategoryID a =
     get_rest_data E (children_url E parentCategoryID) a"

definition get_children_series :: "env \<Rightarrow> pyval \<Rightarrow> app \<Rightarrow> (error + pyval) \<times> app" where
  "get_children_series E parentCategoryID a =
     get_rest_data E (series_url E parentCategoryID) a"

subsection \<open>process_series\<close>

text \<open>
  \<open>reformat_date_string\<close>: the two formats are tried in order, each inside a
  \<open>try\<close> that swallows every exception (also the \<open>TypeError\<close> of adding the
  padding to something that is not a string); when neither parses, the input is
  returned as it is.
\<close>

definition reformat_date_string :: "env \<Rightarrow> pyval \<Rightarrow> pyval" where
  "reformat_date_string E api_datetime =
     (case api_datetime of
        PStr s \<Rightarrow>
          (case strptime_strftime E ''%Y-%m-%d %H:%M:%S%z'' ''%b %d, %Y %r'' (s @ ''00'') of
             Some r \<Rightarrow> PStr r
           | None \<Rightarrow>
               (case strptime_strftime E ''%Y-%m-%d'' ''%b %d, %Y'' s of
                  Some r \<Rightarrow> PStr r
                | None \<Rightarrow> api_datetime))
      | _ \<Rightarrow> api_datetime)"

definition add_node :: "string \<Rightarrow> string option \<Rightarrow> string \<Rightarrow> app \<Rightarrow> (error + unit) \<times> app" where
  "add_node text ident parent_id a =
     (case create_node text ident parent_id (fred_data_tree a) of
        Inl e \<Rightarrow> (Inl e, a)
      | Inr t \<Rightarrow> (Inr (), a\<lparr>fred_data_tree := t\<rparr>))"

text \<open>
  The text of the notes node: the first 9999 characters with their line ends
  squeezed, cut at 100 characters.
\<close>

definition notes_text :: "env \<Rightarrow> string \<Rightarrow> string" where
  "notes_text E notes =
     (let text = squeeze_newlines False (str_slice_to notes 9999);
          max_display_len = 100;
          text_len = int (str_len text)
      in if text_len \<ge> max_display_len
         then [CHR 0x22] @ str_slice_to text max_display_len @ ''...'' @ [CHR 0x22] @ '' [+''
              @ show_int (text_len - max_display_len) @ '']''
         else [CHR 0x22] @ text @ [CHR 0x22])"

text \<open>The list \<open>attributes\<close>, in the order the code appends to it.\<close>

definition series_attributes :: "env \<Rightarrow> pyval \<Rightarrow> error + pyval list" where
  "series_attributes E series =
     (case py_get series ''frequency'' of Inl e \<Rightarrow> Inl e | Inr frequency \<Rightarrow>
     (case py_get series ''seasonal_adjustment'' of Inl e \<Rightarrow> Inl e | Inr seasonal \<Rightarrow>
     (case py_get series ''seasonal_adjustment_short'' of Inl e \<Rightarrow> Inl e | Inr seasonal_short \<Rightarrow>
     (case py_get series ''last_updated'' of Inl e \<Rightarrow> Inl e | Inr last_updated \<Rightarrow>
     (case py_get series ''observation_start'' of Inl e \<Rightarrow> Inl e | Inr observation_start \<Rightarrow>
     (case py_get series ''observation_end'' of Inl e \<Rightarrow> Inl e | Inr observation_end \<Rightarrow>
        Inr ((if truthy frequency then [frequency] else [])
             @ (if truthy seasonal \<and> seasonal_short = PStr ''SA'' then [seasonal] else [])
             @ (if truthy last_updated
                then [PStr (''Updated ''
                        @ py_str (lib_repr E) (reformat_date_string E last_updated))]
                else [])
             @ (if truthy observation_start \<and> truthy observation_end
                then [PStr (''Observations ''
                        @ py_str (lib_repr E) (reformat_date_string E observation_start)
                        @ '' to ''
                        @ py_str (lib_repr E) (reformat_date_string E observation_end))]
                else []))))))))"

definition process_series :: "env \<Rightarrow> pyval \<Rightarrow> pyval \<Rightarrow> app \<Rightarrow> (error + unit) \<times> app" where
  "process_series E series categoryID a =
     (case py_item series ''title'' of Inl e \<Rightarrow> (Inl e, a) | Inr title \<Rightarrow>
     (case py_item series ''id'' of Inl e \<Rightarrow> (Inl e, a) | Inr series_id \<Rightarrow>
       (let text = ''['' @ py_str (lib_repr E) series_id @ ''] '' @ py_str (lib_repr E) title;
            nodeIdentifier = py_str (lib_repr E) categoryID @ ''/'' @ py_str (lib_repr E) series_id
        in case add_node text (Some nodeIdentifier) (py_str (lib_repr E) categoryID) a of
             (Inl e, a1) \<Rightarrow> (Inl e, a1)
           | (Inr u, a1) \<Rightarrow>
               (case py_get series ''notes'' of Inl e \<Rightarrow> (Inl e, a1) | Inr notes \<Rightarrow>
               (case (if truthy notes
                      then (case notes of
                              PStr n \<Rightarrow> add_node (notes_text E n) None nodeIdentifier a1
                            | _ \<Rightarrow> (Inl TypeError, a1))
                      else (Inr (), a1)) of
                  (Inl e, a2) \<Rightarrow> (Inl e, a2)
                | (Inr u, a2) \<Rightarrow>
                    (case series_attributes E series of Inl e \<Rightarrow> (Inl e, a2) | Inr attributes \<Rightarrow>
                     if attributes \<noteq> []
                     then (case py_join ''; '' attributes of
                             Inl e \<Rightarrow> (Inl e, a2)
                           | Inr joined \<Rightarrow> add_node joined None nodeIdentifier a2)
                     else (Inr (), a2)))))))"

subsection \<open>process_children_series\<close>

text \<open>
  The loop over the series to display: each is processed and counted off
  \<open>num_remaining\<close>.
\<close>

fun process_series_loop ::
  "env \<Rightarrow> pyval list \<Rightarrow> pyval \<Rightarrow> pynum \<Rightarrow> app \<Rightarrow> (error + pynum) \<times> app" where
  "process_series_loop E [] categoryID num_remaining a = (Inr num_remaining, a)"
| "process_series_loop E (series # rest) categoryID num_remaining a =
     (case process_series E series categoryID a of
        (Inl e, a1) \<Rightarrow> (Inl e, a1)
      | (Inr u, a1) \<Rightarrow>
          process_series_loop E rest categoryID (NInt (num_val num_remaining - 1)) a1)"

definition process_children_series ::
  "env \<Rightarrow> pyval \<Rightarrow> pyval \<Rightarrow> app \<Rightarrow> (error + pynum \<times> pynum) \<times> app" where
  "process_children_series E children_series categoryID a =
     (case py_get children_series ''count'' of Inl e \<Rightarrow> (Inl e, a) | Inr num_series \<Rightarrow>
     (case py_get children_series ''seriess'' of Inl e \<Rightarrow> (Inl e, a) | Inr seriess \<Rightarrow>
      if truthy num_series \<and> truthy seriess
      then (case py_num num_series of
              None \<Rightarrow> (Inl TypeError, a)
            | Some n \<Rightarrow>
                (let a1 = a\<lparr>app_stats := inc_series (num_val n) (app_stats a)\<rparr>
                 in case py_iter_slice_to seriess (LIMIT_SERIES E) of
                      Inl e \<Rightarrow> (Inl e, a1)
                    | Inr shown \<Rightarrow>
                        (case process_series_loop E shown categoryID n a1 of
                           (Inl e, a2) \<Rightarrow> (Inl e, a2)
                         | (Inr num_remaining, a2) \<Rightarrow>
                             if num_val num_remaining > 0
                             then (case add_node
                                          (''plus '' @ py_str (lib_repr E) (pyval_of_num num_remaining)
                                           @ '' additional series...'')
                                          None (py_str (lib_repr E) categoryID) a2 of
                                     (Inl e, a3) \<Rightarrow> (Inl e, a3)
                                   | (Inr u, a3) \<Rightarrow> (Inr (n, n), a3))
                             else (Inr (n, n), a2))))
      else (Inr (NInt 0, NInt 0), a)))"

subsection \<open>process_category\<close>

text \<open>
  The first part of the body of \<open>process_category\<close> (after the depth check): the
  identifier and the name, the progress line, the series of the category, and its
  child categories as the host lists them.
\<close>

definition fetch_children ::
  "env \<Rightarrow> int \<Rightarrow> pyval \<Rightarrow> app \<Rightarrow> (error + pyval \<times> pynum \<times> pynum \<times> pyval) \<times> app" where
  "fetch_children E depth categoryDict a =
     (case py_item categoryDict ''id'' of Inl e \<Rightarrow> (Inl e, a) | Inr categoryID \<Rightarrow>
     (case py_item categoryDict ''name'' of Inl e \<Rightarrow> (Inl e, a) | Inr categoryName \<Rightarrow>
       (let a0 = a\<lparr>progress := progress a @ [(depth, categoryID, categoryName)]\<rparr>
        in case get_children_series E categoryID a0 of
             (Inl e, a1) \<Rightarrow> (Inl e, a1)
           | (Inr children_series, a1) \<Rightarrow>
               (case process_children_series E children_series categoryID a1 of
                  (Inl e, a2) \<Rightarrow> (Inl e, a2)
                | (Inr (num_series, num_descendent_series), a2) \<Rightarrow>
                    (case get_child_categories E categoryID a2 of
                       (Inl e, a3) \<Rightarrow> (Inl e, a3)
                     | (Inr children_categories, a3) \<Rightarrow>
                         (case py_get children_categories ''categories'' of
                            Inl e \<Rightarrow> (Inl e, a3)
                          | Inr categories \<Rightarrow>
                              (Inr (categoryID, num_series, num_descendent_series, categories),
                               a3)))))))"

text \<open>\<open>len(categories)\<close>, the counter, and the objects the loop will take.\<close>

definition count_categories :: "pyval \<Rightarrow> app \<Rightarrow> (error + int \<times> pyval list) \<times> app" where
  "count_categories categories a =
     (case py_len categories of
        Inl e \<Rightarrow> (Inl e, a)
      | Inr num_categories \<Rightarrow>
          (let a1 = a\<lparr>app_stats := inc_categories num_categories (app_stats a)\<rparr>
           in case py_iter categories of
                Inl e \<Rightarrow> (Inl e, a1)
              | Inr subdicts \<Rightarrow> (Inr (num_categories, subdicts), a1)))"

text \<open>The node of one child category, made before the child is processed.\<close>

definition create_category_node :: "env \<Rightarrow> pyval \<Rightarrow> pyval \<Rightarrow> app \<Rightarrow> (error + unit) \<times> app" where
  "create_category_node E categoryID subdict a =
     (case py_item subdict ''name'' of Inl e \<Rightarrow> (Inl e, a) | Inr name \<Rightarrow>
     (case py_item subdict ''id'' of Inl e \<Rightarrow> (Inl e, a) | Inr sub_id \<Rightarrow>
        add_node (''[#'' @ py_str (lib_repr E) sub_id @ ''] '' @ py_str (lib_repr E) name)
          (Some (py_str (lib_repr E) sub_id)) (py_str (lib_repr E) categoryID) a))"

text \<open>The end of \<open>process_category\<close>: the counts are appended to the tag of the category's node.\<close>

definition annotate ::
  "env \<Rightarrow> pyval \<Rightarrow> int \<Rightarrow> int \<Rightarrow> pynum \<Rightarrow> pynum \<Rightarrow> app \<Rightarrow> (error + int \<times> pynum) \<times> app" where
  "annotate E categoryID num_categories num_descendent_categories num_series
       num_descendent_series a =
     (let nid = py_str (lib_repr E) categoryID;
          text1 = (if num_categories > 0 \<or> num_descendent_categories > 0
                   then Some ('', contains '' @ show_int num_categories @ ''/''
                              @ show_int num_descendent_categories @ '' categories'')
                   else None);
          text2 = (if num_val num_series > 0 \<or> num_val num_descendent_series > 0
                   then Some ('', contains '' @ py_str (lib_repr E) (pyval_of_num num_series)
                              @ ''/'' @ py_str (lib_repr E) (pyval_of_num num_descendent_series)
                              @ '' series'')
                   else None)
      in case (case text1 of None \<Rightarrow> Inr (fred_data_tree a)
               | Some t1 \<Rightarrow> append_tag nid t1 (fred_data_tree a)) of
           Inl e \<Rightarrow> (Inl e, a)
         | Inr tr1 \<Rightarrow>
             (case (case text2 of None \<Rightarrow> Inr tr1 | Some t2 \<Rightarrow> append_tag nid t2 tr1) of
                Inl e \<Rightarrow> (Inl e, a\<lparr>fred_data_tree := tr1\<rparr>)
              | Inr tr2 \<Rightarrow>
                  (Inr (num_descendent_categories, num_descendent_series),
                   a\<lparr>fred_data_tree := tr2\<rparr>)))"

function process_category :: "env \<Rightarrow> int \<Rightarrow> pyval \<Rightarrow> app \<Rightarrow> (error + int \<times> pynum) \<times> app"
  and process_subcategories ::
    "env \<Rightarrow> int \<Rightarrow> pyval \<Rightarrow> pyval list \<Rightarrow> int \<times> pynum \<Rightarrow> app \<Rightarrow> (error + int \<times> pynum) \<times> app"
where
  "process_category E depth categoryDict a =
     (if depth > LIMIT_DEPTH E then (Inr (0, NInt 0), a)
      else (case fetch_children E depth categoryDict a of
              (Inl e, a1) \<Rightarrow> (Inl e, a1)
            | (Inr (categoryID, num_series, num_descendent_series, categories), a1) \<Rightarrow>
                if truthy categories
                then (case count_categories categories a1 of
                        (Inl e, a2) \<Rightarrow> (Inl e, a2)
                      | (Inr (num_categories, subdicts), a2) \<Rightarrow>
                          (case process_subcategories E depth categoryID subdicts
                                  (num_categories, num_descendent_series) a2 of
                             (Inl e, a3) \<Rightarrow> (Inl e, a3)
                           | (Inr (num_descendent_categories, num_descendent_series'), a3) \<Rightarrow>
                               annotate E categoryID num_categories num_descendent_categories
                                 num_series num_descendent_series' a3))
                else annotate E categoryID 0 0 num_series num_descendent_series a1))"
| "process_subcategories E depth categoryID [] totals a = (Inr totals, a)"
| "process_subcategories E depth categoryID (subdict # rest) totals a =
     (case create_category_node E categoryID subdict a of
        (Inl e, a1) \<Rightarrow> (Inl e, a1)
      | (Inr u, a1) \<Rightarrow>
          (case process_category E (depth + 1) subdict a1 of
             (Inl e, a2) \<Rightarrow> (Inl e, a2)
           | (Inr num_descendents, a2) \<Rightarrow>
               process_subcategories E depth categoryID rest
                 (fst totals + fst num_descendents,
                  NInt (num_val (snd totals) + num_val (snd num_descendents))) a2))"
  by pat_completeness auto
termination
  by (relation "measures
        [\<lambda>x. case x of
                Inl (E, depth, categoryDict, a) \<Rightarrow>
                  if depth > LIMIT_DEPTH E then 0 else 2 * nat (LIMIT_DEPTH E + 1 - depth) + 2
              | Inr (E, depth, categoryID, subdicts, totals, a) \<Rightarrow>
                  2 * nat (LIMIT_DEPTH E + 1 - depth) + 1,
         \<lambda>x. case x of
                Inl (E, depth, categoryDict, a) \<Rightarrow> 0
              | Inr (E, depth, categoryID, subdicts, totals, a) \<Rightarrow> length subdicts]")
     auto

declare process_category.simps [simp del]

section \<open>Example data\<close>

text \<open>
  The library's parser and printer at the instants used in the examples:
  2021-01-01 09:30 UTC is 1609493400 seconds after the epoch, and \<open>isoformat\<close>
  prints no fraction when the microseconds are zero. The second string has no offset,
  so it parses to a naive datetime.
\<close>

definition fromisoformat_table :: "string \<Rightarrow> datetime option" where
  "fromisoformat_table s =
     (if s = ''2021-01-01T09:30:00+00:00'' then Some (Aware 1609493400000000)
      else if s = ''2021-01-01T09:30:00'' then Some (Naive 1609493400000000)
      else None)"

definition isoformat_table :: "int \<Rightarrow> string" where
  "isoformat_table t =
     (if t = 1609493400000000 then ''2021-01-01T09:30:00+00:00'' else ''unused'')"

text \<open>
  The library's lowering at the Kelvin sign U+212A, whose encoding is the bytes
  E2 84 AA: the letter k stands in place of the first byte and nothing in place of
  the other two. Every other byte is left as it is.
\<close>

definition lower_table :: "string \<Rightarrow> char \<Rightarrow> string \<Rightarrow> string" where
  "lower_table before c after =
     (if c = CHR 0xE2 \<and> take 2 after = [CHR 0x84, CHR 0xAA] then ''k''
      else if c = CHR 0x84 \<and> take 1 (rev before) = [CHR 0xE2] \<and> take 1 after = [CHR 0xAA]
      then []
      else if c = CHR 0xAA \<and> take 2 (rev before) = [CHR 0x84, CHR 0xE2] then []
      else [c])"


definition cacher0 :: Cacher where
  "cacher0 = initialize True ''cache.json'' 24 Map.empty"

definition cacher_off :: Cacher where
  "cacher_off = initialize False ''cache.json'' 24 Map.empty"

text \<open>
  Stores that hold one entry for the key \<open>X\<close>: written at 09:30 UTC, with a
  timestamp without offset, without a timestamp, and an entry that is a number.
\<close>

definition entry_0930 :: pyval where
  "entry_0930 =
     PDict [(''timestamp'', PStr ''2021-01-01T09:30:00+00:00''), (''data'', PStr ''payload'')]"

definition cacher_0930 :: Cacher where
  "cacher_0930 = cacher0\<lparr>cache_dict := PDict [(''X'', entry_0930)]\<rparr>"

definition entry_naive :: pyval where
  "entry_naive =
     PDict [(''timestamp'', PStr ''2021-01-01T09:30:00''), (''data'', PStr ''payload'')]"

definition cacher_naive :: Cacher where
  "cacher_naive = cacher0\<lparr>cache_dict := PDict [(''X'', entry_naive)]\<rparr>"

definition cacher_undated :: Cacher where
  "cacher_undated = cacher0\<lparr>cache_dict := PDict [(''X'', PDict [(''data'', PStr ''payload'')])]\<rparr>"

text \<open>
  Cache files that decode, but not to a dictionary of dictionaries: the load keeps
  what they hold and leaves the cache enabled.
\<close>

definition disk_number :: disk where
  "disk_number = [''cache.json'' \<mapsto> Json (PDict [(''X'', PInt 5)])]"

definition cacher_number :: Cacher where
  "cacher_number = initialize True ''cache.json'' 24 disk_number"

definition disk_list :: disk where
  "disk_list = [''cache.json'' \<mapsto> Json (PList [])]"

definition cacher_list :: Cacher where
  "cacher_list = initialize True ''cache.json'' 24 disk_list"

text \<open>An expiration time of 24000000000 hours, which no \<open>timedelta\<close> holds.\<close>

definition cacher_forever :: Cacher where
  "cacher_forever = initialize True ''cache.json'' 24000000000 Map.empty"

text \<open>A cache whose file exists but does not decode: the load disables it.\<close>

definition disk_broken :: disk where
  "disk_broken = [''cache.json'' \<mapsto> Unreadable]"

definition cacher_broken :: Cacher where
  "cacher_broken = initialize True ''cache.json'' 24 disk_broken"

section \<open>Example data for the Application\<close>


text \<open>
  \<open>json.loads\<close> on the bodies the hosts of the examples send; it raises on every
  other text the examples meet.
\<close>

definition json_table :: "string \<Rightarrow> pyval option" where
  \<open>json_table s =
     (if s = ''{"count": 0, "seriess": []}''
      then Some (PDict [(''count'', PInt 0), (''seriess'', PList [])])
      else if s = ''{"categories": [{"id": 1, "name": "A"}, {"id": 2, "name": "B"}]}''
      then Some (PDict [(''categories'',
                  PList [PDict [(''id'', PInt 1), (''name'', PStr ''A'')],
                         PDict [(''id'', PInt 2), (''name'', PStr ''B'')]])])
      else if s = ''{"count": 5, "seriess": [{"id": "S1", "title": "First"}, {"id": "S2", "title": "Second"}]}''
      then Some (PDict [(''count'', PInt 5),
                  (''seriess'',
                   PList [PDict [(''id'', PStr ''S1''), (''title'', PStr ''First'')],
                          PDict [(''id'', PStr ''S2''), (''title'', PStr ''Second'')]])])
      else if s = ''{"categories": [{"id": 11, "name": "A1"}]}''
      then Some (PDict [(''categories'', PList [PDict [(''id'', PInt 11), (''name'', PStr ''A1'')]])])
      else if s = ''{"categories": [{"id": 21, "name": "B1"}]}''
      then Some (PDict [(''categories'', PList [PDict [(''id'', PInt 21), (''name'', PStr ''B1'')]])])
      else if s = ''{"count": 5, "seriess": []}''
      then Some (PDict [(''count'', PInt 5), (''seriess'', PList [])])
      else if s = ''{"count": 0, "seriess": [{"id": "S1", "title": "First"}]}''
      then Some (PDict [(''count'', PInt 0),
                  (''seriess'', PList [PDict [(''id'', PStr ''S1''), (''title'', PStr ''First'')]])])
      else if s = ''{}'' then Some (PDict [])
      else if s = ''[]'' then Some (PList [])
      else None)\<close>

text \<open>
  The settings of the examples, with an API host that cannot be reached. The clock
  stands at 2021-01-01 09:30 UTC.
\<close>

definition env_down :: env where
  "env_down =
     \<lparr>BASE_URL = ''https://api.stlouisfed.org/fred'', ROOT_CATEGORY = PInt 0,
      LIMIT_DEPTH = 1, LIMIT_SERIES = 100, THROTTLE = 1,
      api_key = ''abcdefghijklmnopqrstuvwxyz123456'',
      lib_fromisoformat = fromisoformat_table, lib_isoformat = isoformat_table,
      json_loads = json_table, lib_repr = (\<lambda>v. ''unused''), lib_lower = lower_table,
      strptime_strftime = (\<lambda>input_format output_format s. None),
      utcnow = (\<lambda>n. 1609493400000000),
      urlopen = (\<lambda>n url. UrlopenError)\<rparr>"

text \<open>The Application after \<open>initialize\<close>, with an enabled and empty cache.\<close>

definition app0 :: app where
  "app0 =
     \<lparr>APICacher = cacher0, app_stats = AppStats_init,
      fred_data_tree = initialize_tree env_down, progress = [], interactions = 0\<rparr>"

definition url0 :: string where
  "url0 = ''https://api.stlouisfed.org/fred/category/children?category_id=0&file_type=json''"

text \<open>
  A host with five categories: the root 0 has the children 1 and 2, category 1 has
  the child 11 and category 2 the child 21. Category 1 reports 5 series and delivers
  two of them.
\<close>

definition host1 :: "nat \<Rightarrow> string \<Rightarrow> http_result" where
  \<open>host1 n url =
     (if url = ''https://api.stlouisfed.org/fred/category/series?category_id=0&limit=2&file_type=json&api_key=abcdefghijklmnopqrstuvwxyz123456''
      then Response ''{"count": 0, "seriess": []}''
      else if url = ''https://api.stlouisfed.org/fred/category/children?category_id=0&file_type=json&api_key=abcdefghijklmnopqrstuvwxyz123456''
      then Response ''{"categories": [{"id": 1, "name": "A"}, {"id": 2, "name": "B"}]}''
      else if url = ''https://api.stlouisfed.org/fred/category/series?category_id=1&limit=2&file_type=json&api_key=abcdefghijklmnopqrstuvwxyz123456''
      then Response ''{"count": 5, "seriess": [{"id": "S1", "title": "First"}, {"id": "S2", "title": "Second"}]}''
      else if url = ''https://api.stlouisfed.org/fred/category/children?category_id=1&file_type=json&api_key=abcdefghijklmnopqrstuvwxyz123456''
      then Response ''{"categories": [{"id": 11, "name": "A1"}]}''
      else if url = ''https://api.stlouisfed.org/fred/category/series?category_id=2&limit=2&file_type=json&api_key=abcdefghijklmnopqrstuvwxyz123456''
      then Response ''{"count": 0, "seriess": []}''
      else if url = ''https://api.stlouisfed.org/fred/category/children?category_id=2&file_type=json&api_key=abcdefghijklmnopqrstuvwxyz123456''
      then Response ''{"categories": [{"id": 21, "name": "B1"}]}''
      else UrlopenError)\<close>

definition env1 :: env where
  "env1 = env_down\<lparr>LIMIT_SERIES := 2, urlopen := host1\<rparr>"

text \<open>The dictionary \<open>main\<close> starts the traversal with.\<close>

definition root_dict :: "env \<Rightarrow> pyval" where
  "root_dict E = PDict [(''name'', PStr ''<root>''), (''id'', ROOT_CATEGORY E)]"

definition app1 :: app where
  "app1 =
     \<lparr>APICacher = cacher0, app_stats = AppStats_init,
      fred_data_tree = initialize_tree env1, progress = [], interactions = 0\<rparr>"

text \<open>
  A cache that holds, for \<open>url0\<close>, an entry written at the clock's instant whose
  data is \<open>None\<close>, and a host that answers every request with an empty object.
\<close>

definition app_none :: app where
  "app_none =
     app0\<lparr>APICacher :=
            cacher0\<lparr>cache_dict :=
              PDict [(url0, new_entry isoformat_table 1609493400000000 PNone)]\<rparr>\<rparr>"



text \<open>
  A host that knows the series of the root category and fails on every other request,
  a host that answers every request with a page that is not JSON, and a throttle that
  \<open>sleep\<close> refuses.
\<close>

definition host2 :: "nat \<Rightarrow> string \<Rightarrow> http_result" where
  \<open>host2 n url =
     (if url = ''https://api.stlouisfed.org/fred/category/series?category_id=0&limit=2&file_type=json&api_key=abcdefghijklmnopqrstuvwxyz123456''
      then Response ''{"count": 5, "seriess": [{"id": "S1", "title": "First"}, {"id": "S2", "title": "Second"}]}''
      else UrlopenError)\<close>

definition env2 :: env where
  "env2 = env1\<lparr>urlopen := host2\<rparr>"

definition env_html :: env where
  \<open>env_html = env_down\<lparr>urlopen := (\<lambda>n url. Response ''<html>503</html>'')\<rparr>\<close>

definition env_throttle :: env where
  "env_throttle = env_down\<lparr>THROTTLE := - 1\<rparr>"




text \<open>
  A host that answers every request with a JSON text that is not an object, and a
  host that fails on every request about category 1 and answers the others as
  \<open>host1\<close> does.
\<close>

definition env_list :: env where
  \<open>env_list = env1\<lparr>urlopen := (\<lambda>n url. Response ''[]'')\<rparr>\<close>

definition host4 :: "nat \<Rightarrow> string \<Rightarrow> http_result" where
  \<open>host4 n url =
     (if url = ''https://api.stlouisfed.org/fred/category/series?category_id=1&limit=2&file_type=json&api_key=abcdefghijklmnopqrstuvwxyz123456''
         \<or> url = ''https://api.stlouisfed.org/fred/category/children?category_id=1&file_type=json&api_key=abcdefghijklmnopqrstuvwxyz123456''
      then UrlopenError
      else host1 n url)\<close>

definition env4 :: env where
  "env4 = env1\<lparr>urlopen := host4\<rparr>"

text \<open>The states of the traversal of the root category under \<open>env2\<close>.\<close>

definition app2_entered :: app where
  \<open>app2_entered = app1\<lparr>progress := progress app1 @ [(0, PInt 0, PStr ''<root>'')]\<rparr>\<close>

definition app2_fetched :: app where
  "app2_fetched = snd (get_children_series env2 (PInt 0) app2_entered)"

definition series2 :: pyval where
  "series2 =
     PDict [(''count'', PInt 5),
            (''seriess'',
             PList [PDict [(''id'', PStr ''S1''), (''title'', PStr ''First'')],
                    PDict [(''id'', PStr ''S2''), (''title'', PStr ''Second'')]])]"

definition app2_series :: app where
  "app2_series = snd (process_children_series env2 series2 (PInt 0) app2_fetched)"

definition app2_categories :: app where
  "app2_categories = snd (get_child_categories env2 (PInt 0) app2_series)"

section \<open>Reading the tree\<close>

text \<open>
  The nodes a call added to the tree, and among the nodes under a category the two
  kinds \<open>process_children_series\<close> makes there: a series node carries an identifier
  (category and series), the node that reports the series not shown gets a generated
  one.
\<close>

definition added_nodes :: "app \<Rightarrow> app \<Rightarrow> tree" where
  "added_nodes a a' = drop (length (fred_data_tree a)) (fred_data_tree a')"

definition series_nodes :: "string \<Rightarrow> tree \<Rightarrow> tree" where
  "series_nodes c t = filter (\<lambda>n. parent n = Some c \<and> node_id n \<noteq> None) t"

definition additional_nodes :: "string \<Rightarrow> tree \<Rightarrow> tree" where
  "additional_nodes c t = filter (\<lambda>n. parent n = Some c \<and> node_id n = None) t"

text \<open>Series responses: no series reported but one delivered, and the other way round.\<close>

definition series_zero :: pyval where
  "series_zero =
     PDict [(''count'', PInt 0),
            (''seriess'', PList [PDict [(''id'', PStr ''S1''), (''title'', PStr ''First'')]])]"

definition series_none :: pyval where
  "series_none = PDict [(''count'', PInt 5), (''seriess'', PList [])]"

definition env_negative :: env where
  "env_negative = env1\<lparr>LIMIT_SERIES := - 1\<rparr>"

text \<open>The state after the series of the root category were processed, in two settings.\<close>

definition app1_series :: app where
  "app1_series = snd (process_children_series env1 series2 (PInt 0) app1)"

definition app1_negative :: app where
  "app1_negative = snd (process_children_series env_negative series2 (PInt 0) app1)"

section \<open>Reading the traversal\<close>

text \<open>
  The total a series response reports, as a number: its \<open>count\<close>, and zero when
  there is none.
\<close>

definition reported_total :: "pyval \<Rightarrow> int" where
  "reported_total children_series =
     (case py_get children_series ''count'' of
        Inr (PInt n) \<Rightarrow> n
      | Inr (PBool b) \<Rightarrow> (if b then 1 else 0)
      | _ \<Rightarrow> 0)"

text \<open>
  The series count a category starts its rollup with: the reported total when the
  response also delivers items, zero when it delivers none.
\<close>

definition own_rollup :: "pyval \<Rightarrow> int" where
  "own_rollup children_series =
     (case py_get children_series ''seriess'' of
        Inr items \<Rightarrow> (if truthy items then reported_total children_series else 0)
      | Inl e \<Rightarrow> 0)"

text \<open>
  The values the recursive calls in the loop of \<open>process_category\<close> return, one for
  each child category in the order of the loop, each call made in the state the loop
  reaches it in.
\<close>

fun child_rollups ::
  "env \<Rightarrow> int \<Rightarrow> pyval \<Rightarrow> pyval list \<Rightarrow> app \<Rightarrow> (error + (int \<times> pynum) list) \<times> app" where
  "child_rollups E depth categoryID [] a = (Inr [], a)"
| "child_rollups E depth categoryID (subdict # rest) a =
     (case create_category_node E categoryID subdict a of
        (Inl e, a1) \<Rightarrow> (Inl e, a1)
      | (Inr u, a1) \<Rightarrow>
          (case process_category E (depth + 1) subdict a1 of
             (Inl e, a2) \<Rightarrow> (Inl e, a2)
           | (Inr r, a2) \<Rightarrow>
               (case child_rollups E depth categoryID rest a2 of
                  (Inl e, a3) \<Rightarrow> (Inl e, a3)
                | (Inr rs, a3) \<Rightarrow> (Inr (r # rs), a3))))"

text \<open>
  The same for the object \<open>categories\<close> of a response: no call when it is false in a
  condition, otherwise one for each object the loop takes from it.
\<close>

definition subcategory_rollups ::
  "env \<Rightarrow> int \<Rightarrow> pyval \<Rightarrow> pyval \<Rightarrow> app \<Rightarrow> error + (int \<times> pynum) list" where
  "subcategory_rollups E depth categoryID categories a =
     (if truthy categories
      then (case count_categories categories a of
              (Inl e, a1) \<Rightarrow> Inl e
            | (Inr (num_categories, subdicts), a1) \<Rightarrow>
                fst (child_rollups E depth categoryID subdicts a1))
      else Inr [])"

text \<open>A host whose root category reports five series, delivers none and has no children.\<close>

definition host3 :: "nat \<Rightarrow> string \<Rightarrow> http_result" where
  \<open>host3 n url =
     (if url = ''https://api.stlouisfed.org/fred/category/series?category_id=0&limit=2&file_type=json&api_key=abcdefghijklmnopqrstuvwxyz123456''
      then Response ''{"count": 5, "seriess": []}''
      else UrlopenError)\<close>

definition env3 :: env where
  "env3 = env1\<lparr>urlopen := host3\<rparr>"

text \<open>The traversal of the example host from its root, and the states on its way.\<close>

definition app1_done :: app where
  "app1_done = snd (process_category env1 0 (root_dict env1) app1)"

definition app1_fetched :: app where
  "app1_fetched = snd (fetch_children env1 0 (root_dict env1) app1)"

definition categories1 :: pyval where
  "categories1 =
     PList [PDict [(''id'', PInt 1), (''name'', PStr ''A'')],
            PDict [(''id'', PInt 2), (''name'', PStr ''B'')]]"

text \<open>
  The dictionaries of category 1 and of its child 11 as the host lists them, the state
  in which the traversal enters category 1, and the states it leaves.
\<close>

definition cat1 :: pyval where
  "cat1 = PDict [(''id'', PInt 1), (''name'', PStr ''A'')]"

definition cat11 :: pyval where
  "cat11 = PDict [(''id'', PInt 11), (''name'', PStr ''A1'')]"

definition app1_child :: app where
  "app1_child = snd (create_category_node env1 (PInt 0) cat1 app1_fetched)"

definition app1_child_done :: app where
  "app1_child_done = snd (process_category env1 1 cat1 app1_child)"

definition app1_below :: app where
  "app1_below = snd (child_rollups env1 1 (PInt 0) [cat11] app1)"

text \<open>
  The traversal under \<open>env4\<close>, where every request about category 1 fails: the
  state in which the loop over the children of the root begins, and the states in
  which category 1 gets its node, is entered, and has made its two requests.
\<close>

definition cat2 :: pyval where
  "cat2 = PDict [(''id'', PInt 2), (''name'', PStr ''B'')]"

definition app4_fetched :: app where
  "app4_fetched =
     snd (count_categories categories1 (snd (fetch_children env4 0 (root_dict env4) app1)))"

definition app4_child :: app where
  "app4_child = snd (create_category_node env4 (PInt 0) cat1 app4_fetched)"

definition app4_entered :: app where
  "app4_entered = app4_child\<lparr>progress := progress app4_child @ [(1, PInt 1, PStr ''A'')]\<rparr>"

definition app4_series :: app where
  "app4_series = snd (get_children_series env4 (PInt 1) app4_entered)"

definition app4_categories :: app where
  "app4_categories = snd (get_child_categories env4 (PInt 1) app4_series)"

section \<open>Properties of the Cacher\<close>

lemma cacher0_simps:
  "enabled cacher0" "cache_expiration_hours cacher0 = 24" "cache_dict cacher0 = PDict []"
  "stats cacher0 = CacheStats_init" "cache_file_name cacher0 = ''cache.json''"
  by (simp_all add: cacher0_def initialize_def Cacher_init_def load_cache_file_def)

lemma cacher_off_simps:
  "\<not> enabled cacher_off" "stats cacher_off = CacheStats_init"
  by (simp_all add: cacher_off_def initialize_def Cacher_init_def load_cache_file_def)

lemma cacher_forever_simps:
  "enabled cacher_forever" "cache_expiration_hours cacher_forever = 24000000000"
  "cache_dict cacher_forever = PDict []" "stats cacher_forever = CacheStats_init"
  by (simp_all add: cacher_forever_def initialize_def Cacher_init_def load_cache_file_def)

lemma cacher_number_simps:
  "enabled cacher_number" "cache_expiration_hours cacher_number = 24"
  "cache_dict cacher_number = PDict [(''X'', PInt 5)]" "stats cacher_number = CacheStats_init"
  by (simp_all add: cacher_number_def disk_number_def initialize_def Cacher_init_def
      load_cache_file_def)

lemma cacher_list_simps:
  "enabled cacher_list" "cache_dict cacher_list = PList []" "stats cacher_list = CacheStats_init"
  by (simp_all add: cacher_list_def disk_list_def initialize_def Cacher_init_def
      load_cache_file_def)

lemma cacher_entry_simps:
  "enabled cacher_0930" "cache_expiration_hours cacher_0930 = 24"
  "cache_dict cacher_0930 = PDict [(''X'', entry_0930)]" "stats cacher_0930 = CacheStats_init"
  "enabled cacher_naive" "cache_expiration_hours cacher_naive = 24"
  "cache_dict cacher_naive = PDict [(''X'', entry_naive)]" "stats cacher_naive = CacheStats_init"
  "enabled cacher_undated" "cache_expiration_hours cacher_undated = 24"
  "cache_dict cacher_undated = PDict [(''X'', PDict [(''data'', PStr ''payload'')])]"
  "stats cacher_undated = CacheStats_init"
  by (simp_all add: cacher_0930_def cacher_naive_def cacher_undated_def cacher0_simps)

lemma timedelta_24: "timedelta_hours 24 = Inr 86400000000"
  by (simp add: timedelta_hours_def)

lemma timedelta_forever: "timedelta_hours 24000000000 = Inl OverflowError"
  by (simp add: timedelta_hours_def)

lemma py_get_dict:
  "py_get (PDict kvs) k = Inr (case map_of kvs k of None \<Rightarrow> PNone | Some v \<Rightarrow> v)"
  by (simp add: py_get_def)


lemma map_of_dict_set: "map_of (dict_set kvs k v) = (map_of kvs)(k \<mapsto> v)"
  by (induction kvs) auto

lemma py_get_dict_set:
  "py_get (PDict (dict_set kvs k v)) k' = (if k' = k then Inr v else py_get (PDict kvs) k')"
  by (simp add: py_get_def map_of_dict_set)

lemma write_cached_data_dict:
  "enabled c \<Longrightarrow> cache_dict c = PDict kvs \<Longrightarrow>
   write_cached_data isoformat t c k v =
     Inr (c\<lparr>cache_dict := PDict (dict_set kvs k (new_entry isoformat t v))\<rparr>)"
  by (simp add: write_cached_data_def py_setitem_def)


lemma read_cached_data_dict:
  "enabled c \<Longrightarrow> py_get (cache_dict c) k = Inr (PDict fs) \<Longrightarrow>
   read_cached_data fromisoformat now c k =
     (case (entry_age fromisoformat now (PDict fs), timedelta_hours (cache_expiration_hours c)) of
        (Some age, Inr ttl) \<Rightarrow>
          if age < ttl then (py_get (PDict fs) ''data'', c\<lparr>stats := hit (stats c)\<rparr>)
          else (Inr PNone, c\<lparr>stats := expired (stats c)\<rparr>)
      | _ \<Rightarrow> (Inr PNone, c\<lparr>stats := invalid (stats c)\<rparr>))"
  by (auto simp add: read_cached_data_def entry_age_def timestamp_is_fresh_def py_get_dict
      split: option.splits pyval.splits sum.splits datetime.splits bool.splits)

lemma read_cached_data_nothing:
  "enabled c \<Longrightarrow> py_get (cache_dict c) k = Inr PNone \<Longrightarrow>
   read_cached_data fromisoformat now c k = (Inr PNone, c\<lparr>stats := miss (stats c)\<rparr>)"
  by (simp add: read_cached_data_def)

lemma read_cached_data_disabled:
  "\<not> enabled c \<Longrightarrow> read_cached_data fromisoformat now c k = (Inr PNone, c)"
  by (simp add: read_cached_data_def)

lemma read_cached_data_raises:
  "fst (read_cached_data fromisoformat now c k) = Inl e \<Longrightarrow>
   read_cached_data fromisoformat now c k = (Inl AttributeError, c)
   \<and> enabled c \<and> \<not> shaped_at (cache_dict c) k"
proof (cases "enabled c")
  case False
  assume "fst (read_cached_data fromisoformat now c k) = Inl e"
  then show ?thesis using False by (simp add: read_cached_data_disabled)
next
  case True
  assume r: "fst (read_cached_data fromisoformat now c k) = Inl e"
  show ?thesis
  proof (cases "py_get (cache_dict c) k")
    case (Inl x)
    then have "x = AttributeError" by (cases "cache_dict c") (simp_all add: py_get_def)
    then show ?thesis using True Inl by (simp add: read_cached_data_def shaped_at_def)
  next
    case (Inr entry)
    show ?thesis
    proof (cases entry)
      case PNone
      then show ?thesis using r True Inr by (simp add: read_cached_data_nothing)
    next
      case (PDict fs)
      then show ?thesis
        using r True Inr
        by (simp add: read_cached_data_dict py_get_dict split: option.splits sum.splits if_splits)
    qed (use True Inr in \<open>simp_all add: read_cached_data_def py_get_def shaped_at_def\<close>)
  qed
qed

lemma read_cached_data_shaped:
  "shaped_at (cache_dict c) k \<Longrightarrow> \<exists>d. fst (read_cached_data fromisoformat now c k) = Inr d"
  using read_cached_data_raises [of fromisoformat now c k]
  by (cases "fst (read_cached_data fromisoformat now c k)") auto




lemma read_cached_data_value:
  "fst (read_cached_data fromisoformat now c k) = Inr d \<Longrightarrow> d \<noteq> PNone \<Longrightarrow>
   \<exists>entry age ttl. py_get (cache_dict c) k = Inr entry
      \<and> entry_age fromisoformat now entry = Some age
      \<and> timedelta_hours (cache_expiration_hours c) = Inr ttl \<and> age < ttl
      \<and> py_get entry ''data'' = Inr d"
proof -
  assume r: "fst (read_cached_data fromisoformat now c k) = Inr d" and d: "d \<noteq> PNone"
  have en: "enabled c"
    using r d by (cases "enabled c") (simp_all add: read_cached_data_disabled)
  show ?thesis
  proof (cases "py_get (cache_dict c) k")
    case (Inl x)
    then show ?thesis using r en by (simp add: read_cached_data_def)
  next
    case (Inr entry)
    show ?thesis
    proof (cases entry)
      case PNone
      then show ?thesis using r d en Inr by (simp add: read_cached_data_nothing)
    next
      case (PDict fs)
      then show ?thesis
        using r d en Inr
        by (auto simp add: read_cached_data_dict split: option.splits sum.splits if_splits)
    qed (use r en Inr in \<open>simp_all add: read_cached_data_def py_get_def\<close>)
  qed
qed

text \<open>
  C3, as the claim states it, fails on the code. With an expiration time of
  24000000000 hours the constructor of \<open>timedelta\<close> raises inside the \<open>try\<close>
  block of \<open>read_cached_data\<close>; the exception is swallowed and the read, made at
  the very instant of the write, returns \<open>None\<close> and not the value written. And a
  cache file that decodes to a store whose entry for the key is the number 5 leaves the
  cache enabled: the read of that key returns neither a value nor \<open>None\<close>, it raises
  \<open>AttributeError\<close>. Where the file decodes to a list, the write raises
  \<open>TypeError\<close> and the read \<open>AttributeError\<close>.
\<close>

theorem read_after_write_counterexample:
  "enabled cacher_forever
   \<and> write_cached_data isoformat_table 1609493400000000 cacher_forever ''X'' (PStr ''payload'')
       = Inr (cacher_forever\<lparr>cache_dict :=
                PDict [(''X'', new_entry isoformat_table 1609493400000000 (PStr ''payload''))]\<rparr>)
   \<and> entry_age fromisoformat_table 1609493400000000
        (new_entry isoformat_table 1609493400000000 (PStr ''payload'')) = Some 0
   \<and> 0 < cache_expiration_hours cacher_forever * 3600000000
   \<and> fst (read_cached_data fromisoformat_table 1609493400000000
             (cacher_forever\<lparr>cache_dict :=
                PDict [(''X'', new_entry isoformat_table 1609493400000000 (PStr ''payload''))]\<rparr>)
             ''X'') = Inr PNone
   \<and> disk_number ''cache.json'' = Some (Json (PDict [(''X'', PInt 5)]))
   \<and> enabled cacher_number
   \<and> cache_dict cacher_number = PDict [(''X'', PInt 5)]
   \<and> read_cached_data fromisoformat_table 1609493400000000 cacher_number ''X''
       = (Inl AttributeError, cacher_number)
   \<and> disk_list ''cache.json'' = Some (Json (PList []))
   \<and> enabled cacher_list
   \<and> cache_dict cacher_list = PList []
   \<and> write_cached_data isoformat_table 1609493400000000 cacher_list ''X'' (PStr ''payload'')
       = Inl TypeError
   \<and> read_cached_data fromisoformat_table 1609493400000000 cacher_list ''X''
       = (Inl AttributeError, cacher_list)"
  by (simp add: cacher_forever_simps cacher_number_simps cacher_list_simps write_cached_data_def
      py_setitem_def new_entry_def entry_age_def py_get_def fromisoformat_table_def
      isoformat_table_def read_cached_data_def timestamp_is_fresh_def timedelta_forever
      disk_number_def disk_list_def)

text \<open>
  C3, amended. On an enabled cache whose store is a dictionary,
  \<open>write_cached_data k v\<close> at the instant \<open>t0\<close> returns, and a
  \<open>read_cached_data k\<close> at an instant \<open>t1\<close> at which the entry's age \<open>t1 - t0\<close> is
  strictly less than the configured expiration time returns exactly \<open>v\<close>, provided
  the expiration time is one a \<open>timedelta\<close> holds. The library is any parser and
  printer of timestamps that round-trip at \<open>t0\<close> (the printed timestamp is not the
  empty string and parses back to the same aware instant). A read returns something
  other than \<open>None\<close> only if an entry for the key exists whose age is defined and
  strictly below the expiration time, and then it returns that entry's data. In every
  other case it returns \<open>None\<close>, when the store is a dictionary and holds for the
  key nothing or a dictionary.
\<close>

theorem read_after_write_within_ttl:
  "(enabled c \<and> cache_dict c = PDict kvs
      \<and> fromisoformat (isoformat t0) = Some (Aware t0) \<and> isoformat t0 \<noteq> []
      \<and> timedelta_hours (cache_expiration_hours c) = Inr ttl \<and> t1 - t0 < ttl
     \<longrightarrow> (\<exists>c'. write_cached_data isoformat t0 c k v = Inr c'
            \<and> fst (read_cached_data fromisoformat t1 c' k) = Inr v))
   \<and> (fst (read_cached_data fromisoformat now c k) = Inr d \<and> d \<noteq> PNone
     \<longrightarrow> (\<exists>entry age ttl'. py_get (cache_dict c) k = Inr entry
            \<and> entry_age fromisoformat now entry = Some age
            \<and> timedelta_hours (cache_expiration_hours c) = Inr ttl' \<and> age < ttl'
            \<and> py_get entry ''data'' = Inr d))
   \<and> (shaped_at (cache_dict c) k
       \<and> \<not> (\<exists>entry age ttl'. py_get (cache_dict c) k = Inr entry
            \<and> entry_age fromisoformat now entry = Some age
            \<and> timedelta_hours (cache_expiration_hours c) = Inr ttl' \<and> age < ttl')
     \<longrightarrow> fst (read_cached_data fromisoformat now c k) = Inr PNone)"
proof (intro conjI impI)
  assume h: "enabled c \<and> cache_dict c = PDict kvs
      \<and> fromisoformat (isoformat t0) = Some (Aware t0) \<and> isoformat t0 \<noteq> []
      \<and> timedelta_hours (cache_expiration_hours c) = Inr ttl \<and> t1 - t0 < ttl"
  let ?c' = "c\<lparr>cache_dict := PDict (dict_set kvs k (new_entry isoformat t0 v))\<rparr>"
  have w: "write_cached_data isoformat t0 c k v = Inr ?c'"
    using h by (simp add: write_cached_data_dict)
  have g: "py_get (cache_dict ?c') k
             = Inr (PDict [(''timestamp'', PStr (isoformat t0)), (''data'', v)])"
    by (simp add: py_get_dict_set new_entry_def)
  have "fst (read_cached_data fromisoformat t1 ?c' k) = Inr v"
    using h by (simp add: read_cached_data_dict [OF _ g] entry_age_def py_get_dict)
  then show "\<exists>c'. write_cached_data isoformat t0 c k v = Inr c'
            \<and> fst (read_cached_data fromisoformat t1 c' k) = Inr v"
    using w by blast
next
  assume "fst (read_cached_data fromisoformat now c k) = Inr d \<and> d \<noteq> PNone"
  then show "\<exists>entry age ttl'. py_get (cache_dict c) k = Inr entry
            \<and> entry_age fromisoformat now entry = Some age
            \<and> timedelta_hours (cache_expiration_hours c) = Inr ttl' \<and> age < ttl'
            \<and> py_get entry ''data'' = Inr d"
    using read_cached_data_value [of fromisoformat now c k d] by blast
next
  assume h: "shaped_at (cache_dict c) k
       \<and> \<not> (\<exists>entry age ttl'. py_get (cache_dict c) k = Inr entry
            \<and> entry_age fromisoformat now entry = Some age
            \<and> timedelta_hours (cache_expiration_hours c) = Inr ttl' \<and> age < ttl')"
  then obtain d where d: "fst (read_cached_data fromisoformat now c k) = Inr d"
    using read_cached_data_shaped by blast
  have "d = PNone"
  proof (rule ccontr)
    assume "d \<noteq> PNone"
    from read_cached_data_value [OF d this] show False using h by blast
  qed
  then show "fst (read_cached_data fromisoformat now c k) = Inr PNone"
    using d by simp
qed

text \<open>
  The scenario of the specification: expiration 24 hours, key \<open>X\<close> written at \<open>T0\<close>,
  read at \<open>T0\<close> + 23 h 59 min returns the value written, which is an instance of the
  second part too; the entry of 09:30 read 25 hours later and a key never written are
  instances of the third.
\<close>

theorem read_after_write_within_ttl_witness:
  "enabled cacher0 \<and> cache_dict cacher0 = PDict []
   \<and> fromisoformat_table (isoformat_table 1609493400000000) = Some (Aware 1609493400000000)
   \<and> isoformat_table 1609493400000000 \<noteq> []
   \<and> timedelta_hours (cache_expiration_hours cacher0) = Inr 86400000000
   \<and> (1609493400000000 + 86340000000) - 1609493400000000 < (86400000000 :: int)
   \<and> write_cached_data isoformat_table 1609493400000000 cacher0 ''X'' (PStr ''payload'')
       = Inr cacher_0930
   \<and> fst (read_cached_data fromisoformat_table (1609493400000000 + 86340000000) cacher_0930 ''X'')
       = Inr (PStr ''payload'')
   \<and> PStr ''payload'' \<noteq> PNone
   \<and> (\<exists>entry age ttl'. py_get (cache_dict cacher_0930) ''X'' = Inr entry
         \<and> entry_age fromisoformat_table (1609493400000000 + 86340000000) entry = Some age
         \<and> timedelta_hours (cache_expiration_hours cacher_0930) = Inr ttl' \<and> age < ttl'
         \<and> py_get entry ''data'' = Inr (PStr ''payload''))
   \<and> shaped_at (cache_dict cacher_0930) ''X''
   \<and> \<not> (\<exists>entry age ttl'. py_get (cache_dict cacher_0930) ''X'' = Inr entry
         \<and> entry_age fromisoformat_table (1609493400000000 + 90000000000) entry = Some age
         \<and> timedelta_hours (cache_expiration_hours cacher_0930) = Inr ttl' \<and> age < ttl')
   \<and> fst (read_cached_data fromisoformat_table (1609493400000000 + 90000000000) cacher_0930 ''X'')
       = Inr PNone
   \<and> shaped_at (cache_dict cacher0) ''never written''
   \<and> fst (read_cached_data fromisoformat_table 0 cacher0 ''never written'') = Inr PNone"
proof -
  have h: "enabled cacher0 \<and> cache_dict cacher0 = PDict []
     \<and> fromisoformat_table (isoformat_table 1609493400000000) = Some (Aware 1609493400000000)
     \<and> isoformat_table 1609493400000000 \<noteq> []
     \<and> timedelta_hours (cache_expiration_hours cacher0) = Inr 86400000000
     \<and> (1609493400000000 + 86340000000) - 1609493400000000 < (86400000000 :: int)"
    by (simp add: cacher0_simps fromisoformat_table_def isoformat_table_def timedelta_24)
  have w: "write_cached_data isoformat_table 1609493400000000 cacher0 ''X'' (PStr ''payload'')
       = Inr cacher_0930"
    by (simp add: write_cached_data_dict [OF cacher0_simps(1) cacher0_simps(3)] cacher_0930_def
        entry_0930_def new_entry_def isoformat_table_def)
  have r: "fst (read_cached_data fromisoformat_table (1609493400000000 + 86340000000)
                  cacher_0930 ''X'') = Inr (PStr ''payload'')"
    using h w read_after_write_within_ttl
      [where c = cacher0 and kvs = "[]" and fromisoformat = fromisoformat_table
         and isoformat = isoformat_table and ?t0.0 = 1609493400000000 and ttl = 86400000000
         and ?t1.0 = "1609493400000000 + 86340000000" and k = "''X''"
         and v = "PStr ''payload''"]
    by auto
  have e: "\<exists>entry age ttl'. py_get (cache_dict cacher_0930) ''X'' = Inr entry
         \<and> entry_age fromisoformat_table (1609493400000000 + 86340000000) entry = Some age
         \<and> timedelta_hours (cache_expiration_hours cacher_0930) = Inr ttl' \<and> age < ttl'
         \<and> py_get entry ''data'' = Inr (PStr ''payload'')"
    using r read_after_write_within_ttl
      [where c = cacher_0930 and fromisoformat = fromisoformat_table
         and now = "1609493400000000 + 86340000000" and k = "''X''" and d = "PStr ''payload''"]
    by blast
  have s: "shaped_at (cache_dict cacher_0930) ''X''" "shaped_at (cache_dict cacher0) ''never written''"
    by (simp_all add: shaped_at_def cacher_entry_simps cacher0_simps py_get_def entry_0930_def)
  have n: "\<not> (\<exists>entry age ttl'. py_get (cache_dict cacher_0930) ''X'' = Inr entry
         \<and> entry_age fromisoformat_table (1609493400000000 + 90000000000) entry = Some age
         \<and> timedelta_hours (cache_expiration_hours cacher_0930) = Inr ttl' \<and> age < ttl')"
    by (simp add: cacher_entry_simps py_get_def entry_0930_def entry_age_def
        fromisoformat_table_def timedelta_24)
  have x: "fst (read_cached_data fromisoformat_table (1609493400000000 + 90000000000)
                  cacher_0930 ''X'') = Inr PNone"
    using s(1) n read_after_write_within_ttl
      [where c = cacher_0930 and fromisoformat = fromisoformat_table
         and now = "1609493400000000 + 90000000000" and k = "''X''"]
    by blast
  have n': "\<not> (\<exists>entry age ttl'. py_get (cache_dict cacher0) ''never written'' = Inr entry
         \<and> entry_age fromisoformat_table 0 entry = Some age
         \<and> timedelta_hours (cache_expiration_hours cacher0) = Inr ttl' \<and> age < ttl')"
    by (simp add: cacher0_simps py_get_def entry_age_def)
  have m: "fst (read_cached_data fromisoformat_table 0 cacher0 ''never written'') = Inr PNone"
    using s(2) n' read_after_write_within_ttl
      [where c = cacher0 and fromisoformat = fromisoformat_table and now = 0
         and k = "''never written''"]
    by blast
  show ?thesis using h w r e s n x m by simp
qed

lemma read_cached_data_monotone:
  "num_hits (stats c) \<le> num_hits (stats (snd (read_cached_data fromisoformat now c k)))
   \<and> num_misses (stats c) \<le> num_misses (stats (snd (read_cached_data fromisoformat now c k)))
   \<and> num_expired (stats c) \<le> num_expired (stats (snd (read_cached_data fromisoformat now c k)))
   \<and> num_invalid (stats c) \<le> num_invalid (stats (snd (read_cached_data fromisoformat now c k)))"
  by (auto simp add: read_cached_data_def hit_def miss_def expired_def invalid_def
      split: sum.splits bool.splits)

text \<open>
  C4, as the claim states it, fails on the code. A read on a disabled cache returns
  before any counter is touched, so not every call counts. A timestamp that is
  present and parses, but to a datetime without offset, is counted invalid: the
  subtraction from the aware clock reading raises inside the \<open>try\<close> block. And
  where the cache file gave the key an entry that is a number, or decoded to a list,
  the read raises \<open>AttributeError\<close> before any counter is touched.
\<close>

theorem read_counts_once_counterexample:
  "read_cached_data fromisoformat_table 0 cacher_off ''X'' = (Inr PNone, cacher_off)
   \<and> py_get (cache_dict cacher_naive) ''X'' = Inr entry_naive
   \<and> py_get entry_naive ''timestamp'' = Inr (PStr ''2021-01-01T09:30:00'')
   \<and> fromisoformat_table ''2021-01-01T09:30:00'' = Some (Naive 1609493400000000)
   \<and> stats (snd (read_cached_data fromisoformat_table 1609493400000001 cacher_naive ''X''))
       = \<lparr>num_hits = 0, num_misses = 0, num_expired = 0, num_invalid = 1\<rparr>
   \<and> stats cacher_naive = \<lparr>num_hits = 0, num_misses = 0, num_expired = 0, num_invalid = 0\<rparr>
   \<and> enabled cacher_number
   \<and> cache_dict cacher_number = PDict [(''X'', PInt 5)]
   \<and> read_cached_data fromisoformat_table 1609493400000001 cacher_number ''X''
       = (Inl AttributeError, cacher_number)
   \<and> enabled cacher_list
   \<and> cache_dict cacher_list = PList []
   \<and> read_cached_data fromisoformat_table 1609493400000001 cacher_list ''X''
       = (Inl AttributeError, cacher_list)"
  by (simp add: read_cached_data_def cacher_off_simps cacher_entry_simps cacher_number_simps
      cacher_list_simps entry_naive_def fromisoformat_table_def timestamp_is_fresh_def py_get_def
      invalid_def CacheStats_init_def)

text \<open>
  C4, amended. Every call of \<open>read_cached_data\<close> on an enabled cache whose store is
  a dictionary that holds for the key nothing or a dictionary increments exactly one
  of the four counters by one and leaves the other three: \<open>miss\<close> when the store
  holds nothing for the key (no entry, or \<open>null\<close>); \<open>hit\<close> when the entry has an
  age (its timestamp is a non-empty string that parses to an aware datetime), the
  expiration time is a timedelta and the age is strictly below it; \<open>expired\<close> when
  the age is at least the expiration time; \<open>invalid\<close> in every other case
  (timestamp missing, empty, not a string, unparsable, parsed without offset, or the
  expiration time out of the timedelta range). A call on a disabled cache changes
  nothing. No call ever decreases a counter, and \<open>write_cached_data\<close> leaves the
  counters alone.
\<close>

theorem read_enabled_counts_once:
  "(enabled c \<and> py_get (cache_dict c) k = Inr PNone
     \<longrightarrow> stats (snd (read_cached_data fromisoformat now c k))
           = \<lparr>num_hits = num_hits (stats c), num_misses = num_misses (stats c) + 1,
              num_expired = num_expired (stats c), num_invalid = num_invalid (stats c)\<rparr>)
   \<and> (enabled c \<and> py_get (cache_dict c) k = Inr (PDict fs)
     \<longrightarrow> stats (snd (read_cached_data fromisoformat now c k)) =
           (case (entry_age fromisoformat now (PDict fs),
                  timedelta_hours (cache_expiration_hours c)) of
              (Some age, Inr ttl) \<Rightarrow>
                if age < ttl
                then \<lparr>num_hits = num_hits (stats c) + 1, num_misses = num_misses (stats c),
                      num_expired = num_expired (stats c), num_invalid = num_invalid (stats c)\<rparr>
                else \<lparr>num_hits = num_hits (stats c), num_misses = num_misses (stats c),
                      num_expired = num_expired (stats c) + 1, num_invalid = num_invalid (stats c)\<rparr>
            | _ \<Rightarrow> \<lparr>num_hits = num_hits (stats c), num_misses = num_misses (stats c),
                    num_expired = num_expired (stats c),
                    num_invalid = num_invalid (stats c) + 1\<rparr>))
   \<and> (\<not> enabled c \<longrightarrow> snd (read_cached_data fromisoformat now c k) = c)
   \<and> num_hits (stats c) \<le> num_hits (stats (snd (read_cached_data fromisoformat now c k)))
   \<and> num_misses (stats c) \<le> num_misses (stats (snd (read_cached_data fromisoformat now c k)))
   \<and> num_expired (stats c) \<le> num_expired (stats (snd (read_cached_data fromisoformat now c k)))
   \<and> num_invalid (stats c) \<le> num_invalid (stats (snd (read_cached_data fromisoformat now c k)))
   \<and> (write_cached_data isoformat now c k v = Inr c' \<longrightarrow> stats c' = stats c)"
proof -
  have m: "stats (snd (read_cached_data fromisoformat now c k))
           = \<lparr>num_hits = num_hits (stats c), num_misses = num_misses (stats c) + 1,
              num_expired = num_expired (stats c), num_invalid = num_invalid (stats c)\<rparr>"
    if "enabled c \<and> py_get (cache_dict c) k = Inr PNone"
    using that by (simp add: read_cached_data_nothing miss_def)
  have d: "stats (snd (read_cached_data fromisoformat now c k)) =
           (case (entry_age fromisoformat now (PDict fs),
                  timedelta_hours (cache_expiration_hours c)) of
              (Some age, Inr ttl) \<Rightarrow>
                if age < ttl
                then \<lparr>num_hits = num_hits (stats c) + 1, num_misses = num_misses (stats c),
                      num_expired = num_expired (stats c), num_invalid = num_invalid (stats c)\<rparr>
                else \<lparr>num_hits = num_hits (stats c), num_misses = num_misses (stats c),
                      num_expired = num_expired (stats c) + 1, num_invalid = num_invalid (stats c)\<rparr>
            | _ \<Rightarrow> \<lparr>num_hits = num_hits (stats c), num_misses = num_misses (stats c),
                    num_expired = num_expired (stats c),
                    num_invalid = num_invalid (stats c) + 1\<rparr>)"
    if "enabled c \<and> py_get (cache_dict c) k = Inr (PDict fs)"
    using that
    by (simp add: read_cached_data_dict hit_def expired_def invalid_def
        split: option.splits sum.splits)
  have w: "stats c' = stats c" if "write_cached_data isoformat now c k v = Inr c'"
    using that by (auto simp add: write_cached_data_def split: if_splits sum.splits)
  show ?thesis
    using m d w read_cached_data_disabled [of c fromisoformat now k]
      read_cached_data_monotone [of c fromisoformat now k]
    by simp
qed

text \<open>
  One read of each kind: a key never written, the entry of 09:30 read one hour and 25
  hours after it was written, an entry whose timestamp has no offset, an entry
  without a timestamp, and a read on a disabled cache.
\<close>

theorem read_enabled_counts_once_witness:
  "enabled cacher0 \<and> py_get (cache_dict cacher0) ''X'' = Inr PNone
   \<and> stats (snd (read_cached_data fromisoformat_table 0 cacher0 ''X''))
       = \<lparr>num_hits = 0, num_misses = 1, num_expired = 0, num_invalid = 0\<rparr>
   \<and> enabled cacher_0930
   \<and> py_get (cache_dict cacher_0930) ''X''
       = Inr (PDict [(''timestamp'', PStr ''2021-01-01T09:30:00+00:00''),
                     (''data'', PStr ''payload'')])
   \<and> stats (snd (read_cached_data fromisoformat_table (1609493400000000 + 3600000000)
                    cacher_0930 ''X''))
       = \<lparr>num_hits = 1, num_misses = 0, num_expired = 0, num_invalid = 0\<rparr>
   \<and> stats (snd (read_cached_data fromisoformat_table (1609493400000000 + 90000000000)
                    cacher_0930 ''X''))
       = \<lparr>num_hits = 0, num_misses = 0, num_expired = 1, num_invalid = 0\<rparr>
   \<and> enabled cacher_naive
   \<and> py_get (cache_dict cacher_naive) ''X''
       = Inr (PDict [(''timestamp'', PStr ''2021-01-01T09:30:00''), (''data'', PStr ''payload'')])
   \<and> stats (snd (read_cached_data fromisoformat_table 1609493400000001 cacher_naive ''X''))
       = \<lparr>num_hits = 0, num_misses = 0, num_expired = 0, num_invalid = 1\<rparr>
   \<and> enabled cacher_undated
   \<and> py_get (cache_dict cacher_undated) ''X'' = Inr (PDict [(''data'', PStr ''payload'')])
   \<and> stats (snd (read_cached_data fromisoformat_table 1609493400000001 cacher_undated ''X''))
       = \<lparr>num_hits = 0, num_misses = 0, num_expired = 0, num_invalid = 1\<rparr>
   \<and> \<not> enabled cacher_off
   \<and> snd (read_cached_data fromisoformat_table 0 cacher_off ''X'') = cacher_off
   \<and> write_cached_data isoformat_table 1609493400000000 cacher0 ''X'' (PStr ''payload'')
       = Inr cacher_0930
   \<and> stats cacher_0930 = stats cacher0"
proof -
  have g: "py_get (cache_dict cacher0) ''X'' = Inr PNone"
    "py_get (cache_dict cacher_0930) ''X''
       = Inr (PDict [(''timestamp'', PStr ''2021-01-01T09:30:00+00:00''),
                     (''data'', PStr ''payload'')])"
    "py_get (cache_dict cacher_naive) ''X''
       = Inr (PDict [(''timestamp'', PStr ''2021-01-01T09:30:00''), (''data'', PStr ''payload'')])"
    "py_get (cache_dict cacher_undated) ''X'' = Inr (PDict [(''data'', PStr ''payload'')])"
    by (simp_all add: cacher0_simps cacher_entry_simps py_get_def entry_0930_def entry_naive_def)
  have a: "entry_age fromisoformat_table (1609493400000000 + 3600000000)
             (PDict [(''timestamp'', PStr ''2021-01-01T09:30:00+00:00''),
                     (''data'', PStr ''payload'')]) = Some 3600000000"
    "entry_age fromisoformat_table (1609493400000000 + 90000000000)
             (PDict [(''timestamp'', PStr ''2021-01-01T09:30:00+00:00''),
                     (''data'', PStr ''payload'')]) = Some 90000000000"
    "entry_age fromisoformat_table 1609493400000001
             (PDict [(''timestamp'', PStr ''2021-01-01T09:30:00''), (''data'', PStr ''payload'')])
       = None"
    "entry_age fromisoformat_table 1609493400000001 (PDict [(''data'', PStr ''payload'')]) = None"
    by (simp_all add: entry_age_def py_get_def fromisoformat_table_def)
  have w: "write_cached_data isoformat_table 1609493400000000 cacher0 ''X'' (PStr ''payload'')
       = Inr cacher_0930"
    by (simp add: write_cached_data_dict [OF cacher0_simps(1) cacher0_simps(3)] cacher_0930_def
        entry_0930_def new_entry_def isoformat_table_def)
  note t = read_enabled_counts_once [where fromisoformat = fromisoformat_table
      and isoformat = isoformat_table and k = "''X''" and v = "PStr ''payload''"]
  have c1: "stats (snd (read_cached_data fromisoformat_table 0 cacher0 ''X''))
       = \<lparr>num_hits = 0, num_misses = 1, num_expired = 0, num_invalid = 0\<rparr>"
    using t [where c = cacher0 and now = 0 and fs = "[]" and c' = cacher0] g(1)
    by (simp add: cacher0_simps CacheStats_init_def)
  have c2: "stats (snd (read_cached_data fromisoformat_table (1609493400000000 + 3600000000)
                    cacher_0930 ''X''))
       = \<lparr>num_hits = 1, num_misses = 0, num_expired = 0, num_invalid = 0\<rparr>"
    using t [where c = cacher_0930 and now = "1609493400000000 + 3600000000" and c' = cacher0
        and fs = "[(''timestamp'', PStr ''2021-01-01T09:30:00+00:00''), (''data'', PStr ''payload'')]"]
      g(2) a(1)
    by (simp add: cacher_entry_simps CacheStats_init_def timedelta_24)
  have c3: "stats (snd (read_cached_data fromisoformat_table (1609493400000000 + 90000000000)
                    cacher_0930 ''X''))
       = \<lparr>num_hits = 0, num_misses = 0, num_expired = 1, num_invalid = 0\<rparr>"
    using t [where c = cacher_0930 and now = "1609493400000000 + 90000000000" and c' = cacher0
        and fs = "[(''timestamp'', PStr ''2021-01-01T09:30:00+00:00''), (''data'', PStr ''payload'')]"]
      g(2) a(2)
    by (simp add: cacher_entry_simps CacheStats_init_def timedelta_24)
  have c4: "stats (snd (read_cached_data fromisoformat_table 1609493400000001 cacher_naive ''X''))
       = \<lparr>num_hits = 0, num_misses = 0, num_expired = 0, num_invalid = 1\<rparr>"
    using t [where c = cacher_naive and now = 1609493400000001 and c' = cacher0
        and fs = "[(''timestamp'', PStr ''2021-01-01T09:30:00''), (''data'', PStr ''payload'')]"]
      g(3) a(3)
    by (simp add: cacher_entry_simps CacheStats_init_def)
  have c5: "stats (snd (read_cached_data fromisoformat_table 1609493400000001 cacher_undated ''X''))
       = \<lparr>num_hits = 0, num_misses = 0, num_expired = 0, num_invalid = 1\<rparr>"
    using t [where c = cacher_undated and now = 1609493400000001 and c' = cacher0
        and fs = "[(''data'', PStr ''payload'')]"]
      g(4) a(4)
    by (simp add: cacher_entry_simps CacheStats_init_def)
  have c6: "snd (read_cached_data fromisoformat_table 0 cacher_off ''X'') = cacher_off"
    using t [where c = cacher_off and now = 0 and fs = "[]" and c' = cacher0]
    by (simp add: cacher_off_simps)
  have c7: "stats cacher_0930 = stats cacher0"
    using t [where c = cacher0 and now = 1609493400000000 and fs = "[]" and c' = cacher_0930] w
    by simp
  show ?thesis
    using g c1 c2 c3 c4 c5 c6 c7 w
    by (simp add: cacher0_simps cacher_entry_simps cacher_off_simps)
qed

text \<open>
  C9. A cache is disabled by configuration, or by a load that found a file it could
  not decode. On a disabled cache \<open>read_cached_data\<close> returns \<open>None\<close> and changes
  nothing, and \<open>write_cached_data\<close> and \<open>save_cache_file\<close> leave the store and
  the file on disk as they were.
\<close>

theorem disabled_cache_is_inert:
  "\<not> enabled (initialize False file_name hours d)
   \<and> (d file_name = Some Unreadable \<longrightarrow> \<not> enabled (initialize en file_name hours d))
   \<and> (\<not> enabled c \<longrightarrow>
        read_cached_data fromisoformat now c k = (Inr PNone, c)
        \<and> write_cached_data isoformat now c k v = Inr c
        \<and> save_cache_file wr c dk = dk)"
  by (simp add: initialize_def Cacher_init_def load_cache_file_def read_cached_data_def
      write_cached_data_def save_cache_file_def)

theorem disabled_cache_is_inert_witness:
  "disk_broken ''cache.json'' = Some Unreadable
   \<and> \<not> enabled cacher_broken
   \<and> read_cached_data fromisoformat_table 0 cacher_broken ''X'' = (Inr PNone, cacher_broken)
   \<and> write_cached_data isoformat_table 0 cacher_broken ''X'' (PStr ''payload'') = Inr cacher_broken
   \<and> save_cache_file Written cacher_broken disk_broken = disk_broken"
proof -
  have d: "disk_broken ''cache.json'' = Some Unreadable"
    by (simp add: disk_broken_def)
  have e: "\<not> enabled cacher_broken"
    unfolding cacher_broken_def
    using d disabled_cache_is_inert [where d = disk_broken and file_name = "''cache.json''"
        and en = True and hours = 24]
    by blast
  show ?thesis
    using d e disabled_cache_is_inert [where c = cacher_broken and fromisoformat = fromisoformat_table
        and isoformat = isoformat_table and now = 0 and k = "''X''" and v = "PStr ''payload''"
        and wr = Written and dk = disk_broken]
    by blast
qed

section \<open>Properties of the caching request layer\<close>









lemma app0_simps:
  "APICacher app0 = cacher0" "app_stats app0 = AppStats_init" "interactions app0 = 0"
  "progress app0 = []"
  by (simp_all add: app0_def)




lemma app_none_simps:
  "interactions app_none = 0" "app_stats app_none = AppStats_init"
  "enabled (APICacher app_none)" "cache_expiration_hours (APICacher app_none) = 24"
  "stats (APICacher app_none) = CacheStats_init"
  "cache_dict (APICacher app_none)
     = PDict [(url0, PDict [(''timestamp'', PStr ''2021-01-01T09:30:00+00:00''), (''data'', PNone)])]"
  by (simp_all add: app_none_def app0_simps cacher0_simps new_entry_def isoformat_table_def)



lemma read_app_none:
  "fst (read_cached_data fromisoformat_table 1609493400000000 (APICacher app_none) url0)
     = Inr PNone"
  by (simp add: read_cached_data_def app_none_simps py_get_def timestamp_is_fresh_def
      fromisoformat_table_def timedelta_24)





section \<open>The credential and the cache key\<close>

lemma sublist_split_at:
  assumes "c \<notin> set xs" and "sublist xs (ys @ c # zs)"
  shows "sublist xs ys \<or> sublist xs zs"
proof -
  from assms(2) consider "sublist xs ys" | "sublist xs (c # zs)"
    | xs1 xs2 where "xs = xs1 @ xs2" "suffix xs1 ys" "prefix xs2 (c # zs)"
    by (auto simp add: sublist_append)
  then show ?thesis
  proof cases
    case 1
    then show ?thesis by simp
  next
    case 2
    then have "prefix xs (c # zs) \<or> sublist xs zs" by (simp add: sublist_Cons_right)
    moreover have "xs = []" if "prefix xs (c # zs)"
      using that assms(1) by (cases xs) auto
    ultimately show ?thesis by auto
  next
    case 3
    have "xs2 = []" using 3(1,3) assms(1) by (cases xs2) auto
    then have "suffix xs ys" using 3(1,2) by simp
    then show ?thesis by simp
  qed
qed


lemma lower_from_ascii:
  "\<forall>c \<in> set xs. \<not> digit7 c \<Longrightarrow> lower_from u before xs = map lower_char xs"
  by (induction xs arbitrary: before) simp_all

lemma lower_ascii: "\<forall>c \<in> set xs. \<not> digit7 c \<Longrightarrow> lower u xs = map lower_char xs"
  by (simp add: lower_def lower_from_ascii)





lemma name_chars: "CHR ''/'' \<notin> set API_KEY_PARAM_NAME" "CHR ''&'' \<notin> set API_KEY_PARAM_NAME"
  "CHR ''='' \<notin> set API_KEY_PARAM_NAME"
  by (simp_all add: API_KEY_PARAM_NAME_def)



lemma get_rest_data_aborts:
  "sublist API_KEY_PARAM_NAME (lower (lib_lower E) rest_path) \<Longrightarrow>
   get_rest_data E rest_path a = (Inl (SystemExit (- 999)), a)"
  by (simp add: get_rest_data_def)

lemma get_rest_data_returns:
  "\<not> sublist API_KEY_PARAM_NAME (lower (lib_lower E) rest_path) \<Longrightarrow>
   get_rest_data E rest_path a =
     (case make_caching_request E (full_url E rest_path) a of
        (Inl e, a1) \<Rightarrow> (Inr (PDict []), a1)
      | (Inr data, a1) \<Rightarrow>
          (case json_loads_py E data of
             None \<Rightarrow> (Inr (PDict []), a1)
           | Some decoded \<Rightarrow> (Inr decoded, a1)))"
  by (simp add: get_rest_data_def)

lemma get_rest_data_state:
  "\<not> sublist API_KEY_PARAM_NAME (lower (lib_lower E) rest_path) \<Longrightarrow>
   snd (get_rest_data E rest_path a) = snd (make_caching_request E (full_url E rest_path) a)"
  by (auto simp add: get_rest_data_returns split: prod.splits sum.splits option.splits)










lemma path_of_root:
  "\<not> sublist API_KEY_PARAM_NAME (lower (lib_lower env1) ''category/children?category_id=0'')"
  "\<not> sublist API_KEY_PARAM_NAME (lower (lib_lower env_down) ''category/children?category_id=0'')"
  "\<not> sublist API_KEY_PARAM_NAME (lower (lib_lower env_throttle) ''category/children?category_id=0'')"
  "\<not> sublist API_KEY_PARAM_NAME (lower (lib_lower env_html) ''category/children?category_id=0'')"
  unfolding API_KEY_PARAM_NAME_def by code_simp+



section \<open>Failed requests\<close>

lemma digits_chars: "set (digits n) \<subseteq> set ''0123456789''"
proof (induction n rule: digits.induct)
  case (1 n)
  have d: "''0123456789'' ! k \<in> set ''0123456789''" if "k < 10" for k
    using that nth_mem [of k "''0123456789''"] by simp
  show ?case
  proof (cases "n < 10")
    case True
    then show ?thesis using d [of n] by (subst digits.simps) simp
  next
    case False
    have "n mod 10 < 10" by simp
    then show ?thesis
      using False 1 d [of "n mod 10"] by (subst digits.simps) simp
  qed
qed

lemma show_int_chars: "set (show_int i) \<subseteq> set ''-0123456789''"
proof -
  have "set (digits k) \<subseteq> set ''-0123456789''" for k
    using digits_chars [of k] set_subset_Cons [of "''0123456789''" "CHR ''-''"]
    by (rule order_trans)
  then show ?thesis
    by (simp add: show_int_def)
qed

lemma show_int_ascii: "\<forall>c \<in> set (show_int i). \<not> digit7 c"
proof
  fix c
  assume "c \<in> set (show_int i)"
  then have "c \<in> set ''-0123456789''" using show_int_chars [of i] by blast
  then show "\<not> digit7 c" by auto
qed

lemma no_name_in_number: "\<not> sublist API_KEY_PARAM_NAME (map lower_char (show_int i))"
proof
  assume "sublist API_KEY_PARAM_NAME (map lower_char (show_int i))"
  then have "set API_KEY_PARAM_NAME \<subseteq> set (map lower_char (show_int i))"
    by (rule set_mono_sublist)
  then have "CHR ''a'' \<in> lower_char ` set (show_int i)"
    by (auto simp add: API_KEY_PARAM_NAME_def)
  then have "CHR ''a'' \<in> lower_char ` set ''-0123456789''"
    using show_int_chars [of i] by blast
  then show False by (simp add: lower_char_def)
qed

lemma prefixes_have_no_name:
  "\<not> sublist API_KEY_PARAM_NAME ''category/children?category_id''"
  "\<not> sublist API_KEY_PARAM_NAME ''category/series?category_id''"
  "\<not> sublist API_KEY_PARAM_NAME ''limit''"
  unfolding API_KEY_PARAM_NAME_def by code_simp+

lemma children_path_has_no_name:
  "\<not> sublist API_KEY_PARAM_NAME
       (map lower_char (''category/children?category_id='' @ show_int i))"
proof
  assume "sublist API_KEY_PARAM_NAME
            (map lower_char (''category/children?category_id='' @ show_int i))"
  then have "sublist API_KEY_PARAM_NAME
      (''category/children?category_id'' @ CHR ''='' # map lower_char (show_int i))"
    by (simp add: lower_char_def)
  from sublist_split_at [OF name_chars(3) this] show False
    using prefixes_have_no_name(1) no_name_in_number by blast
qed

lemma series_path_has_no_name:
  "\<not> sublist API_KEY_PARAM_NAME
       (map lower_char (''category/series?category_id='' @ show_int i @ ''&limit='' @ show_int n))"
proof
  assume "sublist API_KEY_PARAM_NAME
       (map lower_char (''category/series?category_id='' @ show_int i @ ''&limit='' @ show_int n))"
  then have "sublist API_KEY_PARAM_NAME
      (''category/series?category_id'' @ CHR ''='' #
         (map lower_char (show_int i) @ CHR ''&'' #
            (''limit'' @ CHR ''='' # map lower_char (show_int n))))"
    by (simp add: lower_char_def)
  from sublist_split_at [OF name_chars(3) this]
  have "sublist API_KEY_PARAM_NAME
      (map lower_char (show_int i) @ CHR ''&'' # (''limit'' @ CHR ''='' # map lower_char (show_int n)))"
    using prefixes_have_no_name(2) by blast
  from sublist_split_at [OF name_chars(2) this]
  have "sublist API_KEY_PARAM_NAME (''limit'' @ CHR ''='' # map lower_char (show_int n))"
    using no_name_in_number by blast
  from sublist_split_at [OF name_chars(3) this] show False
    using prefixes_have_no_name(3) no_name_in_number by blast
qed

lemma integer_paths_pass:
  "\<not> sublist API_KEY_PARAM_NAME (lower u (children_url E (PInt i)))"
  "\<not> sublist API_KEY_PARAM_NAME (lower u (series_url E (PInt i)))"
proof -
  have c: "\<forall>c \<in> set (''category/children?category_id='' @ show_int i). \<not> digit7 c"
    using show_int_ascii [of i] by auto
  have s: "\<forall>c \<in> set (''category/series?category_id='' @ show_int i @ ''&limit=''
                         @ show_int (LIMIT_SERIES E)). \<not> digit7 c"
    using show_int_ascii [of i] show_int_ascii [of "LIMIT_SERIES E"] by auto
  show "\<not> sublist API_KEY_PARAM_NAME (lower u (children_url E (PInt i)))"
    unfolding children_url_def py_str_def pyval.case lower_ascii [OF c]
    by (rule children_path_has_no_name)
  show "\<not> sublist API_KEY_PARAM_NAME (lower u (series_url E (PInt i)))"
    unfolding series_url_def py_str_def pyval.case lower_ascii [OF s]
    by (rule series_path_has_no_name)
qed

lemma get_rest_data_never_raises:
  "\<not> sublist API_KEY_PARAM_NAME (lower (lib_lower E) rest_path) \<Longrightarrow>
   \<exists>v a'. get_rest_data E rest_path a = (Inr v, a')"
proof -
  assume n: "\<not> sublist API_KEY_PARAM_NAME (lower (lib_lower E) rest_path)"
  obtain x a1 where m: "make_caching_request E (full_url E rest_path) a = (x, a1)"
    by (cases "make_caching_request E (full_url E rest_path) a")
  show ?thesis
    unfolding get_rest_data_returns [OF n] m
    by (cases x) (simp_all split: option.splits)
qed

lemma process_children_series_empty:
  "process_children_series E (PDict []) categoryID a = (Inr (NInt 0, NInt 0), a)"
  by (simp add: process_children_series_def py_get_def)

lemma annotate_no_categories:
  "annotate E cid 0 0 ns nds a = (Inr r, a') \<Longrightarrow> r = (0, nds)"
  unfolding annotate_def Let_def
  by (simp split: sum.splits option.splits if_splits)

lemma process_category_no_categories:
  assumes "depth \<le> LIMIT_DEPTH E"
    and "py_item categoryDict ''id'' = Inr cid"
    and "py_item categoryDict ''name'' = Inr nm"
    and "get_children_series E cid (a\<lparr>progress := progress a @ [(depth, cid, nm)]\<rparr>) = (Inr cs, a1)"
    and "process_children_series E cs cid a1 = (Inr (ns, nds), a2)"
    and "get_child_categories E cid a2 = (Inr (PDict []), a3)"
  shows "process_category E depth categoryDict a = annotate E cid 0 0 ns nds a3"
proof -
  have "fetch_children E depth categoryDict a = (Inr (cid, ns, nds, PNone), a3)"
    using assms(2-6) by (simp add: fetch_children_def py_get_def)
  then show ?thesis
    using assms(1) by (subst process_category.simps) simp
qed


lemma annotate_nothing:
  "annotate E cid 0 0 (NInt 0) (NInt 0) a = (Inr (0, NInt 0), a)"
  by (simp add: annotate_def)

lemma failed_child_is_skipped:
  assumes "depth + 1 \<le> LIMIT_DEPTH E"
    and "create_category_node E categoryID subdict a = (Inr (), a1)"
    and "py_item subdict ''id'' = Inr sid"
    and "py_item subdict ''name'' = Inr nm"
    and "get_children_series E sid (a1\<lparr>progress := progress a1 @ [(depth + 1, sid, nm)]\<rparr>)
           = (Inr (PDict []), a2)"
    and "get_child_categories E sid a2 = (Inr (PDict []), a3)"
  shows "process_category E (depth + 1) subdict a1 = (Inr (0, NInt 0), a3)"
    and "process_subcategories E depth categoryID (subdict # rest) totals a
           = process_subcategories E depth categoryID rest
               (fst totals, NInt (num_val (snd totals))) a3"
proof -
  have "process_category E (depth + 1) subdict a1 = annotate E sid 0 0 (NInt 0) (NInt 0) a3"
    using assms(1,3,4,5) process_children_series_empty assms(6)
    by (rule process_category_no_categories)
  then show p: "process_category E (depth + 1) subdict a1 = (Inr (0, NInt 0), a3)"
    by (simp add: annotate_nothing)
  show "process_subcategories E depth categoryID (subdict # rest) totals a
           = process_subcategories E depth categoryID rest
               (fst totals, NInt (num_val (snd totals))) a3"
    using assms(2) p by simp
qed

lemma name_in_bad_id:
  "sublist API_KEY_PARAM_NAME (lower (lib_lower env1) (series_url env1 (PStr ''API_KEY'')))"
  "sublist API_KEY_PARAM_NAME (lower (lib_lower env1) (children_url env1 (PStr ''API_KEY'')))"
  unfolding API_KEY_PARAM_NAME_def by code_simp+

text \<open>
  C5, as the claim states it, fails on the code. The guard of \<open>get_rest_data\<close>
  calls \<open>exit(-999)\<close> outside its \<open>try\<close> block whenever the rest path names the
  credential parameter, and the rest path contains the category identifier. For a
  category whose identifier is the text \<open>API_KEY\<close> both requests raise
  \<open>SystemExit\<close>, which ends the traversal. And a payload that is malformed in
  another way than being undecodable is not replaced by an empty result: where the
  host answers with the JSON text \<open>[]\<close>, the request returns the list it decodes
  to, and the traversal raises \<open>AttributeError\<close> when it asks that list for its
  \<open>count\<close>.
\<close>

theorem requests_abort_counterexample:
  "get_children_series env1 (PStr ''API_KEY'') app1 = (Inl (SystemExit (- 999)), app1)
   \<and> get_child_categories env1 (PStr ''API_KEY'') app1 = (Inl (SystemExit (- 999)), app1)
   \<and> fst (process_category env1 0 (PDict [(''name'', PStr ''<root>''), (''id'', PStr ''API_KEY'')]) app1)
       = Inl (SystemExit (- 999))
   \<and> fst (get_children_series env_list (PInt 0) app1) = Inr (PList [])
   \<and> fst (process_category env_list 0 (root_dict env_list) app1) = Inl AttributeError"
proof -
  have a: "get_children_series env1 (PStr ''API_KEY'') app1 = (Inl (SystemExit (- 999)), app1)"
    unfolding get_children_series_def
    using name_in_bad_id(1) by (rule get_rest_data_aborts)
  have b: "get_child_categories env1 (PStr ''API_KEY'') app1 = (Inl (SystemExit (- 999)), app1)"
    unfolding get_child_categories_def
    using name_in_bad_id(2) by (rule get_rest_data_aborts)
  have c: "fst (process_category env1 0 (PDict [(''name'', PStr ''<root>''), (''id'', PStr ''API_KEY'')]) app1)
       = Inl (SystemExit (- 999))"
    by code_simp
  have d: "fst (get_children_series env_list (PInt 0) app1) = Inr (PList [])"
    by code_simp
  have e: "fst (process_category env_list 0 (root_dict env_list) app1) = Inl AttributeError"
    by code_simp
  show ?thesis using a b c d e by simp
qed

text \<open>
  C5, amended. For every category identifier on which the guard of
  \<open>get_rest_data\<close> does not fire (the rest path built from it does not contain the
  parameter name \<open>api_key\<close> once lowered; every integer identifier is such), the
  request for the child series and the request for the child categories return a
  value and never an exception. \<open>get_rest_data\<close> returns the empty dictionary
  whenever \<open>make_caching_request\<close> raises, and whenever the data it returns cannot
  be decoded; the \<open>None\<close> of a failed call is such data. On the empty dictionary
  \<open>process_children_series\<close> returns zero for both series counts and changes
  nothing. When the request for the child categories gives the empty dictionary,
  \<open>process_category\<close> goes straight to the labelling of the node with the series
  counts it has, and its direct and descendant category counts are zero. And a child
  category both of whose requests give the empty dictionary returns zero counts to
  the loop of its parent, which goes on with the child's siblings.
\<close>

theorem failed_requests_yield_empty:
  "(\<not> sublist API_KEY_PARAM_NAME (lower (lib_lower E) (series_url E categoryID))
     \<longrightarrow> (\<exists>v a'. get_children_series E categoryID a = (Inr v, a')))
   \<and> (\<not> sublist API_KEY_PARAM_NAME (lower (lib_lower E) (children_url E categoryID))
     \<longrightarrow> (\<exists>v a'. get_child_categories E categoryID a = (Inr v, a')))
   \<and> (\<exists>v a'. get_children_series E (PInt i) a = (Inr v, a'))
   \<and> (\<exists>v a'. get_child_categories E (PInt i) a = (Inr v, a'))
   \<and> (\<not> sublist API_KEY_PARAM_NAME (lower (lib_lower E) rest_path)
        \<and> fst (make_caching_request E (full_url E rest_path) a) = Inl e
     \<longrightarrow> fst (get_rest_data E rest_path a) = Inr (PDict []))
   \<and> (\<not> sublist API_KEY_PARAM_NAME (lower (lib_lower E) rest_path)
        \<and> fst (make_caching_request E (full_url E rest_path) a) = Inr data
        \<and> json_loads_py E data = None
     \<longrightarrow> fst (get_rest_data E rest_path a) = Inr (PDict []))
   \<and> json_loads_py E PNone = None
   \<and> process_children_series E (PDict []) categoryID a = (Inr (NInt 0, NInt 0), a)
   \<and> (depth \<le> LIMIT_DEPTH E
        \<and> py_item categoryDict ''id'' = Inr cid \<and> py_item categoryDict ''name'' = Inr nm
        \<and> get_children_series E cid (a\<lparr>progress := progress a @ [(depth, cid, nm)]\<rparr>)
            = (Inr cs, a1)
        \<and> process_children_series E cs cid a1 = (Inr (ns, nds), a2)
        \<and> get_child_categories E cid a2 = (Inr (PDict []), a3)
     \<longrightarrow> process_category E depth categoryDict a = annotate E cid 0 0 ns nds a3
         \<and> (\<forall>r a4. annotate E cid 0 0 ns nds a3 = (Inr r, a4) \<longrightarrow> r = (0, nds)))
   \<and> (depth + 1 \<le> LIMIT_DEPTH E
        \<and> create_category_node E categoryID subdict b = (Inr (), b1)
        \<and> py_item subdict ''id'' = Inr sid \<and> py_item subdict ''name'' = Inr snm
        \<and> get_children_series E sid (b1\<lparr>progress := progress b1 @ [(depth + 1, sid, snm)]\<rparr>)
            = (Inr (PDict []), b2)
        \<and> get_child_categories E sid b2 = (Inr (PDict []), b3)
     \<longrightarrow> process_category E (depth + 1) subdict b1 = (Inr (0, NInt 0), b3)
         \<and> process_subcategories E depth categoryID (subdict # rest) totals b
             = process_subcategories E depth categoryID rest
                 (fst totals, NInt (num_val (snd totals))) b3)"
proof (intro conjI impI allI)
  assume n: "\<not> sublist API_KEY_PARAM_NAME (lower (lib_lower E) (series_url E categoryID))"
  show "\<exists>v a'. get_children_series E categoryID a = (Inr v, a')"
    unfolding get_children_series_def
    using n by (rule get_rest_data_never_raises)
next
  assume n: "\<not> sublist API_KEY_PARAM_NAME (lower (lib_lower E) (children_url E categoryID))"
  show "\<exists>v a'. get_child_categories E categoryID a = (Inr v, a')"
    unfolding get_child_categories_def
    using n by (rule get_rest_data_never_raises)
next
  show "\<exists>v a'. get_children_series E (PInt i) a = (Inr v, a')"
    unfolding get_children_series_def
    using integer_paths_pass(2) by (rule get_rest_data_never_raises)
next
  show "\<exists>v a'. get_child_categories E (PInt i) a = (Inr v, a')"
    unfolding get_child_categories_def
    using integer_paths_pass(1) by (rule get_rest_data_never_raises)
next
  assume "\<not> sublist API_KEY_PARAM_NAME (lower (lib_lower E) rest_path)
        \<and> fst (make_caching_request E (full_url E rest_path) a) = Inl e"
  then show "fst (get_rest_data E rest_path a) = Inr (PDict [])"
    by (cases "make_caching_request E (full_url E rest_path) a")
       (simp add: get_rest_data_returns)
next
  assume "\<not> sublist API_KEY_PARAM_NAME (lower (lib_lower E) rest_path)
        \<and> fst (make_caching_request E (full_url E rest_path) a) = Inr data
        \<and> json_loads_py E data = None"
  then show "fst (get_rest_data E rest_path a) = Inr (PDict [])"
    by (cases "make_caching_request E (full_url E rest_path) a")
       (simp add: get_rest_data_returns)
next
  show "json_loads_py E PNone = None" by (simp add: json_loads_py_def)
next
  show "process_children_series E (PDict []) categoryID a = (Inr (NInt 0, NInt 0), a)"
    by (rule process_children_series_empty)
next
  assume h: "depth \<le> LIMIT_DEPTH E
        \<and> py_item categoryDict ''id'' = Inr cid \<and> py_item categoryDict ''name'' = Inr nm
        \<and> get_children_series E cid (a\<lparr>progress := progress a @ [(depth, cid, nm)]\<rparr>)
            = (Inr cs, a1)
        \<and> process_children_series E cs cid a1 = (Inr (ns, nds), a2)
        \<and> get_child_categories E cid a2 = (Inr (PDict []), a3)"
  then show "process_category E depth categoryDict a = annotate E cid 0 0 ns nds a3"
    by (intro process_category_no_categories [where ?a1.0 = a1 and ?a2.0 = a2 and cs = cs and nm = nm]) simp_all
  fix r a4
  assume "annotate E cid 0 0 ns nds a3 = (Inr r, a4)"
  then show "r = (0, nds)" by (rule annotate_no_categories)
next
  assume h: "depth + 1 \<le> LIMIT_DEPTH E
        \<and> create_category_node E categoryID subdict b = (Inr (), b1)
        \<and> py_item subdict ''id'' = Inr sid \<and> py_item subdict ''name'' = Inr snm
        \<and> get_children_series E sid (b1\<lparr>progress := progress b1 @ [(depth + 1, sid, snm)]\<rparr>)
            = (Inr (PDict []), b2)
        \<and> get_child_categories E sid b2 = (Inr (PDict []), b3)"
  then show "process_category E (depth + 1) subdict b1 = (Inr (0, NInt 0), b3)"
    by (intro failed_child_is_skipped(1) [where categoryID = categoryID and a = b and sid = sid
          and nm = snm and ?a2.0 = b2]) simp_all
  from h show "process_subcategories E depth categoryID (subdict # rest) totals b
             = process_subcategories E depth categoryID rest
                 (fst totals, NInt (num_val (snd totals))) b3"
    by (intro failed_child_is_skipped(2) [where ?a1.0 = b1 and sid = sid and nm = snm
          and ?a2.0 = b2]) simp_all
qed

lemma pair_of_parts: "fst p = x \<Longrightarrow> snd p = y \<Longrightarrow> p = (x, y)"
  by auto

lemma env2_fetch:
  "get_children_series env2 (PInt 0) app2_entered = (Inr series2, app2_fetched)"
proof (rule pair_of_parts)
  show "fst (get_children_series env2 (PInt 0) app2_entered) = Inr series2"
    by code_simp
  show "snd (get_children_series env2 (PInt 0) app2_entered) = app2_fetched"
    by (simp add: app2_fetched_def)
qed

lemma env2_series:
  "process_children_series env2 series2 (PInt 0) app2_fetched = (Inr (NInt 5, NInt 5), app2_series)"
proof (rule pair_of_parts)
  show "fst (process_children_series env2 series2 (PInt 0) app2_fetched) = Inr (NInt 5, NInt 5)"
    by code_simp
  show "snd (process_children_series env2 series2 (PInt 0) app2_fetched) = app2_series"
    by (simp add: app2_series_def)
qed

lemma env2_categories:
  "get_child_categories env2 (PInt 0) app2_series = (Inr (PDict []), app2_categories)"
proof (rule pair_of_parts)
  show "fst (get_child_categories env2 (PInt 0) app2_series) = Inr (PDict [])"
    by code_simp
  show "snd (get_child_categories env2 (PInt 0) app2_series) = app2_categories"
    by (simp add: app2_categories_def)
qed

lemma env2_annotate:
  "annotate env2 (PInt 0) 0 0 (NInt 5) (NInt 5) app2_categories
     = (Inr (0, NInt 5), snd (annotate env2 (PInt 0) 0 0 (NInt 5) (NInt 5) app2_categories))"
proof (rule pair_of_parts)
  show "fst (annotate env2 (PInt 0) 0 0 (NInt 5) (NInt 5) app2_categories) = Inr (0, NInt 5)"
    by code_simp
qed simp

lemma env4_child:
  "create_category_node env4 (PInt 0) cat1 app4_fetched = (Inr (), app4_child)"
proof (rule pair_of_parts)
  show "fst (create_category_node env4 (PInt 0) cat1 app4_fetched) = Inr ()"
    by code_simp
  show "snd (create_category_node env4 (PInt 0) cat1 app4_fetched) = app4_child"
    by (simp add: app4_child_def)
qed

lemma env4_series:
  "get_children_series env4 (PInt 1) app4_entered = (Inr (PDict []), app4_series)"
proof (rule pair_of_parts)
  show "fst (get_children_series env4 (PInt 1) app4_entered) = Inr (PDict [])"
    by code_simp
  show "snd (get_children_series env4 (PInt 1) app4_entered) = app4_series"
    by (simp add: app4_series_def)
qed

lemma env4_categories:
  "get_child_categories env4 (PInt 1) app4_series = (Inr (PDict []), app4_categories)"
proof (rule pair_of_parts)
  show "fst (get_child_categories env4 (PInt 1) app4_series) = Inr (PDict [])"
    by code_simp
  show "snd (get_child_categories env4 (PInt 1) app4_series) = app4_categories"
    by (simp add: app4_categories_def)
qed

lemma request_examples:
  "\<not> sublist API_KEY_PARAM_NAME (lower (lib_lower env1) (series_url env1 (PStr ''A1'')))"
  "\<not> sublist API_KEY_PARAM_NAME (lower (lib_lower env1) (children_url env1 (PStr ''A1'')))"
  "fst (make_caching_request env_throttle (full_url env_throttle ''category/children?category_id=0'') app0)
     = Inl ValueError"
  "fst (make_caching_request env_html (full_url env_html ''category/children?category_id=0'') app0)
     = Inr (PStr ''<html>503</html>'')"
  "json_loads_py env_html (PStr ''<html>503</html>'') = None"
  "0 \<le> LIMIT_DEPTH env2"
  "py_item (root_dict env2) ''id'' = Inr (PInt 0)"
  "py_item (root_dict env2) ''name'' = Inr (PStr ''<root>'')"
  "1 \<le> LIMIT_DEPTH env4"
  "py_item cat1 ''id'' = Inr (PInt 1)"
  "py_item cat1 ''name'' = Inr (PStr ''A'')"
  "fst (process_category env4 0 (root_dict env4) app1) = Inr (3, NInt 0)"
  "map (\<lambda>p. fst (snd p)) (progress (snd (process_category env4 0 (root_dict env4) app1)))
     = [PInt 0, PInt 1, PInt 2]"
  unfolding API_KEY_PARAM_NAME_def by code_simp+

text \<open>
  A category with a text for its identifier and the root category 0; a request that
  raises (the throttle is negative) and one whose body is an HTML page; the root
  category under a host that fails on the request for its child categories; and the
  traversal under a host that fails on every request about category 1: category 1
  returns zero counts, the loop goes on with category 2, and the root returns three
  descendant categories (its two children and the child that category 2 lists).
\<close>

theorem failed_requests_yield_empty_witness:
  "\<not> sublist API_KEY_PARAM_NAME (lower (lib_lower env1) (series_url env1 (PStr ''A1'')))
   \<and> (\<exists>v a'. get_children_series env1 (PStr ''A1'') app1 = (Inr v, a'))
   \<and> \<not> sublist API_KEY_PARAM_NAME (lower (lib_lower env1) (children_url env1 (PStr ''A1'')))
   \<and> (\<exists>v a'. get_child_categories env1 (PStr ''A1'') app1 = (Inr v, a'))
   \<and> (\<exists>v a'. get_children_series env1 (PInt 0) app1 = (Inr v, a'))
   \<and> (\<exists>v a'. get_child_categories env1 (PInt 0) app1 = (Inr v, a'))
   \<and> \<not> sublist API_KEY_PARAM_NAME
         (lower (lib_lower env_throttle) ''category/children?category_id=0'')
   \<and> fst (make_caching_request env_throttle
             (full_url env_throttle ''category/children?category_id=0'') app0) = Inl ValueError
   \<and> fst (get_rest_data env_throttle ''category/children?category_id=0'' app0) = Inr (PDict [])
   \<and> \<not> sublist API_KEY_PARAM_NAME (lower (lib_lower env_html) ''category/children?category_id=0'')
   \<and> fst (make_caching_request env_html
             (full_url env_html ''category/children?category_id=0'') app0)
       = Inr (PStr ''<html>503</html>'')
   \<and> json_loads_py env_html (PStr ''<html>503</html>'') = None
   \<and> fst (get_rest_data env_html ''category/children?category_id=0'' app0) = Inr (PDict [])
   \<and> 0 \<le> LIMIT_DEPTH env2
   \<and> py_item (root_dict env2) ''id'' = Inr (PInt 0)
   \<and> py_item (root_dict env2) ''name'' = Inr (PStr ''<root>'')
   \<and> get_children_series env2 (PInt 0)
         (app1\<lparr>progress := progress app1 @ [(0, PInt 0, PStr ''<root>'')]\<rparr>)
       = (Inr series2, app2_fetched)
   \<and> process_children_series env2 series2 (PInt 0) app2_fetched
       = (Inr (NInt 5, NInt 5), app2_series)
   \<and> get_child_categories env2 (PInt 0) app2_series = (Inr (PDict []), app2_categories)
   \<and> process_category env2 0 (root_dict env2) app1
       = annotate env2 (PInt 0) 0 0 (NInt 5) (NInt 5) app2_categories
   \<and> fst (process_category env2 0 (root_dict env2) app1) = Inr (0, NInt 5)
   \<and> 1 \<le> LIMIT_DEPTH env4
   \<and> create_category_node env4 (PInt 0) cat1 app4_fetched = (Inr (), app4_child)
   \<and> py_item cat1 ''id'' = Inr (PInt 1) \<and> py_item cat1 ''name'' = Inr (PStr ''A'')
   \<and> get_children_series env4 (PInt 1)
         (app4_child\<lparr>progress := progress app4_child @ [(1, PInt 1, PStr ''A'')]\<rparr>)
       = (Inr (PDict []), app4_series)
   \<and> get_child_categories env4 (PInt 1) app4_series = (Inr (PDict []), app4_categories)
   \<and> process_category env4 1 cat1 app4_child = (Inr (0, NInt 0), app4_categories)
   \<and> process_subcategories env4 0 (PInt 0) [cat1, cat2] (2, NInt 0) app4_fetched
       = process_subcategories env4 0 (PInt 0) [cat2] (2, NInt 0) app4_categories
   \<and> fst (process_category env4 0 (root_dict env4) app1) = Inr (3, NInt 0)
   \<and> map (\<lambda>p. fst (snd p)) (progress (snd (process_category env4 0 (root_dict env4) app1)))
       = [PInt 0, PInt 1, PInt 2]"
proof -
  note t1 = failed_requests_yield_empty
      [where E = env1 and categoryID = "PStr ''A1''" and a = app1 and i = 0
         and rest_path = "''category/children?category_id=0''" and e = ValueError and data = PNone
         and depth = 0 and categoryDict = "root_dict env2" and cid = "PInt 0"
         and nm = "PStr ''<root>''" and cs = series2 and ?a1.0 = app2_fetched
         and ns = "NInt 5" and nds = "NInt 5" and ?a2.0 = app2_series and ?a3.0 = app2_categories
         and subdict = cat1 and b = app4_fetched and ?b1.0 = app4_child and sid = "PInt 1"
         and snm = "PStr ''A''" and ?b2.0 = app4_series and ?b3.0 = app4_categories
         and rest = "[cat2]" and totals = "(2, NInt 0)"]
  note t2 = failed_requests_yield_empty
      [where E = env_throttle and categoryID = "PInt 0" and a = app0 and i = 0
         and rest_path = "''category/children?category_id=0''" and e = ValueError and data = PNone
         and depth = 0 and categoryDict = "root_dict env2" and cid = "PInt 0"
         and nm = "PStr ''<root>''" and cs = series2 and ?a1.0 = app2_fetched
         and ns = "NInt 5" and nds = "NInt 5" and ?a2.0 = app2_series and ?a3.0 = app2_categories
         and subdict = cat1 and b = app4_fetched and ?b1.0 = app4_child and sid = "PInt 1"
         and snm = "PStr ''A''" and ?b2.0 = app4_series and ?b3.0 = app4_categories
         and rest = "[cat2]" and totals = "(2, NInt 0)"]
  note t3 = failed_requests_yield_empty
      [where E = env_html and categoryID = "PInt 0" and a = app0 and i = 0
         and rest_path = "''category/children?category_id=0''" and e = ValueError
         and data = "PStr ''<html>503</html>''"
         and depth = 0 and categoryDict = "root_dict env2" and cid = "PInt 0"
         and nm = "PStr ''<root>''" and cs = series2 and ?a1.0 = app2_fetched
         and ns = "NInt 5" and nds = "NInt 5" and ?a2.0 = app2_series and ?a3.0 = app2_categories
         and subdict = cat1 and b = app4_fetched and ?b1.0 = app4_child and sid = "PInt 1"
         and snm = "PStr ''A''" and ?b2.0 = app4_series and ?b3.0 = app4_categories
         and rest = "[cat2]" and totals = "(2, NInt 0)"]
  note t4 = failed_requests_yield_empty
      [where E = env2 and categoryID = "PInt 0" and a = app1 and i = 0
         and rest_path = "''category/children?category_id=0''" and e = ValueError and data = PNone
         and depth = 0 and categoryDict = "root_dict env2" and cid = "PInt 0"
         and nm = "PStr ''<root>''" and cs = series2 and ?a1.0 = app2_fetched
         and ns = "NInt 5" and nds = "NInt 5" and ?a2.0 = app2_series and ?a3.0 = app2_categories
         and subdict = cat1 and b = app4_fetched and ?b1.0 = app4_child and sid = "PInt 1"
         and snm = "PStr ''A''" and ?b2.0 = app4_series and ?b3.0 = app4_categories
         and rest = "[cat2]" and totals = "(2, NInt 0)"]
  note t5 = failed_requests_yield_empty
      [where E = env4 and categoryID = "PInt 0" and a = app1 and i = 0
         and rest_path = "''category/children?category_id=0''" and e = ValueError and data = PNone
         and depth = 0 and categoryDict = "root_dict env2" and cid = "PInt 0"
         and nm = "PStr ''<root>''" and cs = series2 and ?a1.0 = app2_fetched
         and ns = "NInt 5" and nds = "NInt 5" and ?a2.0 = app2_series and ?a3.0 = app2_categories
         and subdict = cat1 and b = app4_fetched and ?b1.0 = app4_child and sid = "PInt 1"
         and snm = "PStr ''A''" and ?b2.0 = app4_series and ?b3.0 = app4_categories
         and rest = "[cat2]" and totals = "(2, NInt 0)"]
  have c1: "(\<exists>v a'. get_children_series env1 (PStr ''A1'') app1 = (Inr v, a'))"
    "(\<exists>v a'. get_child_categories env1 (PStr ''A1'') app1 = (Inr v, a'))"
    "(\<exists>v a'. get_children_series env1 (PInt 0) app1 = (Inr v, a'))"
    "(\<exists>v a'. get_child_categories env1 (PInt 0) app1 = (Inr v, a'))"
    using t1 request_examples(1,2) by blast+
  have c2: "fst (get_rest_data env_throttle ''category/children?category_id=0'' app0) = Inr (PDict [])"
    using t2 request_examples(3) path_of_root(3) by blast
  have c3: "fst (get_rest_data env_html ''category/children?category_id=0'' app0) = Inr (PDict [])"
    using t3 request_examples(4,5) path_of_root(4) by blast
  have f: "get_children_series env2 (PInt 0)
         (app1\<lparr>progress := progress app1 @ [(0, PInt 0, PStr ''<root>'')]\<rparr>)
       = (Inr series2, app2_fetched)"
    using env2_fetch by (simp add: app2_entered_def)
  have p: "process_category env2 0 (root_dict env2) app1
       = annotate env2 (PInt 0) 0 0 (NInt 5) (NInt 5) app2_categories"
    using t4 request_examples(6-8) f env2_series env2_categories by blast
  have q: "fst (process_category env2 0 (root_dict env2) app1) = Inr (0, NInt 5)"
    unfolding p using env2_annotate by (metis fst_conv)
  have g: "get_children_series env4 (PInt 1)
         (app4_child\<lparr>progress := progress app4_child @ [(1, PInt 1, PStr ''A'')]\<rparr>)
       = (Inr (PDict []), app4_series)"
    using env4_series by (simp add: app4_entered_def)
  have h: "0 + 1 \<le> LIMIT_DEPTH env4
        \<and> create_category_node env4 (PInt 0) cat1 app4_fetched = (Inr (), app4_child)
        \<and> py_item cat1 ''id'' = Inr (PInt 1) \<and> py_item cat1 ''name'' = Inr (PStr ''A'')
        \<and> get_children_series env4 (PInt 1)
            (app4_child\<lparr>progress := progress app4_child @ [(0 + 1, PInt 1, PStr ''A'')]\<rparr>)
            = (Inr (PDict []), app4_series)
        \<and> get_child_categories env4 (PInt 1) app4_series = (Inr (PDict []), app4_categories)"
    using request_examples(9-11) env4_child g env4_categories by simp
  have s: "process_category env4 (0 + 1) cat1 app4_child = (Inr (0, NInt 0), app4_categories)
     \<and> process_subcategories env4 0 (PInt 0) (cat1 # [cat2]) (2, NInt 0) app4_fetched
         = process_subcategories env4 0 (PInt 0) [cat2]
             (fst (2 :: int, NInt 0), NInt (num_val (snd (2 :: int, NInt 0)))) app4_categories"
    using t5 h by blast
  show ?thesis
    using c1 c2 c3 request_examples path_of_root f env2_series env2_categories p q
      env4_child g env4_categories s
    by simp
qed

section \<open>The series of a category\<close>

lemma add_node_tree:
  "add_node text ident p a = (Inr u, a') \<Longrightarrow>
   a' = a\<lparr>fred_data_tree := fred_data_tree a @ [\<lparr>node_id = ident, tag = text, parent = Some p\<rparr>]\<rparr>"
  by (auto simp add: add_node_def create_node_def split: if_splits sum.splits)

lemma process_series_tree:
  assumes "process_series E series cid a = (Inr u, a')"
  shows "\<exists>hdr extra. a' = a\<lparr>fred_data_tree := fred_data_tree a @ hdr # extra\<rparr>
           \<and> parent hdr = Some (py_str (lib_repr E) cid) \<and> node_id hdr \<noteq> None
           \<and> (\<forall>n \<in> set extra. parent n \<noteq> Some (py_str (lib_repr E) cid))"
proof -
  let ?c = "py_str (lib_repr E) cid"
  obtain title where t: "py_item series ''title'' = Inr title"
    using assms by (cases "py_item series ''title''") (simp_all add: process_series_def)
  obtain sid where s: "py_item series ''id'' = Inr sid"
    using assms t by (cases "py_item series ''id''") (simp_all add: process_series_def)
  let ?nid = "?c @ ''/'' @ py_str (lib_repr E) sid"
  let ?text = "''['' @ py_str (lib_repr E) sid @ ''] '' @ py_str (lib_repr E) title"
  have ne: "Some ?nid \<noteq> Some ?c" by simp
  obtain x1 a1 where h: "add_node ?text (Some ?nid) ?c a = (x1, a1)"
    by (cases "add_node ?text (Some ?nid) ?c a")
  obtain nts where n: "py_get series ''notes'' = Inr nts"
    using t by (cases series) (simp_all add: py_item_def py_get_def)
  define step2 where "step2 =
     (if truthy nts
      then (case nts of PStr n \<Rightarrow> add_node (notes_text E n) None ?nid a1
                        | _ \<Rightarrow> (Inl TypeError, a1))
      else (Inr (), a1))"
  define step3 where "step3 = (\<lambda>a2.
     (case series_attributes E series of Inl e \<Rightarrow> (Inl e, a2) | Inr attributes \<Rightarrow>
        if attributes \<noteq> []
        then (case py_join ''; '' attributes of
                Inl e \<Rightarrow> (Inl e, a2)
              | Inr joined \<Rightarrow> add_node joined None ?nid a2)
        else (Inr (), a2)))"
  have unfold: "process_series E series cid a =
     (case x1 of Inl e \<Rightarrow> (Inl e, a1)
      | Inr u \<Rightarrow> (case step2 of (Inl e, a2) \<Rightarrow> (Inl e, a2) | (Inr u, a2) \<Rightarrow> step3 a2))"
    unfolding process_series_def Let_def step2_def step3_def
    using t s h n by (simp split: sum.splits)
  obtain x2 a2 where s2: "step2 = (x2, a2)" by (cases step2)
  from assms unfold obtain u1 where x1: "x1 = Inr u1" by (cases x1) simp_all
  from assms unfold x1 s2 obtain u2 where x2: "x2 = Inr u2" by (cases x2) simp_all
  from assms unfold x1 x2 s2 have s3: "step3 a2 = (Inr u, a')" by simp
  have a1: "a1 = a\<lparr>fred_data_tree := fred_data_tree a @ [\<lparr>node_id = Some ?nid, tag = ?text, parent = Some ?c\<rparr>]\<rparr>"
    using h x1 add_node_tree by blast
  have a2: "\<exists>e2. a2 = a1\<lparr>fred_data_tree := fred_data_tree a1 @ e2\<rparr>
              \<and> (\<forall>n \<in> set e2. parent n = Some ?nid)"
  proof (cases "truthy nts")
    case True
    then obtain nt where "nts = PStr nt"
      using s2 x2 by (cases nts) (simp_all add: step2_def)
    then have "add_node (notes_text E nt) None ?nid a1 = (Inr u2, a2)"
      using s2 x2 True by (simp add: step2_def)
    from add_node_tree [OF this] show ?thesis
      by (intro exI [of _ "[\<lparr>node_id = None, tag = notes_text E nt, parent = Some ?nid\<rparr>]"]) simp
  next
    case False
    then have "a2 = a1" using s2 by (simp add: step2_def)
    then show ?thesis by (intro exI [of _ "[]"]) simp
  qed
  have a3: "\<exists>e3. a' = a2\<lparr>fred_data_tree := fred_data_tree a2 @ e3\<rparr>
              \<and> (\<forall>n \<in> set e3. parent n = Some ?nid)"
  proof -
    obtain attrs where at: "series_attributes E series = Inr attrs"
      using s3 by (cases "series_attributes E series") (simp_all add: step3_def)
    show ?thesis
    proof (cases "attrs = []")
      case True
      then have "a' = a2" using s3 at by (simp add: step3_def)
      then show ?thesis by (intro exI [of _ "[]"]) simp
    next
      case False
      then obtain joined where "py_join ''; '' attrs = Inr joined"
        using s3 at by (cases "py_join ''; '' attrs") (simp_all add: step3_def)
      then have "add_node joined None ?nid a2 = (Inr u, a')"
        using s3 at False by (simp add: step3_def)
      from add_node_tree [OF this] show ?thesis
        by (intro exI [of _ "[\<lparr>node_id = None, tag = joined, parent = Some ?nid\<rparr>]"]) simp
    qed
  qed
  from a2 obtain e2 where e2: "a2 = a1\<lparr>fred_data_tree := fred_data_tree a1 @ e2\<rparr>"
    "\<forall>n \<in> set e2. parent n = Some ?nid" by blast
  from a3 obtain e3 where e3: "a' = a2\<lparr>fred_data_tree := fred_data_tree a2 @ e3\<rparr>"
    "\<forall>n \<in> set e3. parent n = Some ?nid" by blast
  show ?thesis
  proof (intro exI conjI)
    show "a' = a\<lparr>fred_data_tree := fred_data_tree a
              @ \<lparr>node_id = Some ?nid, tag = ?text, parent = Some ?c\<rparr> # (e2 @ e3)\<rparr>"
      using a1 e2(1) e3(1) by simp
    show "parent \<lparr>node_id = Some ?nid, tag = ?text, parent = Some ?c\<rparr> = Some ?c" by simp
    show "node_id \<lparr>node_id = Some ?nid, tag = ?text, parent = Some ?c\<rparr> \<noteq> None" by simp
    show "\<forall>n \<in> set (e2 @ e3). parent n \<noteq> Some ?c"
      using e2(2) e3(2) ne by auto
  qed
qed


lemma process_series_nodes:
  assumes "process_series E series cid a = (Inr u, a')"
  shows "\<exists>new. a' = a\<lparr>fred_data_tree := fred_data_tree a @ new\<rparr>
           \<and> length (series_nodes (py_str (lib_repr E) cid) new) = 1
           \<and> additional_nodes (py_str (lib_repr E) cid) new = []"
proof -
  from process_series_tree [OF assms] obtain hdr extra where
    h: "a' = a\<lparr>fred_data_tree := fred_data_tree a @ hdr # extra\<rparr>"
      "parent hdr = Some (py_str (lib_repr E) cid)" "node_id hdr \<noteq> None"
      "\<forall>n \<in> set extra. parent n \<noteq> Some (py_str (lib_repr E) cid)"
    by blast
  have "filter (\<lambda>n. parent n = Some (py_str (lib_repr E) cid) \<and> P n) extra = []" for P
    using h(4) by (simp add: filter_empty_conv)
  then show ?thesis
    using h(1-3) by (intro exI [of _ "hdr # extra"]) (simp add: series_nodes_def additional_nodes_def)
qed

lemma process_series_loop_nodes:
  "process_series_loop E xs cid rem a = (Inr rem', a') \<Longrightarrow>
   \<exists>new. a' = a\<lparr>fred_data_tree := fred_data_tree a @ new\<rparr>
     \<and> length (series_nodes (py_str (lib_repr E) cid) new) = length xs
     \<and> additional_nodes (py_str (lib_repr E) cid) new = []
     \<and> rem' = (if xs = [] then rem else NInt (num_val rem - int (length xs)))"
proof (induction xs arbitrary: rem a)
  case Nil
  then show ?case
    by (intro exI [of _ "[]"]) (simp add: series_nodes_def additional_nodes_def)
next
  case (Cons x xs)
  obtain r1 a1 where p: "process_series E x cid a = (r1, a1)"
    by (cases "process_series E x cid a")
  with Cons.prems obtain u where r1: "r1 = Inr u" by (cases r1) simp_all
  from Cons.prems p r1
  have l: "process_series_loop E xs cid (NInt (num_val rem - 1)) a1 = (Inr rem', a')" by simp
  from process_series_nodes [OF p [unfolded r1]] obtain n1 where
    n1: "a1 = a\<lparr>fred_data_tree := fred_data_tree a @ n1\<rparr>"
      "length (series_nodes (py_str (lib_repr E) cid) n1) = 1"
      "additional_nodes (py_str (lib_repr E) cid) n1 = []"
    by blast
  from Cons.IH [OF l] obtain n2 where
    n2: "a' = a1\<lparr>fred_data_tree := fred_data_tree a1 @ n2\<rparr>"
      "length (series_nodes (py_str (lib_repr E) cid) n2) = length xs"
      "additional_nodes (py_str (lib_repr E) cid) n2 = []"
      "rem' = (if xs = [] then NInt (num_val rem - 1)
               else NInt (num_val (NInt (num_val rem - 1)) - int (length xs)))"
    by blast
  show ?case
  proof (intro exI [of _ "n1 @ n2"] conjI)
    show "a' = a\<lparr>fred_data_tree := fred_data_tree a @ n1 @ n2\<rparr>"
      using n1(1) n2(1) by simp
    show "length (series_nodes (py_str (lib_repr E) cid) (n1 @ n2)) = length (x # xs)"
      using n1(2) n2(2) by (simp add: series_nodes_def)
    show "additional_nodes (py_str (lib_repr E) cid) (n1 @ n2) = []"
      using n1(3) n2(3) by (simp add: additional_nodes_def)
    show "rem' = (if x # xs = [] then rem else NInt (num_val rem - int (length (x # xs))))"
      using n2(4) by simp
  qed
qed

lemma slice_to_length:
  "0 \<le> n \<Longrightarrow> int (length (slice_to xs n)) = min (int (length xs)) n"
  by (simp add: slice_to_def)

lemma process_children_series_nodes:
  assumes c: "py_get children_series ''count'' = Inr (PInt reported)" and t: "reported \<noteq> 0"
    and s: "py_get children_series ''seriess'' = Inr (PList items)" and i: "items \<noteq> []"
    and r: "process_children_series E children_series categoryID a = (Inr r, a')"
  shows "\<exists>new. a' = a\<lparr>app_stats := inc_series reported (app_stats a),
                        fred_data_tree := fred_data_tree a @ new\<rparr>
     \<and> length (series_nodes (py_str (lib_repr E) categoryID) new)
         = length (slice_to items (LIMIT_SERIES E))
     \<and> additional_nodes (py_str (lib_repr E) categoryID) new
         = (if reported - int (length (slice_to items (LIMIT_SERIES E))) > 0
            then [\<lparr>node_id = None,
                   tag = ''plus ''
                         @ show_int (reported - int (length (slice_to items (LIMIT_SERIES E))))
                         @ '' additional series...'',
                   parent = Some (py_str (lib_repr E) categoryID)\<rparr>]
            else [])
     \<and> r = (NInt reported, NInt reported)"
proof -
  let ?c = "py_str (lib_repr E) categoryID"
  let ?shown = "slice_to items (LIMIT_SERIES E)"
  let ?a1 = "a\<lparr>app_stats := inc_series reported (app_stats a)\<rparr>"
  obtain x a2 where l: "process_series_loop E ?shown categoryID (NInt reported) ?a1 = (x, a2)"
    by (cases "process_series_loop E ?shown categoryID (NInt reported) ?a1")
  have u: "process_children_series E children_series categoryID a =
     (case x of
        Inl e \<Rightarrow> (Inl e, a2)
      | Inr num_remaining \<Rightarrow>
          if num_val num_remaining > 0
          then (case add_node
                       (''plus '' @ py_str (lib_repr E) (pyval_of_num num_remaining)
                        @ '' additional series...'')
                       None ?c a2 of
                  (Inl e, a3) \<Rightarrow> (Inl e, a3)
                | (Inr u, a3) \<Rightarrow> (Inr (NInt reported, NInt reported), a3))
          else (Inr (NInt reported, NInt reported), a2))"
    unfolding process_children_series_def
    using c t s i l by (simp add: py_iter_slice_to_def Let_def split: sum.splits)
  from r u obtain rem' where x: "x = Inr rem'" by (cases x) simp_all
  from process_series_loop_nodes [OF l [unfolded x]] obtain n1 where
    n1: "a2 = ?a1\<lparr>fred_data_tree := fred_data_tree ?a1 @ n1\<rparr>"
      "length (series_nodes ?c n1) = length ?shown"
      "additional_nodes ?c n1 = []"
      "rem' = (if ?shown = [] then NInt reported
               else NInt (num_val (NInt reported) - int (length ?shown)))"
    by blast
  have v: "num_val rem' = reported - int (length ?shown)"
    using n1(4) by (simp split: if_splits)
  have p: "py_str (lib_repr E) (pyval_of_num rem') = show_int (reported - int (length ?shown))"
    using n1(4) by (simp add: py_str_def split: if_splits)
  show ?thesis
  proof (cases "reported - int (length ?shown) > 0")
    case True
    let ?text = "''plus '' @ show_int (reported - int (length ?shown)) @ '' additional series...''"
    obtain y a3 where ad: "add_node ?text None ?c a2 = (y, a3)"
      by (cases "add_node ?text None ?c a2")
    from r u x v p True ad obtain w where y: "y = Inr w" by (cases y) simp_all
    from r u x v p True ad y have res: "r = (NInt reported, NInt reported)" "a' = a3" by simp_all
    from add_node_tree [OF ad [unfolded y]]
    have a3: "a3 = a2\<lparr>fred_data_tree := fred_data_tree a2
                 @ [\<lparr>node_id = None, tag = ?text, parent = Some ?c\<rparr>]\<rparr>" .
    show ?thesis
    proof (intro exI [of _ "n1 @ [\<lparr>node_id = None, tag = ?text, parent = Some ?c\<rparr>]"] conjI)
      show "a' = a\<lparr>app_stats := inc_series reported (app_stats a),
                    fred_data_tree := fred_data_tree a
                      @ n1 @ [\<lparr>node_id = None, tag = ?text, parent = Some ?c\<rparr>]\<rparr>"
        using res(2) a3 n1(1) by simp
      show "length (series_nodes ?c (n1 @ [\<lparr>node_id = None, tag = ?text, parent = Some ?c\<rparr>]))
              = length ?shown"
        using n1(2) by (simp add: series_nodes_def)
      show "additional_nodes ?c (n1 @ [\<lparr>node_id = None, tag = ?text, parent = Some ?c\<rparr>])
              = (if reported - int (length ?shown) > 0
                 then [\<lparr>node_id = None, tag = ?text, parent = Some ?c\<rparr>] else [])"
        using n1(3) True by (simp add: additional_nodes_def)
      show "r = (NInt reported, NInt reported)" by (rule res(1))
    qed
  next
    case False
    from r u x v False have res: "r = (NInt reported, NInt reported)" "a' = a2" by simp_all
    show ?thesis
      using res n1(1-3) False by (intro exI [of _ n1]) simp
  qed
qed


lemma series_examples:
  "py_get series_zero ''count'' = Inr (PInt 0)"
  "py_get series_zero ''seriess''
     = Inr (PList [PDict [(''id'', PStr ''S1''), (''title'', PStr ''First'')]])"
  "min (int (length [PDict [(''id'', PStr ''S1''), (''title'', PStr ''First'')]])) (LIMIT_SERIES env1) = 1"
  "py_get series2 ''count'' = Inr (PInt 5)"
  "py_get series2 ''seriess''
     = Inr (PList [PDict [(''id'', PStr ''S1''), (''title'', PStr ''First'')],
                   PDict [(''id'', PStr ''S2''), (''title'', PStr ''Second'')]])"
  "LIMIT_SERIES env_negative = - 1"
  "LIMIT_SERIES env1 = 2"
  "fst (process_children_series env_negative series2 (PInt 0) app1) = Inr (NInt 5, NInt 5)"
  "length (series_nodes ''0'' (added_nodes app1 app1_negative)) = 1"
  "map tag (additional_nodes ''0'' (added_nodes app1 app1_negative))
     = [''plus 4 additional series...'']"
  "fst (process_children_series env1 series2 (PInt 0) app1) = Inr (NInt 5, NInt 5)"
  "py_str (lib_repr env1) (PInt 0) = ''0''"
  "show_int 3 = ''3''"
  by code_simp+

text \<open>
  C7, as the claim states it, fails on the code. The guard
  \<open>if num_series and seriess\<close> tests the truth value of the reported total, so a
  response that reports zero series and still delivers one materialises nothing, where
  the claim asks for one node. And the cap is applied as a slice bound: with a cap of
  -1 and two items delivered one node is made, which is not the minimum of 2 and -1.
\<close>

theorem series_nodes_counterexample:
  "py_get series_zero ''count'' = Inr (PInt 0)
   \<and> py_get series_zero ''seriess''
       = Inr (PList [PDict [(''id'', PStr ''S1''), (''title'', PStr ''First'')]])
   \<and> process_children_series env1 series_zero (PInt 0) app1 = (Inr (NInt 0, NInt 0), app1)
   \<and> length (series_nodes ''0'' (added_nodes app1 app1)) = 0
   \<and> min (int (length [PDict [(''id'', PStr ''S1''), (''title'', PStr ''First'')]]))
          (LIMIT_SERIES env1) = 1
   \<and> py_get series2 ''count'' = Inr (PInt 5)
   \<and> py_get series2 ''seriess''
       = Inr (PList [PDict [(''id'', PStr ''S1''), (''title'', PStr ''First'')],
                     PDict [(''id'', PStr ''S2''), (''title'', PStr ''Second'')]])
   \<and> LIMIT_SERIES env_negative = - 1
   \<and> fst (process_children_series env_negative series2 (PInt 0) app1) = Inr (NInt 5, NInt 5)
   \<and> length (series_nodes ''0'' (added_nodes app1 app1_negative)) = 1
   \<and> map tag (additional_nodes ''0'' (added_nodes app1 app1_negative))
       = [''plus 4 additional series...'']"
proof -
  have z: "process_children_series env1 series_zero (PInt 0) app1 = (Inr (NInt 0, NInt 0), app1)"
    by (simp add: process_children_series_def series_examples(1,2))
  have n: "length (series_nodes ''0'' (added_nodes app1 app1)) = 0"
    by (simp add: added_nodes_def series_nodes_def)
  show ?thesis
    using z n series_examples by simp
qed

text \<open>
  C7, amended. The series response reports a total other than zero and delivers a
  list of items that is not empty, the display cap is not negative, and
  \<open>process_children_series\<close> returns. Then the nodes that were in the tree are
  untouched, the number of series nodes added under the category is the minimum of the
  number of items and the cap, and one node reporting the remainder is added if and
  only if the total minus that minimum is strictly positive; its text gives exactly
  this difference. Both counts returned are the reported total.
\<close>

theorem series_nodes_and_remainder:
  assumes "py_get children_series ''count'' = Inr (PInt reported)" and "reported \<noteq> 0"
    and "py_get children_series ''seriess'' = Inr (PList items)" and "items \<noteq> []"
    and "0 \<le> LIMIT_SERIES E"
    and "process_children_series E children_series categoryID a = (Inr r, a')"
  shows "take (length (fred_data_tree a)) (fred_data_tree a') = fred_data_tree a
    \<and> int (length (series_nodes (py_str (lib_repr E) categoryID) (added_nodes a a')))
        = min (int (length items)) (LIMIT_SERIES E)
    \<and> additional_nodes (py_str (lib_repr E) categoryID) (added_nodes a a')
        = (if reported - min (int (length items)) (LIMIT_SERIES E) > 0
           then [\<lparr>node_id = None,
                  tag = ''plus ''
                        @ show_int (reported - min (int (length items)) (LIMIT_SERIES E))
                        @ '' additional series...'',
                  parent = Some (py_str (lib_repr E) categoryID)\<rparr>]
           else [])
    \<and> r = (NInt reported, NInt reported)"
proof -
  from process_children_series_nodes [OF assms(1-4,6)] obtain new where
    n: "a' = a\<lparr>app_stats := inc_series reported (app_stats a),
                 fred_data_tree := fred_data_tree a @ new\<rparr>"
      "length (series_nodes (py_str (lib_repr E) categoryID) new)
         = length (slice_to items (LIMIT_SERIES E))"
      "additional_nodes (py_str (lib_repr E) categoryID) new
         = (if reported - int (length (slice_to items (LIMIT_SERIES E))) > 0
            then [\<lparr>node_id = None,
                   tag = ''plus ''
                         @ show_int (reported - int (length (slice_to items (LIMIT_SERIES E))))
                         @ '' additional series...'',
                   parent = Some (py_str (lib_repr E) categoryID)\<rparr>]
            else [])"
      "r = (NInt reported, NInt reported)"
    by blast
  have ad: "added_nodes a a' = new" using n(1) by (simp add: added_nodes_def)
  have tk: "take (length (fred_data_tree a)) (fred_data_tree a') = fred_data_tree a"
    using n(1) by simp
  show ?thesis
    unfolding ad using tk n(2-4) slice_to_length [OF assms(5), of items] by simp
qed

theorem series_nodes_and_remainder_witness:
  "py_get series2 ''count'' = Inr (PInt 5) \<and> (5 :: int) \<noteq> 0
   \<and> py_get series2 ''seriess''
       = Inr (PList [PDict [(''id'', PStr ''S1''), (''title'', PStr ''First'')],
                     PDict [(''id'', PStr ''S2''), (''title'', PStr ''Second'')]])
   \<and> 0 \<le> LIMIT_SERIES env1
   \<and> process_children_series env1 series2 (PInt 0) app1 = (Inr (NInt 5, NInt 5), app1_series)
   \<and> take (length (fred_data_tree app1)) (fred_data_tree app1_series) = fred_data_tree app1
   \<and> int (length (series_nodes ''0'' (added_nodes app1 app1_series))) = 2
   \<and> additional_nodes ''0'' (added_nodes app1 app1_series)
       = [\<lparr>node_id = None, tag = ''plus 3 additional series...'', parent = Some ''0''\<rparr>]"
proof -
  have p: "process_children_series env1 series2 (PInt 0) app1 = (Inr (NInt 5, NInt 5), app1_series)"
    using series_examples(11) by (intro pair_of_parts) (simp_all add: app1_series_def)
  have l: "0 \<le> LIMIT_SERIES env1" by (simp add: series_examples(7))
  have i: "[PDict [(''id'', PStr ''S1''), (''title'', PStr ''First'')],
            PDict [(''id'', PStr ''S2''), (''title'', PStr ''Second'')]] \<noteq> []" by simp
  have "(5 :: int) \<noteq> 0" by simp
  from series_nodes_and_remainder [OF series_examples(4) this series_examples(5) i l p]
  show ?thesis
    using p l series_examples(4,5)
    by (simp add: series_examples(7,12,13))
qed

section \<open>Rollup counts\<close>

lemma process_subcategories_sums:
  "process_subcategories E depth cid xs (c0, s0) a = (Inr (c, s), a') \<Longrightarrow>
   \<exists>rs. child_rollups E depth cid xs a = (Inr rs, a')
     \<and> length rs = length xs
     \<and> c = c0 + sum_list (map fst rs)
     \<and> num_val s = num_val s0 + sum_list (map (\<lambda>r. num_val (snd r)) rs)"
proof (induction xs arbitrary: c0 s0 a)
  case Nil
  then show ?case by simp
next
  case (Cons x xs)
  obtain r1 a1 where n: "create_category_node E cid x a = (r1, a1)"
    by (cases "create_category_node E cid x a")
  with Cons.prems obtain u where r1: "r1 = Inr u" by (cases r1) simp_all
  obtain r2 a2 where p: "process_category E (depth + 1) x a1 = (r2, a2)"
    by (cases "process_category E (depth + 1) x a1")
  with Cons.prems n r1 obtain d where r2: "r2 = Inr d" by (cases r2) simp_all
  from Cons.prems n r1 p r2
  have l: "process_subcategories E depth cid xs
             (c0 + fst d, NInt (num_val s0 + num_val (snd d))) a2 = (Inr (c, s), a')"
    by simp
  from Cons.IH [OF l] obtain rs where
    rs: "child_rollups E depth cid xs a2 = (Inr rs, a')" "length rs = length xs"
      "c = c0 + fst d + sum_list (map fst rs)"
      "num_val s = num_val (NInt (num_val s0 + num_val (snd d))) + sum_list (map (\<lambda>r. num_val (snd r)) rs)"
    by blast
  show ?case
    using n r1 p r2 rs by (intro exI [of _ "d # rs"]) simp
qed

lemma fetch_children_stages:
  assumes "fetch_children E depth categoryDict a = (Inr (cid, ns, own, cats), a3)"
  shows "\<exists>nm cs a1 a2 cc.
           py_item categoryDict ''id'' = Inr cid \<and> py_item categoryDict ''name'' = Inr nm
         \<and> get_children_series E cid (a\<lparr>progress := progress a @ [(depth, cid, nm)]\<rparr>) = (Inr cs, a1)
         \<and> process_children_series E cs cid a1 = (Inr (ns, own), a2)
         \<and> get_child_categories E cid a2 = (Inr cc, a3)
         \<and> py_get cc ''categories'' = Inr cats"
proof -
  obtain cid' where i: "py_item categoryDict ''id'' = Inr cid'"
    using assms by (cases "py_item categoryDict ''id''") (simp_all add: fetch_children_def)
  obtain nm where n: "py_item categoryDict ''name'' = Inr nm"
    using assms i by (cases "py_item categoryDict ''name''") (simp_all add: fetch_children_def)
  let ?a0 = "a\<lparr>progress := progress a @ [(depth, cid', nm)]\<rparr>"
  obtain x1 a1 where g: "get_children_series E cid' ?a0 = (x1, a1)"
    by (cases "get_children_series E cid' ?a0")
  from assms i n g obtain cs where x1: "x1 = Inr cs"
    by (cases x1) (simp_all add: fetch_children_def)
  obtain x2 a2 where p: "process_children_series E cs cid' a1 = (x2, a2)"
    by (cases "process_children_series E cs cid' a1")
  from assms i n g x1 p obtain ns' own' where x2: "x2 = Inr (ns', own')"
    by (cases x2) (auto simp add: fetch_children_def)
  obtain x3 a3' where c: "get_child_categories E cid' a2 = (x3, a3')"
    by (cases "get_child_categories E cid' a2")
  from assms i n g x1 p x2 c obtain cc where x3: "x3 = Inr cc"
    by (cases x3) (simp_all add: fetch_children_def)
  from assms i n g x1 p x2 c x3 obtain cats' where k: "py_get cc ''categories'' = Inr cats'"
    by (cases "py_get cc ''categories''") (simp_all add: fetch_children_def)
  from assms i n g x1 p x2 c x3 k
  have e: "cid' = cid" "ns' = ns" "own' = own" "cats' = cats" "a3' = a3"
    by (simp_all add: fetch_children_def)
  show ?thesis
    using i n g x1 p x2 c x3 k e by blast
qed

lemma process_children_series_rollup:
  assumes "process_children_series E cs cid a = (Inr (ns, own), a')"
  shows "ns = own \<and> num_val own = own_rollup cs"
proof -
  obtain cnt where c: "py_get cs ''count'' = Inr cnt"
    using assms by (cases "py_get cs ''count''") (simp_all add: process_children_series_def)
  obtain items where s: "py_get cs ''seriess'' = Inr items"
    using assms c by (cases "py_get cs ''seriess''") (simp_all add: process_children_series_def)
  show ?thesis
  proof (cases "truthy cnt \<and> truthy items")
    case False
    then have "process_children_series E cs cid a = (Inr (NInt 0, NInt 0), a)"
      using c s by (auto simp add: process_children_series_def)
    then have "ns = NInt 0" "own = NInt 0"
      using assms by simp_all
    moreover have "own_rollup cs = 0"
      using False c s by (cases cnt) (auto simp add: own_rollup_def reported_total_def)
    ultimately show ?thesis by simp
  next
    case True
    then obtain n where n: "py_num cnt = Some n"
      using assms c s by (cases "py_num cnt") (simp_all add: process_children_series_def)
    have v: "num_val n = own_rollup cs"
      using True c s n by (cases cnt) (auto simp add: own_rollup_def reported_total_def)
    have "ns = n \<and> own = n"
      using assms c s True n
      by (auto simp add: process_children_series_def Let_def
          split: sum.splits prod.splits if_splits)
    then show ?thesis using v by simp
  qed
qed


lemma annotate_returns:
  "annotate E cid n c ns s a = (Inr r, a') \<Longrightarrow> r = (c, s)"
  unfolding annotate_def Let_def
  by (simp split: sum.splits option.splits if_splits)

lemma count_categories_length:
  "count_categories cats a = (Inr (n, xs), a1) \<Longrightarrow> n = int (length xs)"
  by (cases cats)
     (auto simp add: count_categories_def py_len_def py_iter_def str_len_def Let_def
        split: sum.splits)

lemma process_category_stages:
  assumes d: "depth \<le> LIMIT_DEPTH E"
    and r: "process_category E depth categoryDict a = (Inr (ndc, nds), a')"
  shows "\<exists>cid ns own cats a3 rs.
           fetch_children E depth categoryDict a = (Inr (cid, ns, own, cats), a3)
         \<and> subcategory_rollups E depth cid cats a3 = Inr rs
         \<and> num_val nds = num_val own + sum_list (map (\<lambda>r. num_val (snd r)) rs)
         \<and> ndc = int (length rs) + sum_list (map fst rs)"
proof -
  obtain x a3 where f: "fetch_children E depth categoryDict a = (x, a3)"
    by (cases "fetch_children E depth categoryDict a")
  have u: "process_category E depth categoryDict a =
     (case x of
        Inl e \<Rightarrow> (Inl e, a3)
      | Inr (categoryID, num_series, num_descendent_series, categories) \<Rightarrow>
          if truthy categories
          then (case count_categories categories a3 of
                  (Inl e, a2) \<Rightarrow> (Inl e, a2)
                | (Inr (num_categories, subdicts), a2) \<Rightarrow>
                    (case process_subcategories E depth categoryID subdicts
                            (num_categories, num_descendent_series) a2 of
                       (Inl e, a3) \<Rightarrow> (Inl e, a3)
                     | (Inr (num_descendent_categories, num_descendent_series'), a3) \<Rightarrow>
                         annotate E categoryID num_categories num_descendent_categories
                           num_series num_descendent_series' a3))
          else annotate E categoryID 0 0 num_series num_descendent_series a3)"
    using d f by (subst process_category.simps) (simp split: sum.splits)
  from r u obtain cid ns own cats where x: "x = Inr (cid, ns, own, cats)"
    by (cases x) auto
  show ?thesis
  proof (cases "truthy cats")
    case False
    then have "annotate E cid 0 0 ns own a3 = (Inr (ndc, nds), a')"
      using r u x by simp
    from annotate_returns [OF this] have "ndc = 0" "nds = own" by simp_all
    then show ?thesis
      using f x False
      by (intro exI [of _ cid] exI [of _ ns] exI [of _ own] exI [of _ cats] exI [of _ a3]
          exI [of _ "[]"]) (simp add: subcategory_rollups_def)
  next
    case True
    obtain y a4 where c: "count_categories cats a3 = (y, a4)"
      by (cases "count_categories cats a3")
    from r u x True c obtain n subdicts where y: "y = Inr (n, subdicts)"
      by (cases y) auto
    obtain z a5 where p: "process_subcategories E depth cid subdicts (n, own) a4 = (z, a5)"
      by (cases "process_subcategories E depth cid subdicts (n, own) a4")
    from r u x True c y p obtain c' s' where z: "z = Inr (c', s')"
      by (cases z) auto
    from r u x True c y p z have "annotate E cid n c' ns s' a5 = (Inr (ndc, nds), a')"
      by simp
    from annotate_returns [OF this] have e: "ndc = c'" "nds = s'" by simp_all
    from process_subcategories_sums [OF p [unfolded z]] obtain rs where
      rs: "child_rollups E depth cid subdicts a4 = (Inr rs, a5)" "length rs = length subdicts"
        "c' = n + sum_list (map fst rs)"
        "num_val s' = num_val own + sum_list (map (\<lambda>r. num_val (snd r)) rs)"
      by blast
    have n: "n = int (length subdicts)"
      using count_categories_length c y by blast
    have sr: "subcategory_rollups E depth cid cats a3 = Inr rs"
      using True c y rs(1) by (simp add: subcategory_rollups_def)
    show ?thesis
      using f x sr e rs(2-4) n
      by (intro exI [of _ cid] exI [of _ ns] exI [of _ own] exI [of _ cats] exI [of _ a3]
          exI [of _ rs]) simp
  qed
qed

lemma rollup_examples:
  "fst (get_children_series env3 (PInt 0) app2_entered) = Inr series_none"
  "reported_total series_none = 5"
  "fst (fetch_children env3 0 (root_dict env3) app1) = Inr (PInt 0, NInt 0, NInt 0, PNone)"
  "subcategory_rollups env3 0 (PInt 0) PNone (snd (fetch_children env3 0 (root_dict env3) app1))
     = Inr []"
  "fst (process_category env3 0 (root_dict env3) app1) = Inr (0, NInt 0)"
  "LIMIT_DEPTH env3 = 1"
  "LIMIT_DEPTH env1 = 1"
  "fst (process_category env1 0 (root_dict env1) app1) = Inr (4, NInt 5)"
  "fst (fetch_children env1 0 (root_dict env1) app1) = Inr (PInt 0, NInt 0, NInt 0, categories1)"
  "subcategory_rollups env1 0 (PInt 0) categories1 app1_fetched = Inr [(1, NInt 5), (1, NInt 0)]"
  by code_simp+

text \<open>
  C1, as the claim states it, fails on the code. The root category of this host is
  visited, its series response reports a total of 5 and delivers no items, and it has
  no child categories: the rollup series count returned is 0, not 5.
\<close>

theorem rollup_total_counterexample:
  "LIMIT_DEPTH env3 = 1
   \<and> fst (get_children_series env3 (PInt 0) app2_entered) = Inr series_none
   \<and> reported_total series_none = 5
   \<and> fst (fetch_children env3 0 (root_dict env3) app1) = Inr (PInt 0, NInt 0, NInt 0, PNone)
   \<and> subcategory_rollups env3 0 (PInt 0) PNone (snd (fetch_children env3 0 (root_dict env3) app1))
       = Inr []
   \<and> fst (process_category env3 0 (root_dict env3) app1) = Inr (0, NInt 0)"
  using rollup_examples(1-6) by simp

text \<open>
  C1, amended. For every category the traversal visits (its depth is at most the
  configured maximum) and returns from, the rollup series count returned by
  \<open>process_category\<close> is the count the node starts with plus the sum of the rollup
  series counts returned by the recursive calls on its child categories. The count it
  starts with is the total the series response reports when the response also delivers
  a non-empty list of items, and zero when it delivers none; it is never the number of
  series nodes made, and it is the same under every display cap. The rollup category
  count is the number of child categories plus the sum of theirs.
\<close>

theorem rollup_series_count:
  assumes "depth \<le> LIMIT_DEPTH E"
    and "process_category E depth categoryDict a = (Inr (ndc, nds), a')"
  shows "\<exists>cid nm cs a1 ns own a2 cats a3 rs.
           py_item categoryDict ''id'' = Inr cid \<and> py_item categoryDict ''name'' = Inr nm
         \<and> get_children_series E cid (a\<lparr>progress := progress a @ [(depth, cid, nm)]\<rparr>)
             = (Inr cs, a1)
         \<and> process_children_series E cs cid a1 = (Inr (ns, own), a2)
         \<and> num_val own = own_rollup cs
         \<and> (\<forall>cap ns' own' a2'.
               process_children_series (E\<lparr>LIMIT_SERIES := cap\<rparr>) cs cid a1 = (Inr (ns', own'), a2')
               \<longrightarrow> num_val own' = own_rollup cs)
         \<and> fetch_children E depth categoryDict a = (Inr (cid, ns, own, cats), a3)
         \<and> subcategory_rollups E depth cid cats a3 = Inr rs
         \<and> num_val nds = own_rollup cs + sum_list (map (\<lambda>r. num_val (snd r)) rs)
         \<and> ndc = int (length rs) + sum_list (map fst rs)"
proof -
  from process_category_stages [OF assms] obtain cid ns own cats a3 rs where
    s: "fetch_children E depth categoryDict a = (Inr (cid, ns, own, cats), a3)"
      "subcategory_rollups E depth cid cats a3 = Inr rs"
      "num_val nds = num_val own + sum_list (map (\<lambda>r. num_val (snd r)) rs)"
      "ndc = int (length rs) + sum_list (map fst rs)"
    by blast
  from fetch_children_stages [OF s(1)] obtain nm cs a1 a2 where
    t: "py_item categoryDict ''id'' = Inr cid" "py_item categoryDict ''name'' = Inr nm"
      "get_children_series E cid (a\<lparr>progress := progress a @ [(depth, cid, nm)]\<rparr>) = (Inr cs, a1)"
      "process_children_series E cs cid a1 = (Inr (ns, own), a2)"
    by blast
  have o: "num_val own = own_rollup cs"
    using process_children_series_rollup [OF t(4)] by simp
  have i: "\<forall>cap ns' own' a2'.
             process_children_series (E\<lparr>LIMIT_SERIES := cap\<rparr>) cs cid a1 = (Inr (ns', own'), a2')
             \<longrightarrow> num_val own' = own_rollup cs"
    using process_children_series_rollup by blast
  show ?thesis
    using s t o i by (intro exI [of _ cid] exI [of _ nm] exI [of _ cs] exI [of _ a1]
        exI [of _ ns] exI [of _ own] exI [of _ a2] exI [of _ cats] exI [of _ a3] exI [of _ rs]) simp
qed

theorem rollup_series_count_witness:
  "0 \<le> LIMIT_DEPTH env1
   \<and> process_category env1 0 (root_dict env1) app1 = (Inr (4, NInt 5), app1_done)
   \<and> (\<exists>cid nm cs a1 ns own a2 cats a3 rs.
           py_item (root_dict env1) ''id'' = Inr cid \<and> py_item (root_dict env1) ''name'' = Inr nm
         \<and> get_children_series env1 cid (app1\<lparr>progress := progress app1 @ [(0, cid, nm)]\<rparr>)
             = (Inr cs, a1)
         \<and> process_children_series env1 cs cid a1 = (Inr (ns, own), a2)
         \<and> num_val own = own_rollup cs
         \<and> fetch_children env1 0 (root_dict env1) app1 = (Inr (cid, ns, own, cats), a3)
         \<and> subcategory_rollups env1 0 cid cats a3 = Inr rs
         \<and> num_val (NInt 5) = own_rollup cs + sum_list (map (\<lambda>r. num_val (snd r)) rs)
         \<and> 4 = int (length rs) + sum_list (map fst rs))
   \<and> fetch_children env1 0 (root_dict env1) app1
       = (Inr (PInt 0, NInt 0, NInt 0, categories1), app1_fetched)
   \<and> subcategory_rollups env1 0 (PInt 0) categories1 app1_fetched = Inr [(1, NInt 5), (1, NInt 0)]"
proof -
  have d: "0 \<le> LIMIT_DEPTH env1" by (simp add: rollup_examples(7))
  have p: "process_category env1 0 (root_dict env1) app1 = (Inr (4, NInt 5), app1_done)"
    using rollup_examples(8) by (intro pair_of_parts) (simp_all add: app1_done_def)
  have f: "fetch_children env1 0 (root_dict env1) app1
       = (Inr (PInt 0, NInt 0, NInt 0, categories1), app1_fetched)"
    using rollup_examples(9) by (intro pair_of_parts) (simp_all add: app1_fetched_def)
  from rollup_series_count [OF d p]
  have e: "\<exists>cid nm cs a1 ns own a2 cats a3 rs.
           py_item (root_dict env1) ''id'' = Inr cid \<and> py_item (root_dict env1) ''name'' = Inr nm
         \<and> get_children_series env1 cid (app1\<lparr>progress := progress app1 @ [(0, cid, nm)]\<rparr>)
             = (Inr cs, a1)
         \<and> process_children_series env1 cs cid a1 = (Inr (ns, own), a2)
         \<and> num_val own = own_rollup cs
         \<and> fetch_children env1 0 (root_dict env1) app1 = (Inr (cid, ns, own, cats), a3)
         \<and> subcategory_rollups env1 0 cid cats a3 = Inr rs
         \<and> num_val (NInt 5) = own_rollup cs + sum_list (map (\<lambda>r. num_val (snd r)) rs)
         \<and> 4 = int (length rs) + sum_list (map fst rs)"
    by blast
  show ?thesis
    using d p e f rollup_examples(10) by blast
qed

section \<open>The depth limit\<close>

lemma make_api_request_progress: "progress (snd (make_api_request E u a)) = progress a"
  by (simp add: make_api_request_def Let_def split: http_result.splits)

lemma make_caching_request_progress: "progress (snd (make_caching_request E u a)) = progress a"
proof -
  obtain d c1 where r: "read_cached_data (lib_fromisoformat E) (utcnow E (interactions a)) (APICacher a) u = (d, c1)"
    by (cases "read_cached_data (lib_fromisoformat E) (utcnow E (interactions a)) (APICacher a) u")
  let ?a1 = "a\<lparr>APICacher := c1, interactions := interactions a + 1\<rparr>"
  obtain x a2 where m: "make_api_request E u ?a1 = (x, a2)"
    by (cases "make_api_request E u ?a1")
  have "progress a2 = progress a"
    using make_api_request_progress [of E u ?a1] m by simp
  then show ?thesis
    using r m
    by (cases d; cases x) (simp_all add: make_caching_request_def Let_def split: sum.splits)
qed

lemma get_rest_data_progress: "progress (snd (get_rest_data E p a)) = progress a"
proof (cases "sublist API_KEY_PARAM_NAME (lower (lib_lower E) p)")
  case True
  then show ?thesis by (simp add: get_rest_data_aborts)
next
  case False
  then show ?thesis
    by (simp add: get_rest_data_state make_caching_request_progress)
qed

lemma requests_progress:
  "progress (snd (get_children_series E cid a)) = progress a"
  "progress (snd (get_child_categories E cid a)) = progress a"
  by (simp_all add: get_children_series_def get_child_categories_def get_rest_data_progress)

lemma add_node_progress: "progress (snd (add_node t i p a)) = progress a"
  by (simp add: add_node_def split: sum.splits)

lemma process_series_progress: "progress (snd (process_series E series cid a)) = progress a"
proof -
  have n: "progress a2 = progress a1" if "add_node t i p a1 = (x, a2)" for t i p a1 x a2
    using add_node_progress [of t i p a1] that by simp
  show ?thesis
    unfolding process_series_def Let_def
    by (auto simp add: add_node_progress split: sum.splits prod.splits pyval.splits if_splits dest!: n)
qed

lemma process_series_loop_progress:
  "progress (snd (process_series_loop E xs cid rem a)) = progress a"
proof (induction xs arbitrary: rem a)
  case Nil
  then show ?case by simp
next
  case (Cons x xs)
  obtain r1 a1 where p: "process_series E x cid a = (r1, a1)"
    by (cases "process_series E x cid a")
  have "progress a1 = progress a"
    using process_series_progress [of E x cid a] p by simp
  then show ?case
    using p Cons.IH [of "NInt (num_val rem - 1)" a1] by (cases r1) simp_all
qed

lemma process_children_series_progress:
  "progress (snd (process_children_series E cs cid a)) = progress a"
proof -
  have n: "progress a2 = progress a1" if "add_node t i p a1 = (x, a2)" for t i p a1 x a2
    using add_node_progress [of t i p a1] that by simp
  have l: "progress a2 = progress a1" if "process_series_loop E xs cid rem a1 = (x, a2)"
    for xs rem a1 x a2
    using process_series_loop_progress [of E xs cid rem a1] that by simp
  show ?thesis
    unfolding process_children_series_def Let_def
    by (auto simp add: add_node_progress split: sum.splits prod.splits option.splits if_splits dest!: n l)
qed

lemma count_categories_progress: "progress (snd (count_categories cats a)) = progress a"
  by (simp add: count_categories_def Let_def split: sum.splits)

lemma create_category_node_progress:
  "progress (snd (create_category_node E cid x a)) = progress a"
  by (simp add: create_category_node_def add_node_progress split: sum.splits)

lemma annotate_progress: "progress (snd (annotate E cid n c ns s a)) = progress a"
  unfolding annotate_def Let_def
  by (simp split: sum.splits option.splits)



lemma fetch_children_progress:
  "\<exists>new. progress (snd (fetch_children E depth categoryDict a)) = progress a @ new
         \<and> (\<forall>e \<in> set new. fst e = depth)"
proof (cases "py_item categoryDict ''id''")
  case (Inl e)
  then show ?thesis by (intro exI [of _ "[]"]) (simp add: fetch_children_def)
next
  case i: (Inr cid)
  show ?thesis
  proof (cases "py_item categoryDict ''name''")
    case (Inl e)
    then show ?thesis using i by (intro exI [of _ "[]"]) (simp add: fetch_children_def)
  next
    case n: (Inr nm)
    let ?a0 = "a\<lparr>progress := progress a @ [(depth, cid, nm)]\<rparr>"
    have r: "progress a2 = progress a1"
      if "get_children_series E c a1 = (x, a2) \<or> get_child_categories E c a1 = (x, a2)
          \<or> process_children_series E cs c a1 = (y, a2)" for c cs a1 x y a2
      using requests_progress [of E c a1] process_children_series_progress [of E cs c a1] that
      by auto
    have "progress (snd (fetch_children E depth categoryDict a)) = progress ?a0"
      unfolding fetch_children_def Let_def using i n
      by (auto split: sum.splits prod.splits dest!: r [OF disjI1] r [OF disjI2, OF disjI1]
            r [OF disjI2, OF disjI2])
    then show ?thesis
      by (intro exI [of _ "[(depth, cid, nm)]"]) simp
  qed
qed

lemma visited_depths:
  "\<exists>new. progress (snd (process_category E depth categoryDict a)) = progress a @ new
         \<and> (\<forall>e \<in> set new. depth \<le> fst e \<and> fst e \<le> LIMIT_DEPTH E)"
  and "\<exists>new. progress (snd (process_subcategories E depth categoryID subdicts totals a))
                = progress a @ new
         \<and> (\<forall>e \<in> set new. depth < fst e \<and> fst e \<le> LIMIT_DEPTH E)"
proof (induction E depth categoryDict a and E depth categoryID subdicts totals a
    rule: process_category_process_subcategories.induct)
  case (1 E depth categoryDict a)
  show ?case
  proof (cases "depth > LIMIT_DEPTH E")
    case True
    then show ?thesis
      by (intro exI [of _ "[]"]) (simp add: process_category.simps)
  next
    case False
    obtain x y where f: "fetch_children E depth categoryDict a = (x, y)"
      by (cases "fetch_children E depth categoryDict a")
    from fetch_children_progress [of E depth categoryDict a] f obtain n1 where
      n1: "progress y = progress a @ n1" "\<forall>e \<in> set n1. fst e = depth"
      by auto
    have good1: "\<forall>e \<in> set n1. depth \<le> fst e \<and> fst e \<le> LIMIT_DEPTH E"
      using n1(2) False by auto
    show ?thesis
    proof (cases x)
      case (Inl e)
      then have "snd (process_category E depth categoryDict a) = y"
        using False f by (simp add: process_category.simps)
      then show ?thesis using n1(1) good1 by (intro exI [of _ n1]) simp
    next
      case (Inr b)
      obtain cid ns own cats where b: "b = (cid, ns, own, cats)" by (cases b)
      show ?thesis
      proof (cases "truthy cats")
        case nc: False
        then have "snd (process_category E depth categoryDict a)
                   = snd (annotate E cid 0 0 ns own y)"
          using False f Inr b by (simp add: process_category.simps)
        then show ?thesis
          using n1(1) good1 by (intro exI [of _ n1]) (simp add: annotate_progress)
      next
        case tc: True
        obtain xd yab where c: "count_categories cats y = (xd, yab)"
          by (cases "count_categories cats y")
        have pc: "progress yab = progress y"
          using count_categories_progress [of cats y] c by simp
        show ?thesis
        proof (cases xd)
          case (Inl e)
          then have "snd (process_category E depth categoryDict a) = yab"
            using False f Inr b tc c by (simp add: process_category.simps)
          then show ?thesis using n1(1) good1 pc by (intro exI [of _ n1]) simp
        next
          case xr: (Inr ba)
          obtain n subs where ba: "ba = (n, subs)" by (cases ba)
          obtain z a5 where ps: "process_subcategories E depth cid subs (n, own) yab = (z, a5)"
            by (cases "process_subcategories E depth cid subs (n, own) yab")
          from "1.IH" [OF False f [symmetric] Inr _ _ _ tc c [symmetric] xr ba [symmetric],
              of cid "(ns, own, cats)" ns "(own, cats)" own] b ps
          obtain n2 where n2: "progress a5 = progress yab @ n2"
            "\<forall>e \<in> set n2. depth < fst e \<and> fst e \<le> LIMIT_DEPTH E"
            by auto
          have "progress (snd (process_category E depth categoryDict a)) = progress a5"
            using False f Inr b tc c xr ba ps
            by (cases z) (auto simp add: process_category.simps annotate_progress)
          then show ?thesis
            using n1(1) good1 pc n2 by (intro exI [of _ "n1 @ n2"]) auto
        qed
      qed
    qed
  qed
next
  case (2 E depth categoryID totals a)
  show ?case by (intro exI [of _ "[]"]) simp
next
  case (3 E depth categoryID subdict rest totals a)
  obtain x y where c: "create_category_node E categoryID subdict a = (x, y)"
    by (cases "create_category_node E categoryID subdict a")
  have py: "progress y = progress a"
    using create_category_node_progress [of E categoryID subdict a] c by simp
  show ?case
  proof (cases x)
    case (Inl e)
    then show ?thesis
      using c py by (intro exI [of _ "[]"]) simp
  next
    case (Inr b)
    obtain xa ya where p: "process_category E (depth + 1) subdict y = (xa, ya)"
      by (cases "process_category E (depth + 1) subdict y")
    from "3.IH"(1) [OF c [symmetric] Inr] p obtain n1 where
      n1: "progress ya = progress y @ n1"
        "\<forall>e \<in> set n1. depth + 1 \<le> fst e \<and> fst e \<le> LIMIT_DEPTH E"
      by auto
    show ?thesis
    proof (cases xa)
      case (Inl e)
      then have "snd (process_subcategories E depth categoryID (subdict # rest) totals a) = ya"
        using c Inr p by simp
      then show ?thesis
        using n1 py by (intro exI [of _ n1]) auto
    next
      case xr: (Inr ba)
      from "3.IH"(2) [OF c [symmetric] Inr p [symmetric] xr] obtain n2 where
        n2: "progress (snd (process_subcategories E depth categoryID rest
                 (fst totals + fst ba, NInt (num_val (snd totals) + num_val (snd ba))) ya))
             = progress ya @ n2"
          "\<forall>e \<in> set n2. depth < fst e \<and> fst e \<le> LIMIT_DEPTH E"
        by auto
      have "snd (process_subcategories E depth categoryID (subdict # rest) totals a)
            = snd (process_subcategories E depth categoryID rest
                 (fst totals + fst ba, NInt (num_val (snd totals) + num_val (snd ba))) ya)"
        using c Inr p xr by simp
      then show ?thesis
        using n1 n2 py by (intro exI [of _ "n1 @ n2"]) auto
    qed
  qed
qed


lemma process_category_beyond:
  "LIMIT_DEPTH E < depth \<Longrightarrow> process_category E depth categoryDict a = (Inr (0, NInt 0), a)"
  by (simp add: process_category.simps)

lemma child_rollups_at_limit:
  "LIMIT_DEPTH E \<le> depth \<Longrightarrow> child_rollups E depth categoryID subdicts a = (Inr rs, a') \<Longrightarrow>
   rs = replicate (length subdicts) (0, NInt 0)"
proof (induction subdicts arbitrary: a rs a')
  case Nil
  then show ?case by simp
next
  case (Cons x xs)
  obtain r1 a1 where n: "create_category_node E categoryID x a = (r1, a1)"
    by (cases "create_category_node E categoryID x a")
  with Cons.prems(2) obtain u where r1: "r1 = Inr u" by (cases r1) simp_all
  have p: "process_category E (depth + 1) x a1 = (Inr (0, NInt 0), a1)"
    using Cons.prems(1) by (intro process_category_beyond) simp
  obtain r3 a3 where c: "child_rollups E depth categoryID xs a1 = (r3, a3)"
    by (cases "child_rollups E depth categoryID xs a1")
  with Cons.prems(2) n r1 p obtain rs' where r3: "r3 = Inr rs'" by (cases r3) simp_all
  from Cons.IH [OF Cons.prems(1) c [unfolded r3]] have "rs' = replicate (length xs) (0, NInt 0)" .
  then show ?case
    using Cons.prems(2) n r1 p c r3 by auto
qed

lemma subcategory_rollups_at_limit:
  assumes "LIMIT_DEPTH E \<le> depth" and "subcategory_rollups E depth cid cats a = Inr rs"
  shows "sum_list (map fst rs) = 0 \<and> sum_list (map (\<lambda>r. num_val (snd r)) rs) = 0"
proof (cases "truthy cats")
  case False
  then show ?thesis using assms(2) by (simp add: subcategory_rollups_def)
next
  case True
  obtain y a1 where c: "count_categories cats a = (y, a1)"
    by (cases "count_categories cats a")
  from assms(2) True c obtain n subs where y: "y = Inr (n, subs)"
    by (cases y) (auto simp add: subcategory_rollups_def)
  obtain z a2 where r: "child_rollups E depth cid subs a1 = (z, a2)"
    by (cases "child_rollups E depth cid subs a1")
  from assms(2) True c y r have "z = Inr rs" by (simp add: subcategory_rollups_def)
  from child_rollups_at_limit [OF assms(1) r [unfolded this]]
  show ?thesis by (simp add: sum_list_replicate)
qed

lemma depth_examples:
  "LIMIT_DEPTH env1 = 1"
  "fst (get_child_categories env1 (PInt 0) app1) = Inr (PDict [(''categories'', categories1)])"
  "fst (get_child_categories env1 (PInt 1) app1) = Inr (PDict [(''categories'', PList [cat11])])"
  "fst (get_child_categories env1 (PInt 2) app1)
     = Inr (PDict [(''categories'', PList [PDict [(''id'', PInt 21), (''name'', PStr ''B1'')]])])"
  "fst (process_category env1 0 (root_dict env1) app1) = Inr (4, NInt 5)"
  "progress app1_done
     = [(0, PInt 0, PStr ''<root>''), (1, PInt 1, PStr ''A''), (1, PInt 2, PStr ''B'')]"
  "map node_id (fred_data_tree app1_done)
     = [Some ''0'', Some ''1'', Some ''1/S1'', Some ''1/S2'', None, Some ''11'', Some ''2'',
        Some ''21'']"
  "subcategory_rollups env1 0 (PInt 0) categories1 app1_fetched = Inr [(1, NInt 5), (1, NInt 0)]"
  "progress app1 = []"
  "fst (child_rollups env1 1 (PInt 0) [cat11] app1) = Inr [(0, NInt 0)]"
  "fst (process_category env1 1 cat1 app1_child) = Inr (1, NInt 5)"
  "total_server_calls (app_stats app1_done) = 6"
  by code_simp+

text \<open>
  C2, as the claim states it, fails on the code. The maximum depth is 1, the root has
  the two children 1 and 2, and each of them has one child. The traversal enters the
  root and its two children and never the grandchildren 11 and 21; but each child
  lists its own child, makes a node for it and counts it, so the two calls on the
  children return a category count of 1 each, and the descendant-category count of the
  root is 4, not 2.
\<close>

theorem depth_scenario_counterexample:
  "LIMIT_DEPTH env1 = 1
   \<and> fst (get_child_categories env1 (PInt 0) app1) = Inr (PDict [(''categories'', categories1)])
   \<and> fst (get_child_categories env1 (PInt 1) app1) = Inr (PDict [(''categories'', PList [cat11])])
   \<and> fst (get_child_categories env1 (PInt 2) app1)
       = Inr (PDict [(''categories'', PList [PDict [(''id'', PInt 21), (''name'', PStr ''B1'')]])])
   \<and> fst (process_category env1 0 (root_dict env1) app1) = Inr (4, NInt 5)
   \<and> progress app1_done
       = [(0, PInt 0, PStr ''<root>''), (1, PInt 1, PStr ''A''), (1, PInt 2, PStr ''B'')]
   \<and> map node_id (fred_data_tree app1_done)
       = [Some ''0'', Some ''1'', Some ''1/S1'', Some ''1/S2'', None, Some ''11'', Some ''2'',
          Some ''21'']
   \<and> subcategory_rollups env1 0 (PInt 0) categories1 app1_fetched
       = Inr [(1, NInt 5), (1, NInt 0)]"
  using depth_examples(1-8) by simp

text \<open>
  C2, amended. A call of \<open>process_category\<close> at a depth beyond the configured
  maximum returns zero counts at once and leaves the state as it was: the category is
  not entered, no request is made for it, and what is below it reaches no count.
  Every category a traversal enters has a depth between the depth the traversal
  started at and the maximum. The children of a category at the maximum depth are
  still listed by it: each gets its node and counts as one category of its parent,
  while the recursive call on it returns zero counts, so such a category returns the
  number of its child categories and the series count it started with. In the
  scenario (maximum depth 1, a root with two children that have one child each) the
  traversal enters the root and the two children only, and the descendant-category
  count of the root is 4: the two children and the two grandchildren they list.
\<close>

theorem depth_limit:
  "(LIMIT_DEPTH E < depth
     \<longrightarrow> process_category E depth categoryDict a = (Inr (0, NInt 0), a))
   \<and> (\<exists>new. progress (snd (process_category E depth categoryDict a)) = progress a @ new
            \<and> (\<forall>e \<in> set new. depth \<le> fst e \<and> fst e \<le> LIMIT_DEPTH E))
   \<and> (LIMIT_DEPTH E \<le> depth \<and> child_rollups E depth categoryID subdicts a = (Inr rs, a')
     \<longrightarrow> rs = replicate (length subdicts) (0, NInt 0))
   \<and> (depth = LIMIT_DEPTH E \<and> process_category E depth categoryDict a = (Inr (ndc, nds), a')
     \<longrightarrow> (\<exists>cid ns own cats a3 rs'.
            fetch_children E depth categoryDict a = (Inr (cid, ns, own, cats), a3)
          \<and> subcategory_rollups E depth cid cats a3 = Inr rs'
          \<and> ndc = int (length rs') \<and> num_val nds = num_val own))
   \<and> LIMIT_DEPTH env1 = 1
   \<and> fst (process_category env1 0 (root_dict env1) app1) = Inr (4, NInt 5)
   \<and> progress app1_done
       = [(0, PInt 0, PStr ''<root>''), (1, PInt 1, PStr ''A''), (1, PInt 2, PStr ''B'')]"
proof (intro conjI impI)
  assume "LIMIT_DEPTH E < depth"
  then show "process_category E depth categoryDict a = (Inr (0, NInt 0), a)"
    by (rule process_category_beyond)
next
  show "\<exists>new. progress (snd (process_category E depth categoryDict a)) = progress a @ new
            \<and> (\<forall>e \<in> set new. depth \<le> fst e \<and> fst e \<le> LIMIT_DEPTH E)"
    by (rule visited_depths(1))
next
  assume "LIMIT_DEPTH E \<le> depth \<and> child_rollups E depth categoryID subdicts a = (Inr rs, a')"
  then show "rs = replicate (length subdicts) (0, NInt 0)"
    using child_rollups_at_limit by blast
next
  assume h: "depth = LIMIT_DEPTH E \<and> process_category E depth categoryDict a = (Inr (ndc, nds), a')"
  then have d: "depth \<le> LIMIT_DEPTH E" and l: "LIMIT_DEPTH E \<le> depth" by simp_all
  from process_category_stages [OF d] h obtain cid ns own cats a3 rs' where
    s: "fetch_children E depth categoryDict a = (Inr (cid, ns, own, cats), a3)"
      "subcategory_rollups E depth cid cats a3 = Inr rs'"
      "num_val nds = num_val own + sum_list (map (\<lambda>r. num_val (snd r)) rs')"
      "ndc = int (length rs') + sum_list (map fst rs')"
    by blast
  from subcategory_rollups_at_limit [OF l s(2)] s
  show "\<exists>cid ns own cats a3 rs'.
            fetch_children E depth categoryDict a = (Inr (cid, ns, own, cats), a3)
          \<and> subcategory_rollups E depth cid cats a3 = Inr rs'
          \<and> ndc = int (length rs') \<and> num_val nds = num_val own"
    by (intro exI [of _ cid] exI [of _ ns] exI [of _ own] exI [of _ cats] exI [of _ a3]
        exI [of _ rs']) simp
qed (simp_all add: depth_examples)

theorem depth_limit_witness:
  "LIMIT_DEPTH env1 < 2
   \<and> process_category env1 2 cat11 app1 = (Inr (0, NInt 0), app1)
   \<and> (\<exists>new. progress app1_done = progress app1 @ new
            \<and> (\<forall>e \<in> set new. 0 \<le> fst e \<and> fst e \<le> LIMIT_DEPTH env1))
   \<and> set (progress app1_done) \<noteq> {}
   \<and> LIMIT_DEPTH env1 \<le> 1
   \<and> child_rollups env1 1 (PInt 0) [cat11] app1 = (Inr [(0, NInt 0)], app1_below)
   \<and> [(0, NInt 0)] = replicate (length [cat11]) (0 :: int, NInt 0)
   \<and> 1 = LIMIT_DEPTH env1
   \<and> process_category env1 1 cat1 app1_child = (Inr (1, NInt 5), app1_child_done)
   \<and> (\<exists>cid ns own cats a3 rs'.
          fetch_children env1 1 cat1 app1_child = (Inr (cid, ns, own, cats), a3)
        \<and> subcategory_rollups env1 1 cid cats a3 = Inr rs'
        \<and> 1 = int (length rs') \<and> num_val (NInt 5) = num_val own)"
proof -
  note t = depth_limit [where E = env1 and categoryID = "PInt 0" and subdicts = "[cat11]"
      and rs = "[(0, NInt 0)]"]
  have l: "LIMIT_DEPTH env1 < 2" "LIMIT_DEPTH env1 \<le> 1" "1 = LIMIT_DEPTH env1"
    by (simp_all add: depth_examples(1))
  have a: "process_category env1 2 cat11 app1 = (Inr (0, NInt 0), app1)"
    using t [where depth = 2 and categoryDict = cat11 and a = app1] l(1) by blast
  have b: "\<exists>new. progress app1_done = progress app1 @ new
            \<and> (\<forall>e \<in> set new. 0 \<le> fst e \<and> fst e \<le> LIMIT_DEPTH env1)"
    using t [where depth = 0 and categoryDict = "root_dict env1" and a = app1]
    unfolding app1_done_def by blast
  have n: "set (progress app1_done) \<noteq> {}" by (simp add: depth_examples(6))
  have c: "child_rollups env1 1 (PInt 0) [cat11] app1 = (Inr [(0, NInt 0)], app1_below)"
    using depth_examples(10) by (intro pair_of_parts) (simp_all add: app1_below_def)
  have d: "[(0, NInt 0)] = replicate (length [cat11]) (0 :: int, NInt 0)"
    using t [where depth = 1 and a = app1 and a' = app1_below] l(2) c by blast
  have p: "process_category env1 1 cat1 app1_child = (Inr (1, NInt 5), app1_child_done)"
    using depth_examples(11) by (intro pair_of_parts) (simp_all add: app1_child_done_def)
  have e: "\<exists>cid ns own cats a3 rs'.
          fetch_children env1 1 cat1 app1_child = (Inr (cid, ns, own, cats), a3)
        \<and> subcategory_rollups env1 1 cid cats a3 = Inr rs'
        \<and> 1 = int (length rs') \<and> num_val (NInt 5) = num_val own"
    using t [where depth = 1 and categoryDict = cat1 and a = app1_child and ndc = 1
        and nds = "NInt 5" and a' = app1_child_done] l(3) p by blast
  show ?thesis
    using l a b n c d p e by blast
qed

end
